(* ===== verification/Prelude.thy ===== *)
theory Prelude
  imports Main "HOL-Library.Word"
begin

text \<open>
  Shared vocabulary of the development: Go's fixed-width integers as words, byte
  slices as lists, the parts of \<^verbatim>\<open>encoding/binary\<close> and \<^verbatim>\<open>io\<close> that
  every package of the repository uses (little-endian integers, \<^verbatim>\<open>io.ReadFull\<close>
  over a \<^verbatim>\<open>bytes.Reader\<close>), and the generic facts about them.

  Conventions. A Go function that returns \<open>(T, error)\<close> becomes a function into
  \<open>'e + 'a\<close>, with \<open>Inl\<close> the error. A nil slice and an empty slice are the same
  list wherever the code cannot tell them apart (\<open>len\<close>, \<open>append\<close>, \<open>copy\<close>,
  \<open>range\<close>); where the code compares with nil, the field is an \<open>option\<close>.
  Slices are values: no function of the repository writes through a slice it shares
  with another owner.
\<close>

unbundle bit_operations_syntax

section \<open>Types\<close>

type_synonym byte = "8 word"
type_synonym u8 = "8 word"
type_synonym u16 = "16 word"
type_synonym u32 = "32 word"
type_synonym u64 = "64 word"
type_synonym bytes = "8 word list"

named_theorems wire_simps \<open>unfoldings and evaluation rules of the byte-level formats\<close>

section \<open>Little-endian integers\<close>

text \<open>
  \<open>le_bytes n x\<close> is the little-endian encoding of the low \<open>n\<close> bytes of \<open>x\<close>;
  \<open>le_word bs\<close> reads it back. The \<^verbatim>\<open>binary.LittleEndian\<close> functions are the
  instances at 2, 4 and 8 bytes.
\<close>

fun le_bytes :: "nat \<Rightarrow> 'a::len word \<Rightarrow> bytes" where
  "le_bytes 0 x = []"
| "le_bytes (Suc n) x = ucast x # le_bytes n (drop_bit 8 x)"

fun le_word :: "bytes \<Rightarrow> 'a::len word" where
  "le_word [] = 0"
| "le_word (b # bs) = ucast b OR push_bit 8 (le_word bs)"

definition PutUint16 :: "u16 \<Rightarrow> bytes" where
  "PutUint16 x = le_bytes 2 x"

definition PutUint32 :: "u32 \<Rightarrow> bytes" where
  "PutUint32 x = le_bytes 4 x"

definition PutUint64 :: "u64 \<Rightarrow> bytes" where
  "PutUint64 x = le_bytes 8 x"

definition Uint16 :: "bytes \<Rightarrow> u16" where
  "Uint16 bs = le_word (take 2 bs)"

definition Uint32 :: "bytes \<Rightarrow> u32" where
  "Uint32 bs = le_word (take 4 bs)"

definition Uint64 :: "bytes \<Rightarrow> u64" where
  "Uint64 bs = le_word (take 8 bs)"

lemma length_le_bytes [simp]: "length (le_bytes n x) = n"
  by (induction n arbitrary: x) simp_all

lemma le_bytes_numeral [wire_simps]:
  "le_bytes (numeral k) x = ucast x # le_bytes (pred_numeral k) (drop_bit 8 x)"
  by (simp add: numeral_eq_Suc)

lemmas [wire_simps] = PutUint16_def PutUint32_def PutUint64_def Uint16_def Uint32_def Uint64_def

lemma distinct_map_refine:
  assumes "distinct (map f xs)" "\<And>x y. g x = g y \<Longrightarrow> f x = f y"
  shows "distinct (map g xs)"
  using assms unfolding distinct_map inj_on_def by blast

lemma le_word_le_bytes: "le_word (le_bytes n x) = take_bit (8 * n) x"
proof (induction n arbitrary: x)
  case 0
  then show ?case by simp
next
  case (Suc n)
  have "ucast (ucast x :: byte) OR push_bit 8 (take_bit (8 * n) (drop_bit 8 x)) = take_bit (8 * Suc n) x"
    by (rule bit_word_eqI) (auto simp: bit_simps)
  with Suc show ?case by simp
qed

lemma le_word_le_bytes_full [simp]:
  "LENGTH('a::len) \<le> 8 * n \<Longrightarrow> le_word (le_bytes n (x :: 'a word)) = x"
  by (simp add: le_word_le_bytes take_bit_word_eq_self)

lemma drop_bit_le_word:
  assumes "8 * Suc (length bs) \<le> LENGTH('a::len)"
  shows "drop_bit 8 (ucast (b :: byte) OR push_bit 8 (le_word bs :: 'a word)) = le_word bs"
proof (rule bit_word_eqI)
  fix n assume "n < LENGTH('a)"
  have high: "\<not> bit (le_word bs :: 'a word) m" if "8 * length bs \<le> m" for m
    using that
  proof (induction bs arbitrary: m)
    case Nil
    then show ?case by simp
  next
    case (Cons a bs)
    from Cons.prems Cons.IH [of "m - 8"] show ?case
      by (auto simp: bit_simps dest: bit_imp_le_length)
  qed
  show "bit (drop_bit 8 (ucast b OR push_bit 8 (le_word bs :: 'a word))) n = bit (le_word bs :: 'a word) n"
    using assms high [of n] by (auto simp: bit_simps dest: bit_imp_le_length)
qed

lemma le_bytes_le_word:
  "8 * length bs \<le> LENGTH('a::len) \<Longrightarrow> le_bytes (length bs) (le_word bs :: 'a word) = bs"
proof (induction bs)
  case Nil
  then show ?case by simp
next
  case (Cons b bs)
  have "ucast (ucast b OR push_bit 8 (le_word bs :: 'a word)) = b"
    using Cons.prems by (intro bit_word_eqI) (auto simp: bit_simps)
  moreover have "drop_bit 8 (ucast b OR push_bit 8 (le_word bs :: 'a word)) = le_word bs"
    using Cons.prems by (intro drop_bit_le_word) simp
  ultimately show ?case using Cons by simp
qed

lemma length_PutUint [simp]:
  "length (PutUint16 x) = 2" "length (PutUint32 y) = 4" "length (PutUint64 z) = 8"
  by (simp_all add: PutUint16_def PutUint32_def PutUint64_def)

lemma Uint_PutUint_append [simp]:
  "Uint16 (PutUint16 x @ r) = x" "Uint32 (PutUint32 y @ r) = y" "Uint64 (PutUint64 z @ r) = z"
  by (simp_all add: PutUint16_def PutUint32_def PutUint64_def Uint16_def Uint32_def Uint64_def)

lemma Uint_PutUint [simp]:
  "Uint16 (PutUint16 x) = x" "Uint32 (PutUint32 y) = y" "Uint64 (PutUint64 z) = z"
  using Uint_PutUint_append [where r = "[]"] by simp_all

lemma PutUint_Uint:
  "length bs = 2 \<Longrightarrow> PutUint16 (Uint16 bs) = bs"
  "length bs = 4 \<Longrightarrow> PutUint32 (Uint32 bs) = bs"
  "length bs = 8 \<Longrightarrow> PutUint64 (Uint64 bs) = bs"
  using le_bytes_le_word [of bs, where 'a = 16] le_bytes_le_word [of bs, where 'a = 32]
    le_bytes_le_word [of bs, where 'a = 64]
  by (simp_all add: PutUint16_def PutUint32_def PutUint64_def Uint16_def Uint32_def Uint64_def)

section \<open>Reading from a byte stream\<close>

text \<open>
  A \<^verbatim>\<open>bytes.Reader\<close> is the list of the bytes not read yet. \<^verbatim>\<open>io.ReadFull\<close>
  returns EOF when nothing could be read and ErrUnexpectedEOF when only a part could be.
\<close>

datatype io_error = EOF | ErrUnexpectedEOF

definition ReadFull :: "nat \<Rightarrow> bytes \<Rightarrow> io_error + bytes \<times> bytes" where
  "ReadFull n r =
     (if n \<le> length r then Inr (take n r, drop n r)
      else if r = [] then Inl EOF else Inl ErrUnexpectedEOF)"

lemma ReadFull_append [simp]: "length a = n \<Longrightarrow> ReadFull n (a @ r) = Inr (a, r)"
  by (simp add: ReadFull_def)

lemma ReadFull_exact [simp]: "length a = n \<Longrightarrow> ReadFull n a = Inr (a, [])"
  using ReadFull_append [of a n "[]"] by simp

lemma ReadFull_Cons [simp]: "ReadFull (Suc 0) (b # r) = Inr ([b], r)"
  by (simp add: ReadFull_def)

lemma ReadFull_Inr: "ReadFull n r = Inr (a, r') \<longleftrightarrow> r = a @ r' \<and> length a = n"
  by (auto simp: ReadFull_def)

section \<open>Words\<close>

lemma unat_less_ucast: "unat (x :: 'a::len word) < 2 ^ LENGTH('b::len) \<Longrightarrow> unat (ucast x :: 'b word) = unat x"
  by (simp add: unsigned_ucast_eq unsigned_take_bit_eq take_bit_nat_eq_self)

lemma ucast_ucast_small:
  "unat (x :: 'a::len word) < 2 ^ LENGTH('b::len) \<Longrightarrow> ucast (ucast x :: 'b word) = x"
  by (simp add: word_unat_eq_iff unsigned_ucast_eq unsigned_take_bit_eq take_bit_nat_eq_self)

lemma ucast_ucast_up [simp]:
  "LENGTH('a::len) \<le> LENGTH('b::len) \<Longrightarrow> ucast (ucast (x :: 'a word) :: 'b word) = x"
  by (rule bit_word_eqI) (auto simp: bit_simps)

lemma unat_ucast_up:
  "LENGTH('a::len) \<le> LENGTH('b::len) \<Longrightarrow> unat (ucast (x :: 'a word) :: 'b word) = unat x"
  using unsigned_less [of x, where ?'a = nat]
  by (intro unat_less_ucast) (meson le_less_trans less_le_trans one_le_numeral power_increasing le_refl)

lemma scast_ucast_small:
  assumes "LENGTH('b::len) \<le> LENGTH('a::len)"
    and "- (2 ^ (LENGTH('b) - 1)) \<le> sint (x :: 'a word)" "sint x < 2 ^ (LENGTH('b) - 1)"
  shows "scast (ucast x :: 'b word) = x"
proof -
  have "sint (ucast x :: 'b word) = signed_take_bit (LENGTH('b) - Suc 0) (uint x)"
    by (simp add: signed_ucast_eq)
  also have "\<dots> = signed_take_bit (LENGTH('b) - Suc 0) (sint x)"
    using assms(1) by (simp add: sint_uint signed_take_bit_signed_take_bit min_absorb1)
  also have "\<dots> = sint x"
    using assms(2,3) by (simp add: signed_take_bit_int_eq_self)
  finally have "sint (ucast x :: 'b word) = sint x" .
  then have "(of_int (sint (ucast x :: 'b word)) :: 'a word) = of_int (sint x)" by simp
  then show ?thesis by (simp only: of_int_sint scast_id)
qed

lemma unat_succ_u32: "c \<noteq> 0xFFFFFFFF \<Longrightarrow> unat (c + 1 :: u32) = Suc (unat c)"
  using unsigned_less [of c, where ?'a = nat]
  by (simp add: unat_word_ariths word_unat_eq_iff mod_Suc)

end
