(* ===== verification/Tlv_Wire.thy ===== *)
theory Tlv_Wire
  imports Prelude
begin

text \<open>
  The byte level of \<^verbatim>\<open>tlv/tlv.go\<close>: elements and tags, the \<^verbatim>\<open>Reader\<close>
  (over a \<^verbatim>\<open>bytes.Reader\<close>, the only reader the repository gives it) and the
  \<^verbatim>\<open>Writer\<close> (over a \<^verbatim>\<open>bytes.Buffer\<close>, whose \<^verbatim>\<open>Write\<close> never fails).
  A reader operation maps the unread bytes to an error or to its result and the bytes
  left; a writer operation maps the buffer to the buffer after it (including what was
  written before an error) and the error it returned.
\<close>

section \<open>Constants, tags, elements, errors\<close>

definition TypeSignedInt :: u8 where [simp]: "TypeSignedInt = 0x00"
definition TypeUnsignedInt :: u8 where [simp]: "TypeUnsignedInt = 0x04"
definition TypeBoolean :: u8 where [simp]: "TypeBoolean = 0x08"
definition TypeUTF8String :: u8 where [simp]: "TypeUTF8String = 0x0C"
definition TypeByteString :: u8 where [simp]: "TypeByteString = 0x10"
definition TypeNull :: u8 where [simp]: "TypeNull = 0x14"
definition TypeStructure :: u8 where [simp]: "TypeStructure = 0x15"
definition TypeArray :: u8 where [simp]: "TypeArray = 0x16"
definition TypeList :: u8 where [simp]: "TypeList = 0x17"
definition TypeEndOfContainer :: u8 where [simp]: "TypeEndOfContainer = 0x18"

definition TagControlAnonymous :: u8 where [simp]: "TagControlAnonymous = 0x00"
definition TagControlContextSpecific :: u8 where [simp]: "TagControlContextSpecific = 0x20"
definition TagControlCommonProfile2 :: u8 where [simp]: "TagControlCommonProfile2 = 0x40"
definition TagControlCommonProfile4 :: u8 where [simp]: "TagControlCommonProfile4 = 0x60"
definition TagControlImplicitProfile2 :: u8 where [simp]: "TagControlImplicitProfile2 = 0x80"
definition TagControlImplicitProfile4 :: u8 where [simp]: "TagControlImplicitProfile4 = 0xA0"
definition TagControlFullyQualified6 :: u8 where [simp]: "TagControlFullyQualified6 = 0xC0"
definition TagControlFullyQualified8 :: u8 where [simp]: "TagControlFullyQualified8 = 0xE0"

record tag =
  tag_Class :: u8
  tag_ID :: u64
  tag_Profile :: u32

datatype element = Element
  (el_Tag: tag) (el_Type: u8) (el_Value: bytes) (el_SubElements: "element list")

text \<open>
  The errors of the package, one constructor per \<^verbatim>\<open>errors.New\<close> or
  \<^verbatim>\<open>fmt.Errorf\<close>; a wrapping (\<open>%w\<close>) keeps the wrapped error. \<open>GoPanic\<close> stands
  for a run-time panic raised by \<^verbatim>\<open>reflect\<close>.
\<close>

datatype tlv_error =
    IO io_error
  | ReadTagFailed tlv_error
  | ReadValueFailed tlv_error
  | UnknownTagControl
  | UnsupportedElementType u8
  | StringTooLong
  | LengthExceedsMaxUint32
  | TagIDExceedsByte u64
  | UnsupportedTagControl u8
  | UnsupportedGoType
  | InvalidTagID string string
  | OutNotPointer
  | ExpectedBoolean u8
  | ExpectedString u8
  | ExpectedByteString u8
  | ExpectedSignedInt u8
  | ExpectedUnsignedInt u8
  | ExpectedArrayOrList u8
  | ExpectedStructure u8
  | InvalidIntegerLength nat
  | SignedOverflow
  | UnsignedOverflow
  | InvalidTlvTag string
  | UnexpectedType u8 u8
  | GoPanic

section \<open>Reader\<close>

definition read_full :: "nat \<Rightarrow> bytes \<Rightarrow> tlv_error + bytes \<times> bytes" where
  "read_full n r = (case ReadFull n r of Inl e \<Rightarrow> Inl (IO e) | Inr x \<Rightarrow> Inr x)"

definition mk_tag :: "u8 \<Rightarrow> u64 \<Rightarrow> u32 \<Rightarrow> tag" where
  "mk_tag c i p = \<lparr>tag_Class = c, tag_ID = i, tag_Profile = p\<rparr>"

definition readTag :: "u8 \<Rightarrow> bytes \<Rightarrow> tlv_error + tag \<times> bytes" where
  "readTag control r =
     (if control = TagControlAnonymous then Inr (mk_tag control 0 0, r)
      else if control = TagControlContextSpecific then
        (case read_full 1 r of Inl e \<Rightarrow> Inl e
         | Inr (buf, r') \<Rightarrow> Inr (mk_tag control (ucast (buf ! 0)) 0, r'))
      else if control = TagControlCommonProfile2 then
        (case read_full 2 r of Inl e \<Rightarrow> Inl e
         | Inr (buf, r') \<Rightarrow> Inr (mk_tag control (ucast (Uint16 buf)) 0, r'))
      else if control = TagControlCommonProfile4 then
        (case read_full 4 r of Inl e \<Rightarrow> Inl e
         | Inr (buf, r') \<Rightarrow> Inr (mk_tag control (ucast (Uint32 buf)) 0, r'))
      else if control = TagControlImplicitProfile2 then
        (case read_full 2 r of Inl e \<Rightarrow> Inl e
         | Inr (buf, r') \<Rightarrow> Inr (mk_tag control (ucast (Uint16 buf)) 0, r'))
      else if control = TagControlImplicitProfile4 then
        (case read_full 4 r of Inl e \<Rightarrow> Inl e
         | Inr (buf, r') \<Rightarrow> Inr (mk_tag control (ucast (Uint32 buf)) 0, r'))
      else if control = TagControlFullyQualified6 then
        (case read_full 8 r of Inl e \<Rightarrow> Inl e
         | Inr (buf, r') \<Rightarrow>
             Inr (mk_tag control (ucast (Uint32 (drop 4 buf))) (Uint32 (take 4 buf)), r'))
      else if control = TagControlFullyQualified8 then
        (case read_full 8 r of Inl e \<Rightarrow> Inl e
         | Inr (buf, r') \<Rightarrow>
             Inr (mk_tag control (ucast (Uint32 (drop 4 buf))) (Uint32 (take 4 buf)), r'))
      else Inl UnknownTagControl)"

definition MaxInt32 :: u64 where "MaxInt32 = 0x7FFFFFFF"

definition readStringOrBytes :: "u8 \<Rightarrow> bytes \<Rightarrow> tlv_error + bytes \<times> bytes" where
  "readStringOrBytes lenLenBits r =
     (let lenLen = 2 ^ unat lenLenBits in
      case read_full lenLen r of Inl e \<Rightarrow> Inl e
      | Inr (lenBuf, r1) \<Rightarrow>
          let length = (if lenLen = 1 then ucast (lenBuf ! 0)
                        else if lenLen = 2 then ucast (Uint16 lenBuf)
                        else if lenLen = 4 then ucast (Uint32 lenBuf)
                        else if lenLen = 8 then Uint64 lenBuf
                        else 0) in
          if MaxInt32 < length then Inl StringTooLong else read_full (unat length) r1)"

definition readValue :: "u8 \<Rightarrow> bytes \<Rightarrow> tlv_error + bytes \<times> bytes" where
  "readValue elemType r =
     (let sub = elemType AND 0x03 in
      if unat TypeSignedInt \<le> unat elemType \<and> unat elemType \<le> unat TypeSignedInt + 3 then
        read_full (2 ^ unat sub) r
      else if unat TypeUnsignedInt \<le> unat elemType \<and> unat elemType \<le> unat TypeUnsignedInt + 3 then
        read_full (2 ^ unat sub) r
      else if elemType = TypeBoolean then Inr ([0], r)
      else if elemType = TypeBoolean + 1 then Inr ([1], r)
      else if unat TypeUTF8String \<le> unat elemType \<and> unat elemType \<le> unat TypeUTF8String + 3 then
        readStringOrBytes sub r
      else if unat TypeByteString \<le> unat elemType \<and> unat elemType \<le> unat TypeByteString + 3 then
        readStringOrBytes sub r
      else if elemType = TypeNull then Inr ([], r)
      else if elemType = TypeStructure \<or> elemType = TypeArray \<or> elemType = TypeList then Inr ([], r)
      else Inl (UnsupportedElementType elemType))"

definition ReadElement :: "bytes \<Rightarrow> tlv_error + element \<times> bytes" where
  "ReadElement r =
     (case read_full 1 r of Inl e \<Rightarrow> Inl e
      | Inr (controlByte, r1) \<Rightarrow>
          let control = controlByte ! 0;
              elementType = control AND 0x1F;
              tagControl = control AND 0xE0 in
          case readTag tagControl r1 of Inl e \<Rightarrow> Inl (ReadTagFailed e)
          | Inr (tag, r2) \<Rightarrow>
              if elementType = TypeEndOfContainer then Inr (Element tag elementType [] [], r2)
              else case readValue elementType r2 of Inl e \<Rightarrow> Inl (ReadValueFailed e)
                   | Inr (value, r3) \<Rightarrow> Inr (Element tag elementType value [], r3))"

text \<open>Every element takes at least its control byte from the stream.\<close>

lemma read_full_Inr: "read_full n r = Inr (a, r') \<longleftrightarrow> r = a @ r' \<and> length a = n"
  by (auto simp: read_full_def ReadFull_Inr split: sum.splits)

lemma readTag_shrinks: "readTag c r = Inr (t, r') \<Longrightarrow> length r' \<le> length r"
  by (auto simp: readTag_def read_full_Inr split: if_splits sum.splits)

lemma readStringOrBytes_shrinks: "readStringOrBytes s r = Inr (v, r') \<Longrightarrow> length r' \<le> length r"
  by (auto simp: readStringOrBytes_def Let_def read_full_Inr split: if_splits sum.splits)

lemma readValue_shrinks: "readValue t r = Inr (v, r') \<Longrightarrow> length r' \<le> length r"
  by (auto simp: readValue_def Let_def read_full_Inr dest: readStringOrBytes_shrinks split: if_splits)

lemma ReadElement_shrinks: "ReadElement r = Inr (e, r') \<Longrightarrow> length r' < length r"
  by (fastforce simp: ReadElement_def Let_def read_full_Inr dest: readTag_shrinks readValue_shrinks
      split: if_splits sum.splits)

definition is_container :: "u8 \<Rightarrow> bool" where
  "is_container t \<longleftrightarrow> t = TypeStructure \<or> t = TypeArray \<or> t = TypeList"

text \<open>
  \<^verbatim>\<open>ReadContainerChildren\<close>: the loop with the slice \<open>elements\<close> built so far as its
  first argument. The recursive call for a nested container decides where the loop goes
  on, so termination rests on the fact that no call gives bytes back.
\<close>

function read_children :: "element list \<Rightarrow> bytes \<Rightarrow> tlv_error + element list \<times> bytes" where
  "read_children elements r =
     (case ReadElement r of Inl e \<Rightarrow> Inl e
      | Inr (elem, r1) \<Rightarrow>
          if el_Type elem = TypeEndOfContainer then Inr (elements, r1)
          else if is_container (el_Type elem) then
            (case read_children [] r1 of Inl e \<Rightarrow> Inl e
             | Inr (subElems, r2) \<Rightarrow>
                 read_children
                   (elements @ [Element (el_Tag elem) (el_Type elem) (el_Value elem) subElems]) r2)
          else read_children (elements @ [elem]) r1)"
  by pat_completeness auto

lemma read_children_dom_shrinks:
  "read_children_dom (es, r) \<Longrightarrow> read_children es r = Inr (es', r') \<Longrightarrow> length r' < length r"
proof (induction es r arbitrary: es' r' rule: read_children.pinduct)
  case (1 es r)
  then show ?case
    by (fastforce simp: read_children.psimps dest: ReadElement_shrinks
        split: sum.splits if_splits prod.splits)
qed

termination read_children
proof (relation "measure (\<lambda>(es, r). length r)", goal_cases)
  case 1
  show ?case by simp
next
  case (2 es r x elem r1)
  then show ?case by (auto dest: ReadElement_shrinks)
next
  case (3 es r x elem r1 y subElems r2)
  then show ?case by (auto dest!: ReadElement_shrinks read_children_dom_shrinks)
next
  case (4 es r x elem r1)
  then show ?case by (auto dest: ReadElement_shrinks)
qed

declare read_children.simps [simp del]

definition ReadContainerChildren :: "bytes \<Rightarrow> tlv_error + element list \<times> bytes" where
  "ReadContainerChildren r = read_children [] r"

section \<open>Writer\<close>

type_synonym wresult = "bytes \<times> tlv_error option"

text \<open>\<open>w_then\<close> is Go's \<^verbatim>\<open>if err := ...; err != nil { return err }\<close>.\<close>

fun w_then :: "wresult \<Rightarrow> (bytes \<Rightarrow> wresult) \<Rightarrow> wresult" where
  "w_then (w, None) f = f w"
| "w_then (w, Some e) f = (w, Some e)"

definition w_write :: "bytes \<Rightarrow> bytes \<Rightarrow> wresult" where
  "w_write bs w = (w @ bs, None)"

definition writeControlByte :: "u8 \<Rightarrow> u8 \<Rightarrow> bytes \<Rightarrow> wresult" where
  "writeControlByte tagControl elemType w = w_write [tagControl OR elemType] w"

definition writeTag :: "tag \<Rightarrow> bytes \<Rightarrow> wresult" where
  "writeTag tag w =
     (let c = tag_Class tag in
      if c = TagControlAnonymous then (w, None)
      else if c = TagControlContextSpecific then
        (if unat (tag_ID tag) > 255 then (w, Some (TagIDExceedsByte (tag_ID tag)))
         else w_write [ucast (tag_ID tag)] w)
      else if c = TagControlCommonProfile2 then w_write (PutUint16 (ucast (tag_ID tag))) w
      else if c = TagControlCommonProfile4 then w_write (PutUint32 (ucast (tag_ID tag))) w
      else if c = TagControlImplicitProfile2 then w_write (PutUint16 (ucast (tag_ID tag))) w
      else if c = TagControlImplicitProfile4 then w_write (PutUint32 (ucast (tag_ID tag))) w
      else if c = TagControlFullyQualified6 then
        w_write (PutUint16 (ucast (drop_bit 16 (tag_Profile tag)))
                 @ PutUint16 (ucast (tag_Profile tag AND 0xFFFF))
                 @ PutUint16 (ucast (tag_ID tag))) w
      else if c = TagControlFullyQualified8 then
        w_write (PutUint16 (ucast (drop_bit 16 (tag_Profile tag)))
                 @ PutUint16 (ucast (tag_Profile tag AND 0xFFFF))
                 @ PutUint32 (ucast (tag_ID tag))) w
      else (w, Some (UnsupportedTagControl c)))"

text \<open>An \<^verbatim>\<open>int64\<close> is its 64-bit pattern; \<open>sint\<close> reads it as the signed value.\<close>

definition signed_repr :: "u64 \<Rightarrow> u8 \<times> bytes" where
  "signed_repr value =
     (if - 128 \<le> sint value \<and> sint value \<le> 127 then (TypeSignedInt, [ucast value])
      else if - 32768 \<le> sint value \<and> sint value \<le> 32767 then
        (TypeSignedInt OR 0x01, PutUint16 (ucast value))
      else if - 2147483648 \<le> sint value \<and> sint value \<le> 2147483647 then
        (TypeSignedInt OR 0x02, PutUint32 (ucast value))
      else (TypeSignedInt OR 0x03, PutUint64 value))"

definition PutSignedInt :: "tag \<Rightarrow> u64 \<Rightarrow> bytes \<Rightarrow> wresult" where
  "PutSignedInt tag value w =
     (let (typeByte, valBuf) = signed_repr value
      in w_then (w_then (writeControlByte (tag_Class tag) typeByte w) (writeTag tag)) (w_write valBuf))"

definition unsigned_repr :: "u64 \<Rightarrow> u8 \<times> bytes" where
  "unsigned_repr value =
     (if unat value \<le> 255 then (TypeUnsignedInt, [ucast value])
      else if unat value \<le> 65535 then (TypeUnsignedInt OR 0x01, PutUint16 (ucast value))
      else if unat value \<le> 4294967295 then (TypeUnsignedInt OR 0x02, PutUint32 (ucast value))
      else (TypeUnsignedInt OR 0x03, PutUint64 value))"

definition PutUnsignedInt :: "tag \<Rightarrow> u64 \<Rightarrow> bytes \<Rightarrow> wresult" where
  "PutUnsignedInt tag value w =
     (let (typeByte, valBuf) = unsigned_repr value
      in w_then (w_then (writeControlByte (tag_Class tag) typeByte w) (writeTag tag)) (w_write valBuf))"

definition PutBoolean :: "tag \<Rightarrow> bool \<Rightarrow> bytes \<Rightarrow> wresult" where
  "PutBoolean tag value w =
     (let typeByte = (if value then TypeBoolean + 1 else TypeBoolean)
      in w_then (writeControlByte (tag_Class tag) typeByte w) (writeTag tag))"

definition length_repr :: "nat \<Rightarrow> (u8 \<times> bytes) option" where
  "length_repr n =
     (if n \<le> 255 then Some (0x00, [of_nat n])
      else if n \<le> 65535 then Some (0x01, PutUint16 (of_nat n))
      else if n \<le> 4294967295 then Some (0x02, PutUint32 (of_nat n))
      else None)"

definition writeStringOrBytes :: "tag \<Rightarrow> u8 \<Rightarrow> bytes \<Rightarrow> bytes \<Rightarrow> wresult" where
  "writeStringOrBytes tag baseType data w =
     (case length_repr (length data) of
        None \<Rightarrow> (w, Some LengthExceedsMaxUint32)
      | Some (lenTypeBits, lenBytes) \<Rightarrow>
          let typeByte = baseType OR lenTypeBits in
          w_then (w_then (w_then (writeControlByte (tag_Class tag) typeByte w) (writeTag tag))
                         (w_write lenBytes))
                 (w_write data))"

definition PutString :: "tag \<Rightarrow> bytes \<Rightarrow> bytes \<Rightarrow> wresult" where
  "PutString tag value w = writeStringOrBytes tag TypeUTF8String value w"

definition PutBytes :: "tag \<Rightarrow> bytes \<Rightarrow> bytes \<Rightarrow> wresult" where
  "PutBytes tag value w = writeStringOrBytes tag TypeByteString value w"

definition StartContainer :: "tag \<Rightarrow> u8 \<Rightarrow> bytes \<Rightarrow> wresult" where
  "StartContainer tag containerType w =
     w_then (writeControlByte (tag_Class tag) containerType w) (writeTag tag)"

definition EndContainer :: "bytes \<Rightarrow> wresult" where
  "EndContainer w = writeControlByte TagControlAnonymous TypeEndOfContainer w"

section \<open>What the writer writes, the reader reads\<close>

text \<open>
  Tags whose identifier fits the field their class gives it, for the classes the writer
  and the reader lay out in the same way. The two fully qualified classes are not among
  them: \<open>Tlv_Properties\<close> says how they are read.
\<close>

definition tag_fits :: "tag \<Rightarrow> bool" where
  "tag_fits t \<longleftrightarrow> tag_Profile t = 0 \<and>
     (tag_Class t = TagControlAnonymous \<and> tag_ID t = 0
      \<or> tag_Class t = TagControlContextSpecific \<and> unat (tag_ID t) \<le> 255
      \<or> (tag_Class t = TagControlCommonProfile2 \<or> tag_Class t = TagControlImplicitProfile2)
        \<and> unat (tag_ID t) < 2 ^ 16
      \<or> (tag_Class t = TagControlCommonProfile4 \<or> tag_Class t = TagControlImplicitProfile4)
        \<and> unat (tag_ID t) < 2 ^ 32)"

definition tag_bytes :: "tag \<Rightarrow> bytes" where
  "tag_bytes t = fst (writeTag t [])"

definition head_bytes :: "tag \<Rightarrow> u8 \<Rightarrow> bytes" where
  "head_bytes t ty = (tag_Class t OR ty) # tag_bytes t"

lemma w_write_simp [simp]: "w_write bs w = (w @ bs, None)"
  by (simp add: w_write_def)

lemma writeTag_fits: "tag_fits t \<Longrightarrow> writeTag t w = (w @ tag_bytes t, None)"
  by (auto simp: tag_fits_def tag_bytes_def writeTag_def Let_def)

lemma tag_eqI: "tag_Class t = c \<Longrightarrow> tag_ID t = i \<Longrightarrow> tag_Profile t = p \<Longrightarrow> mk_tag c i p = t"
  by (cases t) (simp add: mk_tag_def)

lemma read_full_append [simp]: "length a = n \<Longrightarrow> read_full n (a @ r) = Inr (a, r)"
  by (simp add: read_full_def)

lemma read_full_Cons [simp]: "read_full (Suc 0) (b # r) = Inr ([b], r)"
  by (simp add: read_full_def)

lemma readTag_writeTag: "tag_fits t \<Longrightarrow> readTag (tag_Class t) (tag_bytes t @ r) = Inr (t, r)"
  by (auto simp: tag_fits_def tag_bytes_def writeTag_def Let_def readTag_def ucast_ucast_small
      intro!: tag_eqI)

lemma control_byte_split:
  assumes "tag_fits t" "unat ty < 32"
  shows "(tag_Class t OR ty) AND 0x1F = ty" "(tag_Class t OR ty) AND 0xE0 = tag_Class t"
proof -
  have ty: "ty AND 0x1F = ty" "ty AND 0xE0 = 0"
  proof -
    have *: "take_bit 5 ty = ty"
      using assms(2) by (simp add: word_unat_eq_iff unsigned_take_bit_eq take_bit_nat_eq_self)
    have m: "(0x1F :: u8) = mask 5" by (simp add: mask_eq_exp_minus_1)
    show "ty AND 0x1F = ty" using * by (simp only: m take_bit_eq_mask [symmetric])
    then have "ty AND 0xE0 = (ty AND 0x1F) AND 0xE0" by simp
    also have "\<dots> = 0" by (simp add: and.assoc)
    finally show "ty AND 0xE0 = 0" .
  qed
  have c: "tag_Class t AND 0x1F = 0" "tag_Class t AND 0xE0 = tag_Class t"
    using assms(1) by (auto simp: tag_fits_def)
  show "(tag_Class t OR ty) AND 0x1F = ty" "(tag_Class t OR ty) AND 0xE0 = tag_Class t"
    using ty c by (simp_all add: bit.conj_disj_distrib2)
qed

lemma ReadElement_head:
  assumes "tag_fits t" "unat ty < 32" "ty \<noteq> TypeEndOfContainer" "readValue ty r = Inr (v, r')"
  shows "ReadElement (head_bytes t ty @ r) = Inr (Element t ty v [], r')"
  using assms(3,4) control_byte_split [OF assms(1,2)]
  by (simp add: ReadElement_def head_bytes_def readTag_writeTag [OF assms(1)])

lemma ReadElement_end [simp]:
  "ReadElement (0x18 # r) = Inr (Element (mk_tag 0 0 0) TypeEndOfContainer [] [], r)"
  by (simp add: ReadElement_def readTag_def)

text \<open>Each primitive, written under a tag that fits, reads back as one element.\<close>

lemma Put_fits:
  assumes "tag_fits t"
  shows "PutUnsignedInt t v w = (w @ head_bytes t (fst (unsigned_repr v)) @ snd (unsigned_repr v), None)"
    and "PutSignedInt t v w = (w @ head_bytes t (fst (signed_repr v)) @ snd (signed_repr v), None)"
    and "PutBoolean t b w = (w @ head_bytes t (if b then 0x09 else 0x08), None)"
    and "StartContainer t c w = (w @ head_bytes t c, None)"
  using assms
  by (simp_all add: PutUnsignedInt_def PutSignedInt_def PutBoolean_def StartContainer_def
      writeControlByte_def writeTag_fits head_bytes_def split_beta Let_def)

lemma writeStringOrBytes_fits:
  assumes "tag_fits t" "length_repr (length d) = Some (k, lb)"
  shows "writeStringOrBytes t base d w = (w @ head_bytes t (base OR k) @ lb @ d, None)"
  using assms
  by (simp add: writeStringOrBytes_def writeControlByte_def writeTag_fits head_bytes_def)

lemma readValue_unsigned:
  "readValue (fst (unsigned_repr v)) (snd (unsigned_repr v) @ r) = Inr (snd (unsigned_repr v), r)"
  by (auto simp: unsigned_repr_def readValue_def Let_def)

lemma readValue_signed:
  "readValue (fst (signed_repr v)) (snd (signed_repr v) @ r) = Inr (snd (signed_repr v), r)"
  by (auto simp: signed_repr_def readValue_def Let_def)

lemma repr_type_small:
  "unat (fst (unsigned_repr v)) < 32" "fst (unsigned_repr v) \<noteq> TypeEndOfContainer"
  "unat (fst (signed_repr v)) < 32" "fst (signed_repr v) \<noteq> TypeEndOfContainer"
  by (auto simp: unsigned_repr_def signed_repr_def)

lemma ReadElement_unsigned:
  "tag_fits t \<Longrightarrow>
   ReadElement (head_bytes t (fst (unsigned_repr v)) @ snd (unsigned_repr v) @ r)
     = Inr (Element t (fst (unsigned_repr v)) (snd (unsigned_repr v)) [], r)"
  by (intro ReadElement_head repr_type_small readValue_unsigned)

lemma ReadElement_signed:
  "tag_fits t \<Longrightarrow>
   ReadElement (head_bytes t (fst (signed_repr v)) @ snd (signed_repr v) @ r)
     = Inr (Element t (fst (signed_repr v)) (snd (signed_repr v)) [], r)"
  by (intro ReadElement_head repr_type_small readValue_signed)

lemma ReadElement_boolean:
  "tag_fits t \<Longrightarrow>
   ReadElement (head_bytes t (if b then 0x09 else 0x08) @ r)
     = Inr (Element t (if b then 0x09 else 0x08) [if b then 1 else 0] [], r)"
  by (rule ReadElement_head) (auto simp: readValue_def Let_def)

lemma ReadElement_container:
  "tag_fits t \<Longrightarrow> is_container c \<Longrightarrow> ReadElement (head_bytes t c @ r) = Inr (Element t c [] [], r)"
  by (rule ReadElement_head) (auto simp: is_container_def readValue_def Let_def)

lemma readStringOrBytes_length:
  assumes "length_repr (length d) = Some (k, lb)" "length d < 2 ^ 31"
  shows "readStringOrBytes k (lb @ d @ r) = Inr (d, r)"
proof -
  have small: "\<not> MaxInt32 < (of_nat (length d) :: u64)"
    using assms(2) by (simp add: MaxInt32_def word_less_nat_alt unat_of_nat)
  have n: "unat (of_nat (length d) :: u64) = length d"
    using assms(2) by (simp add: unat_of_nat)
  have c8: "ucast (of_nat (length d) :: u8) = (of_nat (length d) :: u64)" if "length d \<le> 255"
    using that by (simp add: word_unat_eq_iff unsigned_ucast_eq unsigned_take_bit_eq unat_of_nat take_bit_nat_eq_self)
  have c16: "ucast (of_nat (length d) :: u16) = (of_nat (length d) :: u64)" if "length d \<le> 65535"
    using that by (simp add: word_unat_eq_iff unsigned_ucast_eq unsigned_take_bit_eq unat_of_nat take_bit_nat_eq_self)
  have c32: "ucast (of_nat (length d) :: u32) = (of_nat (length d) :: u64)"
    using assms(2) by (simp add: word_unat_eq_iff unsigned_ucast_eq unsigned_take_bit_eq unat_of_nat take_bit_nat_eq_self)
  consider (b1) "length d \<le> 255" "k = 0" "lb = [of_nat (length d)]"
    | (b2) "length d \<le> 65535" "k = 1" "lb = PutUint16 (of_nat (length d))"
    | (b4) "k = 2" "lb = PutUint32 (of_nat (length d))"
    using assms(1) by (auto simp: length_repr_def split: if_splits)
  then show ?thesis
    by cases (use small n c8 c16 c32 in \<open>simp_all add: readStringOrBytes_def\<close>)
qed

lemma readValue_string_type:
  assumes "k = 0 \<or> k = 1 \<or> k = 2" "base = TypeUTF8String \<or> base = TypeByteString"
  shows "unat (base OR k) < 32" "base OR k \<noteq> TypeEndOfContainer"
    and "readValue (base OR k) r = readStringOrBytes k r"
  using assms by (elim disjE; simp add: readValue_def)+

lemma ReadElement_string:
  assumes "tag_fits t" "length_repr (length d) = Some (k, lb)" "length d < 2 ^ 31"
    and "base = TypeUTF8String \<or> base = TypeByteString"
  shows "ReadElement (head_bytes t (base OR k) @ lb @ d @ r) = Inr (Element t (base OR k) d [], r)"
proof (rule ReadElement_head [OF assms(1)])
  have k: "k = 0 \<or> k = 1 \<or> k = 2"
    using assms(2) by (auto simp: length_repr_def split: if_splits)
  note ty = readValue_string_type [OF k assms(4)]
  show "unat (base OR k) < 32" "base OR k \<noteq> TypeEndOfContainer"
    by (rule ty(1), rule ty(2))
  show "readValue (base OR k) (lb @ d @ r) = Inr (d, r)"
    by (simp only: ty(3) readStringOrBytes_length [OF assms(2,3)])
qed

section \<open>The reader cuts a prefix off the stream\<close>

text \<open>
  \<open>cuts f r x r'\<close>: the parser \<open>f\<close> takes \<open>x\<close> from the front of \<open>r\<close>, leaves \<open>r'\<close>, and
  would do the same whatever followed the bytes it took.
\<close>

definition cuts :: "(bytes \<Rightarrow> tlv_error + 'a \<times> bytes) \<Rightarrow> bytes \<Rightarrow> 'a \<Rightarrow> bytes \<Rightarrow> bool" where
  "cuts f r x r' \<longleftrightarrow> (\<exists>u. r = u @ r' \<and> (\<forall>s. f (u @ s) = Inr (x, s)))"

lemma cutsI: "r = u @ r' \<Longrightarrow> (\<And>s. f (u @ s) = Inr (x, s)) \<Longrightarrow> cuts f r x r'"
  by (auto simp: cuts_def)

lemma readTag_cuts: "readTag c r = Inr (t, r') \<Longrightarrow> cuts (readTag c) r t r'"
proof (cases "c = TagControlAnonymous")
  case True
  assume "readTag c r = Inr (t, r')"
  with True show ?thesis
    by (intro cutsI [where u = "[]"]) (auto simp: readTag_def)
next
  case False
  assume "readTag c r = Inr (t, r')"
  with False show ?thesis
    by (auto simp: readTag_def read_full_Inr split: if_splits sum.splits intro: cutsI)
qed

lemma read_full_cuts: "read_full n r = Inr (a, r') \<Longrightarrow> cuts (read_full n) r a r'"
  by (auto simp: read_full_Inr intro: cutsI)

lemma readStringOrBytes_cuts:
  assumes "readStringOrBytes k r = Inr (v, r')"
  shows "cuts (readStringOrBytes k) r v r'"
proof -
  from assms obtain lb r1 where lb: "r = lb @ r1" "length lb = 2 ^ unat k" "r1 = v @ r'"
    by (auto simp: readStringOrBytes_def Let_def read_full_Inr split: sum.splits if_splits)
  show ?thesis
  proof (rule cutsI)
    show "r = (lb @ v) @ r'" using lb by simp
    show "readStringOrBytes k ((lb @ v) @ s) = Inr (v, s)" for s
      using assms lb by (auto simp: readStringOrBytes_def Let_def read_full_Inr split: if_splits)
  qed
qed

lemma readValue_cuts: "readValue t r = Inr (v, r') \<Longrightarrow> cuts (readValue t) r v r'"
  by (auto simp: readValue_def [abs_def] Let_def read_full_cuts readStringOrBytes_cuts
      split: if_splits intro!: cutsI [where u = "[]"])

lemma ReadElement_cuts:
  assumes "ReadElement r = Inr (e, r')"
  shows "\<exists>u. u \<noteq> [] \<and> r = u @ r' \<and> (\<forall>s. ReadElement (u @ s) = Inr (e, s))"
proof -
  from assms obtain c t r1 r2 where r: "r = c # r1" and t: "readTag (c AND 0xE0) r1 = Inr (t, r2)"
    and rest: "if c AND 0x1F = TypeEndOfContainer then e = Element t (c AND 0x1F) [] [] \<and> r' = r2
      else \<exists>v. readValue (c AND 0x1F) r2 = Inr (v, r') \<and> e = Element t (c AND 0x1F) v []"
    by (cases r) (auto simp: ReadElement_def read_full_Inr Let_def length_Suc_conv split: sum.splits if_splits)
  from readTag_cuts [OF t] obtain ut where ut: "r1 = ut @ r2" "\<And>s. readTag (c AND 0xE0) (ut @ s) = Inr (t, s)"
    by (auto simp: cuts_def)
  show ?thesis
  proof (cases "c AND 0x1F = TypeEndOfContainer")
    case True
    then show ?thesis using rest r ut
      by (intro exI [of _ "c # ut"]) (simp add: ReadElement_def)
  next
    case False
    then obtain v where v: "readValue (c AND 0x1F) r2 = Inr (v, r')" "e = Element t (c AND 0x1F) v []"
      using rest by auto
    from readValue_cuts [OF v(1)] obtain uv where "r2 = uv @ r'" "\<And>s. readValue (c AND 0x1F) (uv @ s) = Inr (v, s)"
      by (auto simp: cuts_def)
    then show ?thesis using False v r ut
      by (intro exI [of _ "c # ut @ uv"]) (simp add: ReadElement_def)
  qed
qed

end
