(* ===== verification/Go_Reflect.thy ===== *)
theory Go_Reflect
  imports Tlv_Wire
begin

text \<open>
  The part of Go's \<^verbatim>\<open>reflect\<close>, \<^verbatim>\<open>strings\<close> and \<^verbatim>\<open>strconv\<close> that the TLV
  encoder and decoder use: types, values that carry enough of their type to answer the
  questions the code asks (kind, element type of a slice or pointer, struct fields with
  their \<^verbatim>\<open>tlv\<close> tags), zero values, \<^verbatim>\<open>strings.Split\<close>,
  \<^verbatim>\<open>strconv.ParseUint\<close> and \<^verbatim>\<open>strconv.Atoi\<close>. Go types are finite trees here,
  so a type that contains a pointer to itself is not represented; a nil slice and an empty
  one are the same value, as nothing in the code tells them apart.
\<close>

section \<open>Types and values\<close>

record sfield =
  sf_Name :: string
  sf_Exported :: bool
  sf_tlv :: string

text \<open>
  Types the encoder and the decoder do not support are opaque: arrays with the length that
  belongs to their type, maps, floats with their width, anything else. Of their values the
  model keeps what \<^verbatim>\<open>isEmptyValue\<close> asks and whether they are the zero value of their
  type: for an array and for anything else whether it is zero, for a map nil or the number of
  its entries, for a float the bits of the \<^verbatim>\<open>float64\<close> that \<^verbatim>\<open>Value.Float\<close> gives.
\<close>

datatype okind = KArray nat | KMap | KFloat nat | KOther

datatype oval = OArray nat bool | OMap "nat option" | OFloat nat u64 | OOther bool

primrec okind_of :: "oval \<Rightarrow> okind" where
  "okind_of (OArray n z) = KArray n"
| "okind_of (OMap m) = KMap"
| "okind_of (OFloat w x) = KFloat w"
| "okind_of (OOther z) = KOther"

primrec ozero :: "okind \<Rightarrow> oval" where
  "ozero (KArray n) = OArray n True"
| "ozero KMap = OMap None"
| "ozero (KFloat w) = OFloat w 0"
| "ozero KOther = OOther True"

lemma okind_of_ozero [simp]: "okind_of (ozero k) = k"
  by (cases k) auto

datatype gotype =
    TBool
  | TString
  | TInt nat
  | TUint nat
  | TBytes
  | TSlice gotype
  | TPtr gotype
  | TIface
  | TStruct "(sfield \<times> gotype) list"
  | TElement
  | TOpaque okind

datatype goval =
    VBool bool
  | VString bytes
  | VInt nat u64
  | VUint nat u64
  | VBytes bytes
  | VSlice gotype "goval list"
  | VPtr gotype "goval option"
  | VIface "goval option"
  | VStruct "(sfield \<times> goval) list"
  | VElement element
  | VOpaque oval

text \<open>\<^verbatim>\<open>reflect.Zero\<close>.\<close>

primrec zero_val :: "gotype \<Rightarrow> goval" where
  "zero_val TBool = VBool False"
| "zero_val TString = VString []"
| "zero_val (TInt n) = VInt n 0"
| "zero_val (TUint n) = VUint n 0"
| "zero_val TBytes = VBytes []"
| "zero_val (TSlice t) = VSlice t []"
| "zero_val (TPtr t) = VPtr t None"
| "zero_val TIface = VIface None"
| "zero_val (TStruct fs) = VStruct (map (map_prod id zero_val) fs)"
| "zero_val TElement = VElement (Element (mk_tag 0 0 0) 0 [] [])"
| "zero_val (TOpaque k) = VOpaque (ozero k)"

text \<open>\<^verbatim>\<open>Value.Type\<close>.\<close>

primrec type_of :: "goval \<Rightarrow> gotype" where
  "type_of (VBool b) = TBool"
| "type_of (VString s) = TString"
| "type_of (VInt n x) = TInt n"
| "type_of (VUint n x) = TUint n"
| "type_of (VBytes b) = TBytes"
| "type_of (VSlice t vs) = TSlice t"
| "type_of (VPtr t p) = TPtr t"
| "type_of (VIface p) = TIface"
| "type_of (VStruct fs) = TStruct (map (map_prod id type_of) fs)"
| "type_of (VElement e) = TElement"
| "type_of (VOpaque v) = TOpaque (okind_of v)"

lemma type_of_zero_val [simp]: "type_of (zero_val t) = t"
proof (induction t)
  case (TStruct fs)
  then have "\<And>f t. (f, t) \<in> set fs \<Longrightarrow> type_of (zero_val t) = t"
    by fastforce
  then show ?case by (auto simp: comp_def map_prod_def split_beta intro!: map_idI)
qed auto

text \<open>
  \<^verbatim>\<open>isEmptyValue\<close> of \<^verbatim>\<open>tlv/encoder.go\<close>. A float is equal to zero when it is one of
  the two zeros of IEEE 754.
\<close>

fun isEmptyValue :: "goval \<Rightarrow> bool" where
  "isEmptyValue (VOpaque (OArray n z)) = (n = 0)"
| "isEmptyValue (VOpaque (OMap m)) = (case m of None \<Rightarrow> True | Some n \<Rightarrow> n = 0)"
| "isEmptyValue (VSlice t vs) = (length vs = 0)"
| "isEmptyValue (VBytes b) = (length b = 0)"
| "isEmptyValue (VString s) = (length s = 0)"
| "isEmptyValue (VBool b) = (\<not> b)"
| "isEmptyValue (VInt n x) = (x = 0)"
| "isEmptyValue (VUint n x) = (x = 0)"
| "isEmptyValue (VOpaque (OFloat w x)) = (x = 0 \<or> x = 0x8000000000000000)"
| "isEmptyValue (VIface p) = (p = None)"
| "isEmptyValue (VPtr t p) = (p = None)"
| "isEmptyValue _ = False"

section \<open>Struct tags\<close>

text \<open>\<^verbatim>\<open>strings.Split(s, ",")\<close>: never the empty list.\<close>

fun split_comma :: "string \<Rightarrow> string list" where
  "split_comma [] = [[]]"
| "split_comma (c # cs) =
     (if c = CHR '','' then [] # split_comma cs
      else (case split_comma cs of [] \<Rightarrow> [[c]] | s # ss \<Rightarrow> (c # s) # ss))"

lemma split_comma_not_Nil [simp]: "split_comma s \<noteq> []"
  by (cases s) (auto split: list.splits)

fun parse_digits :: "nat \<Rightarrow> string \<Rightarrow> nat option" where
  "parse_digits n [] = Some n"
| "parse_digits n (c # cs) =
     (let d = of_char c in
      if 48 \<le> d \<and> d \<le> (57 :: nat) then parse_digits (10 * n + (d - 48)) cs else None)"

text \<open>\<^verbatim>\<open>strconv.ParseUint(s, 10, 8)\<close>.\<close>

definition ParseUint8 :: "string \<Rightarrow> u64 option" where
  "ParseUint8 s =
     (if s = [] then None
      else case parse_digits 0 s of None \<Rightarrow> None
           | Some n \<Rightarrow> if n \<le> 255 then Some (of_nat n) else None)"

text \<open>\<^verbatim>\<open>strconv.Atoi\<close> on a 64-bit platform.\<close>

definition Atoi :: "string \<Rightarrow> int option" where
  "Atoi s =
     (let neg = (s \<noteq> [] \<and> hd s = CHR ''-'');
          ds = (if s \<noteq> [] \<and> (hd s = CHR ''-'' \<or> hd s = CHR ''+'') then tl s else s) in
      if ds = [] then None
      else case parse_digits 0 ds of None \<Rightarrow> None
           | Some n \<Rightarrow>
               let i = (if neg then - int n else int n) in
               if - (2 ^ 63) \<le> i \<and> i < 2 ^ 63 then Some i else None)"

lemma ParseUint8_bound: "ParseUint8 s = Some i \<Longrightarrow> unat i \<le> 255"
  by (auto simp: ParseUint8_def unat_of_nat take_bit_nat_eq_self split: if_splits option.splits)

text \<open>
  What the encoder accepts as a tag number, the decoder reads as the same number: a
  string of digits has no sign.
\<close>

lemma parse_digits_sign: "parse_digits n s = Some m \<Longrightarrow> s \<noteq> [] \<Longrightarrow> hd s \<noteq> CHR ''-'' \<and> hd s \<noteq> CHR ''+''"
  by (cases s) (auto simp: Let_def split: if_splits)

lemma Atoi_ParseUint8:
  assumes "ParseUint8 s = Some i"
  shows "Atoi s = Some (uint i)"
proof -
  from assms obtain n where n: "s \<noteq> []" "parse_digits 0 s = Some n" "n \<le> 255" "i = of_nat n"
    by (auto simp: ParseUint8_def split: if_splits option.splits)
  have "hd s \<noteq> CHR ''-''" "hd s \<noteq> CHR ''+''"
    using parse_digits_sign [OF n(2,1)] by auto
  moreover have "uint i = int n"
    using n(3,4) by (simp add: unsigned_of_nat take_bit_nat_eq_self)
  ultimately show ?thesis using n by (simp add: Atoi_def)
qed

section \<open>Sizes\<close>

text \<open>The measures for the recursion of the decoder, which follows the type of its target.\<close>

primrec type_size :: "gotype \<Rightarrow> nat" where
  "type_size TBool = 1"
| "type_size TString = 1"
| "type_size (TInt n) = 1"
| "type_size (TUint n) = 1"
| "type_size TBytes = 1"
| "type_size (TSlice t) = Suc (Suc (type_size t))"
| "type_size (TPtr t) = Suc (type_size t)"
| "type_size TIface = 1"
| "type_size (TStruct fs) = Suc (Suc (sum_list (map (Suc \<circ> snd) (map (map_prod id type_size) fs))))"
| "type_size TElement = 1"
| "type_size (TOpaque k) = 1"

primrec val_size :: "goval \<Rightarrow> nat" where
  "val_size (VBool b) = 1"
| "val_size (VString s) = 1"
| "val_size (VInt n x) = 1"
| "val_size (VUint n x) = 1"
| "val_size (VBytes b) = 1"
| "val_size (VSlice t vs) = Suc (Suc (type_size t))"
| "val_size (VPtr t p) = (case map_option val_size p of None \<Rightarrow> Suc (type_size t) | Some n \<Rightarrow> Suc n)"
| "val_size (VIface p) = 1"
| "val_size (VStruct fs) = Suc (Suc (sum_list (map (Suc \<circ> snd) (map (map_prod id val_size) fs))))"
| "val_size (VElement e) = 1"
| "val_size (VOpaque v) = 1"

lemma val_size_zero_val [simp]: "val_size (zero_val t) = type_size t"
proof (induction t)
  case (TStruct fs)
  then have "\<And>f t. (f, t) \<in> set fs \<Longrightarrow> val_size (zero_val t) = type_size t"
    by fastforce
  then show ?case by (auto simp: comp_def map_prod_def intro!: arg_cong [where f = sum_list])
qed auto

end
