(* ===== verification/Tlv_Encoder.thy ===== *)
theory Tlv_Encoder
  imports Go_Reflect
begin

text \<open>
  \<^verbatim>\<open>tlv/encoder.go\<close>: the reflective encoder. \<open>encodeValue\<close> recurses on the Go
  value; the loops of \<^verbatim>\<open>encodeContainer\<close> and \<^verbatim>\<open>encodeStruct\<close> are
  \<open>encode_elems\<close> and \<open>encode_fields\<close>.
\<close>

abbreviation anon_tag :: tag where
  "anon_tag \<equiv> mk_tag TagControlAnonymous 0 0"

abbreviation ctx_tag :: "u64 \<Rightarrow> tag" where
  "ctx_tag i \<equiv> mk_tag TagControlContextSpecific i 0"

definition tlv_omitempty :: "string \<Rightarrow> bool" where
  "tlv_omitempty tlvTag \<longleftrightarrow> ''omitempty'' \<in> set (tl (split_comma tlvTag))"

fun encodeValue :: "goval \<Rightarrow> tag \<Rightarrow> bytes \<Rightarrow> wresult"
  and encode_elems :: "goval list \<Rightarrow> bytes \<Rightarrow> wresult"
  and encode_fields :: "(sfield \<times> goval) list \<Rightarrow> bytes \<Rightarrow> wresult"
where
  "encodeValue (VPtr t None) tag w = writeControlByte (tag_Class tag) TypeNull w"
| "encodeValue (VPtr t (Some v)) tag w = encodeValue v tag w"
| "encodeValue (VIface None) tag w = writeControlByte (tag_Class tag) TypeNull w"
| "encodeValue (VIface (Some v)) tag w = encodeValue v tag w"
| "encodeValue (VInt n x) tag w = PutSignedInt tag x w"
| "encodeValue (VUint n x) tag w = PutUnsignedInt tag x w"
| "encodeValue (VBool b) tag w = PutBoolean tag b w"
| "encodeValue (VString s) tag w = PutString tag s w"
| "encodeValue (VBytes b) tag w = PutBytes tag b w"
| "encodeValue (VSlice t vs) tag w =
     w_then (w_then (StartContainer tag TypeArray w) (\<lambda>w. encode_elems vs w)) EndContainer"
| "encodeValue (VStruct fs) tag w =
     w_then (w_then (StartContainer tag TypeStructure w) (\<lambda>w. encode_fields fs w)) EndContainer"
| "encodeValue (VElement e) tag w = w_then (StartContainer tag TypeStructure w) EndContainer"
| "encodeValue (VOpaque x) tag w = (w, Some UnsupportedGoType)"
| "encode_elems [] w = (w, None)"
| "encode_elems (v # vs) w = w_then (encodeValue v anon_tag w) (\<lambda>w. encode_elems vs w)"
| "encode_fields [] w = (w, None)"
| "encode_fields ((f, v) # fs) w =
     (let tlvTag = sf_tlv f in
      if tlvTag = '''' \<or> tlvTag = ''-'' then encode_fields fs w
      else
        let tagIDStr = hd (split_comma tlvTag) in
        if tlv_omitempty tlvTag \<and> isEmptyValue v then encode_fields fs w
        else case ParseUint8 tagIDStr of
               None \<Rightarrow> (w, Some (InvalidTagID (sf_Name f) tagIDStr))
             | Some tagID \<Rightarrow>
                 w_then (encodeValue v (ctx_tag tagID) w) (\<lambda>w. encode_fields fs w))"

definition tlv_Encode :: "goval \<Rightarrow> bytes \<Rightarrow> wresult" where
  "tlv_Encode v w = encodeValue v anon_tag w"

text \<open>\<^verbatim>\<open>Marshal\<close>: a fresh buffer; on an error the bytes written so far are dropped.\<close>

definition tlv_Marshal :: "goval \<Rightarrow> tlv_error + bytes" where
  "tlv_Marshal v = (case tlv_Encode v [] of (w, None) \<Rightarrow> Inr w | (w, Some e) \<Rightarrow> Inl e)"

end
