(* ===== verification/Tlv_Decoder.thy ===== *)
theory Tlv_Decoder
  imports Go_Reflect
begin

text \<open>
  \<^verbatim>\<open>tlv/decoder.go\<close>: the reflective decoder. A decode function takes the value its
  target holds and returns the value the target holds afterwards, together with the
  error, so that a partly filled target after an error is part of the model. The
  recursion follows the type of the target: \<open>val_size\<close> decreases.
\<close>

section \<open>Scalars\<close>

definition parseSignedInt :: "bytes \<Rightarrow> tlv_error + u64" where
  "parseSignedInt b =
     (if length b = 1 then Inr (scast (b ! 0))
      else if length b = 2 then Inr (scast (Uint16 b))
      else if length b = 4 then Inr (scast (Uint32 b))
      else if length b = 8 then Inr (Uint64 b)
      else Inl (InvalidIntegerLength (length b)))"

definition parseUnsignedInt :: "bytes \<Rightarrow> tlv_error + u64" where
  "parseUnsignedInt b =
     (if length b = 1 then Inr (ucast (b ! 0))
      else if length b = 2 then Inr (ucast (Uint16 b))
      else if length b = 4 then Inr (ucast (Uint32 b))
      else if length b = 8 then Inr (Uint64 b)
      else Inl (InvalidIntegerLength (length b)))"

text \<open>\<^verbatim>\<open>Value.OverflowInt\<close> and \<^verbatim>\<open>Value.OverflowUint\<close> for a target of \<open>n\<close> bits.\<close>

definition OverflowInt :: "nat \<Rightarrow> u64 \<Rightarrow> bool" where
  "OverflowInt n x \<longleftrightarrow> \<not> (- (2 ^ (n - 1)) \<le> sint x \<and> sint x < 2 ^ (n - 1))"

definition OverflowUint :: "nat \<Rightarrow> u64 \<Rightarrow> bool" where
  "OverflowUint n x \<longleftrightarrow> \<not> unat x < 2 ^ n"

definition decodeBool :: "element \<Rightarrow> bool \<Rightarrow> goval \<times> tlv_error option" where
  "decodeBool tlv b =
     (if el_Type tlv \<noteq> TypeBoolean \<and> el_Type tlv \<noteq> TypeBoolean + 1
      then (VBool b, Some (ExpectedBoolean (el_Type tlv)))
      else (VBool (length (el_Value tlv) > 0 \<and> el_Value tlv ! 0 = 1), None))"

definition decodeString :: "element \<Rightarrow> bytes \<Rightarrow> goval \<times> tlv_error option" where
  "decodeString tlv s =
     (if el_Type tlv AND 0xFC \<noteq> TypeUTF8String then (VString s, Some (ExpectedString (el_Type tlv)))
      else (VString (el_Value tlv), None))"

definition decodeBytes :: "element \<Rightarrow> bytes \<Rightarrow> goval \<times> tlv_error option" where
  "decodeBytes tlv b =
     (if el_Type tlv AND 0xFC \<noteq> TypeByteString then (VBytes b, Some (ExpectedByteString (el_Type tlv)))
      else (VBytes (el_Value tlv), None))"

definition decodeInt :: "element \<Rightarrow> nat \<Rightarrow> u64 \<Rightarrow> goval \<times> tlv_error option" where
  "decodeInt tlv n x =
     (if el_Type tlv AND 0xFC \<noteq> TypeSignedInt then (VInt n x, Some (ExpectedSignedInt (el_Type tlv)))
      else case parseSignedInt (el_Value tlv) of Inl e \<Rightarrow> (VInt n x, Some e)
           | Inr val \<Rightarrow> if OverflowInt n val then (VInt n x, Some SignedOverflow)
                        else (VInt n val, None))"

definition decodeUint :: "element \<Rightarrow> nat \<Rightarrow> u64 \<Rightarrow> goval \<times> tlv_error option" where
  "decodeUint tlv n x =
     (if el_Type tlv AND 0xFC \<noteq> TypeUnsignedInt then (VUint n x, Some (ExpectedUnsignedInt (el_Type tlv)))
      else case parseUnsignedInt (el_Value tlv) of Inl e \<Rightarrow> (VUint n x, Some e)
           | Inr val \<Rightarrow> if OverflowUint n val then (VUint n x, Some UnsignedOverflow)
                        else (VUint n val, None))"

section \<open>Containers\<close>

text \<open>The child a struct field takes: the first whose tag number matches, whatever its class.\<close>

definition find_child :: "int \<Rightarrow> element list \<Rightarrow> element option" where
  "find_child tagID subs = find (\<lambda>child. tag_ID (el_Tag child) = word_of_int tagID) subs"

function (sequential) decode :: "element \<Rightarrow> goval \<Rightarrow> goval \<times> tlv_error option"
  and decode_slice :: "gotype \<Rightarrow> element list \<Rightarrow> goval list \<Rightarrow> goval list \<times> tlv_error option"
  and decode_fields :: "element list \<Rightarrow> (sfield \<times> goval) list \<Rightarrow> (sfield \<times> goval) list \<times> tlv_error option"
where
  "decode tlv (VElement e) = (VElement tlv, None)"
| "decode tlv (VPtr t p) =
     (if el_Type tlv = TypeNull then (VPtr t None, None)
      else case p of
             None \<Rightarrow> (case decode tlv (zero_val t) of (v, err) \<Rightarrow> (VPtr t (Some v), err))
           | Some v0 \<Rightarrow> (case decode tlv v0 of (v, err) \<Rightarrow> (VPtr t (Some v), err)))"
| "decode tlv (VBool b) = decodeBool tlv b"
| "decode tlv (VString s) = decodeString tlv s"
| "decode tlv (VInt n x) = decodeInt tlv n x"
| "decode tlv (VUint n x) = decodeUint tlv n x"
| "decode tlv (VBytes b) = decodeBytes tlv b"
| "decode tlv (VSlice t vs) =
     (if el_Type tlv \<noteq> TypeArray \<and> el_Type tlv \<noteq> TypeList
      then (VSlice t vs, Some (ExpectedArrayOrList (el_Type tlv)))
      else case decode_slice t (el_SubElements tlv) vs of (vs', err) \<Rightarrow> (VSlice t vs', err))"
| "decode tlv (VStruct fs) =
     (if el_Type tlv \<noteq> TypeStructure then (VStruct fs, Some (ExpectedStructure (el_Type tlv)))
      else case decode_fields (el_SubElements tlv) fs of (fs', err) \<Rightarrow> (VStruct fs', err))"
| "decode tlv v = (v, None)"
| "decode_slice t [] vs = (vs, None)"
| "decode_slice t (child # cs) vs =
     (case decode child (zero_val t) of
        (v, Some err) \<Rightarrow> (vs, Some err)
      | (v, None) \<Rightarrow> decode_slice t cs (vs @ [v]))"
| "decode_fields subs [] = ([], None)"
| "decode_fields subs ((f, v) # fs) =
     (let tag0 = hd (split_comma (sf_tlv f)) in
      if tag0 = '''' \<or> tag0 = ''-1'' \<or> \<not> sf_Exported f
      then (case decode_fields subs fs of (fs', err) \<Rightarrow> ((f, v) # fs', err))
      else case Atoi tag0 of
             None \<Rightarrow> ((f, v) # fs, Some (InvalidTlvTag tag0))
           | Some tagID \<Rightarrow>
               (case find_child tagID subs of
                  None \<Rightarrow> (case decode_fields subs fs of (fs', err) \<Rightarrow> ((f, v) # fs', err))
                | Some item \<Rightarrow>
                    (case decode item v of
                       (v', Some err) \<Rightarrow> ((f, v') # fs, Some err)
                     | (v', None) \<Rightarrow>
                         (case decode_fields subs fs of (fs', err) \<Rightarrow> ((f, v') # fs', err)))))"
  by pat_completeness auto

termination
proof (relation "measures
    [case_sum (\<lambda>(tlv, v). val_size v)
      (case_sum (\<lambda>(t, cs, vs). Suc (type_size t))
        (\<lambda>(subs, fs). Suc (sum_list (map (Suc \<circ> val_size \<circ> snd) fs)))),
     case_sum (\<lambda>_. 0) (case_sum (\<lambda>(t, cs, vs). length cs) (\<lambda>_. 0))]", goal_cases)
  case 1
  show ?case by simp
qed (simp_all add: comp_def)

text \<open>\<^verbatim>\<open>Decode\<close>: the target must be a non-nil pointer.\<close>

definition tlv_Decode :: "element \<Rightarrow> goval \<Rightarrow> goval \<times> tlv_error option" where
  "tlv_Decode tlv out =
     (case out of
        VPtr t (Some v) \<Rightarrow> (case decode tlv v of (v', err) \<Rightarrow> (VPtr t (Some v'), err))
      | VPtr t None \<Rightarrow> (out, Some GoPanic)
      | _ \<Rightarrow> (out, Some OutNotPointer))"

text \<open>\<^verbatim>\<open>checkType\<close>, which the package no longer calls.\<close>

definition checkType :: "element \<Rightarrow> u8 \<Rightarrow> tlv_error + bool" where
  "checkType tlv expectedType =
     (if el_Type tlv = TypeNull then Inr False
      else if el_Type tlv \<noteq> expectedType then Inl (UnexpectedType expectedType (el_Type tlv))
      else Inr True)"

end
