(* ===== verification/Tlv_Roundtrip.thy ===== *)
theory Tlv_Roundtrip
  imports Tlv_Encoder Tlv_Decoder
begin

text \<open>
  The contract between the encoder, the reader and the decoder. \<open>to_elem v t\<close> is the
  element tree that stands for the Go value \<open>v\<close> under the tag \<open>t\<close>: encoding \<open>v\<close> writes
  bytes that the reader turns into exactly this tree, and decoding the tree into a zero
  value of the type of \<open>v\<close> gives \<open>v\<close> back.
\<close>

section \<open>Values that survive the trip\<close>

definition field_id :: "sfield \<Rightarrow> u64 option" where
  "field_id f = (if sf_tlv f = '''' then None else ParseUint8 (hd (split_comma (sf_tlv f))))"

definition omitted :: "sfield \<Rightarrow> goval \<Rightarrow> bool" where
  "omitted f v \<longleftrightarrow> tlv_omitempty (sf_tlv f) \<and> isEmptyValue v"

text \<open>
  A value is encodable when the decoder can restore it: no interface, element or opaque
  kind, integers within their width, strings below the reader's limit, and struct fields
  that are exported, carry a tag number in 0..255, use each number once and hold a nil
  pointer only under \<^verbatim>\<open>omitempty\<close>. A field without a \<^verbatim>\<open>tlv\<close> tag and an empty field
  under \<^verbatim>\<open>omitempty\<close> are not transmitted, so they have to hold the zero value of their type:
  a nil map but not an allocated one, the positive zero but not the negative one.
\<close>

fun encodable :: "goval \<Rightarrow> bool" and encodable_fields :: "(sfield \<times> goval) list \<Rightarrow> bool" where
  "encodable (VBool b) = True"
| "encodable (VString s) = (length s < 2 ^ 31)"
| "encodable (VInt n x) = (\<not> OverflowInt n x)"
| "encodable (VUint n x) = (\<not> OverflowUint n x)"
| "encodable (VBytes b) = (length b < 2 ^ 31)"
| "encodable (VSlice t vs) = list_all (\<lambda>v. type_of v = t \<and> encodable v) vs"
| "encodable (VPtr t None) = False"
| "encodable (VPtr t (Some v)) = (type_of v = t \<and> encodable v)"
| "encodable (VIface p) = False"
| "encodable (VStruct fs) = (encodable_fields fs \<and> distinct (List.map_filter (\<lambda>x. field_id (fst x)) fs))"
| "encodable (VElement e) = False"
| "encodable (VOpaque o') = False"
| "encodable_fields [] = True"
| "encodable_fields ((f, v) # fs) =
     ((if sf_tlv f = '''' then v = zero_val (type_of v)
       else sf_Exported f \<and> field_id f \<noteq> None \<and> (omitted f v \<and> v = zero_val (type_of v) \<or> encodable v))
      \<and> encodable_fields fs)"

definition string_type :: "u8 \<Rightarrow> bytes \<Rightarrow> u8" where
  "string_type base d = base OR (case length_repr (length d) of None \<Rightarrow> 0 | Some (k, _) \<Rightarrow> k)"

fun to_elem :: "goval \<Rightarrow> tag \<Rightarrow> element" and field_elems :: "(sfield \<times> goval) list \<Rightarrow> element list" where
  "to_elem (VBool b) t = Element t (if b then 0x09 else 0x08) [if b then 1 else 0] []"
| "to_elem (VString s) t = Element t (string_type TypeUTF8String s) s []"
| "to_elem (VInt n x) t = Element t (fst (signed_repr x)) (snd (signed_repr x)) []"
| "to_elem (VUint n x) t = Element t (fst (unsigned_repr x)) (snd (unsigned_repr x)) []"
| "to_elem (VBytes b) t = Element t (string_type TypeByteString b) b []"
| "to_elem (VSlice ty vs) t = Element t TypeArray [] (map (\<lambda>v. to_elem v anon_tag) vs)"
| "to_elem (VPtr ty (Some v)) t = to_elem v t"
| "to_elem (VStruct fs) t = Element t TypeStructure [] (field_elems fs)"
| "to_elem _ t = Element t TypeNull [] []"
| "field_elems [] = []"
| "field_elems ((f, v) # fs) =
     (case field_id f of None \<Rightarrow> field_elems fs
      | Some i \<Rightarrow> if omitted f v then field_elems fs else to_elem v (ctx_tag i) # field_elems fs)"

section \<open>Encoding, then reading\<close>

text \<open>Reading one element with its children, as the callers of the reader do.\<close>

definition read_tree :: "bytes \<Rightarrow> tlv_error + element \<times> bytes" where
  "read_tree r =
     (case ReadElement r of Inl e \<Rightarrow> Inl e
      | Inr (elem, r1) \<Rightarrow>
          if is_container (el_Type elem) then
            (case ReadContainerChildren r1 of Inl e \<Rightarrow> Inl e
             | Inr (children, r2) \<Rightarrow>
                 Inr (Element (el_Tag elem) (el_Type elem) (el_Value elem) children, r2))
          else Inr (elem, r1))"

lemma read_children_step:
  assumes "read_tree r = Inr (e, r1)" "el_Type e \<noteq> TypeEndOfContainer"
  shows "read_children es r = read_children (es @ [e]) r1"
  using assms
  by (subst read_children.simps) (auto simp: read_tree_def ReadContainerChildren_def is_container_def
      split: sum.splits if_splits prod.splits)

lemma read_children_end: "read_children es (0x18 # r) = Inr (es, r)"
  by (subst read_children.simps) simp

lemma read_tree_container:
  assumes "tag_fits t" "is_container c" "\<And>es. read_children es (bs @ 0x18 # r) = read_children (es @ cs) (0x18 # r)"
  shows "read_tree (head_bytes t c @ bs @ 0x18 # r) = Inr (Element t c [] cs, r)"
  using assms
  by (simp add: read_tree_def ReadElement_container ReadContainerChildren_def read_children_end)

lemma string_type_small:
  "base = TypeUTF8String \<or> base = TypeByteString \<Longrightarrow> string_type base d AND 0xFC = base"
  "base = TypeUTF8String \<or> base = TypeByteString \<Longrightarrow> string_type base d \<noteq> TypeEndOfContainer"
  "base = TypeUTF8String \<or> base = TypeByteString \<Longrightarrow> string_type base d \<noteq> TypeNull"
  "base = TypeUTF8String \<or> base = TypeByteString \<Longrightarrow> \<not> is_container (string_type base d)"
  by (auto simp: string_type_def length_repr_def is_container_def split: option.splits)

lemma repr_not_container:
  "\<not> is_container (fst (unsigned_repr x))" "\<not> is_container (fst (signed_repr x))"
  by (auto simp: unsigned_repr_def signed_repr_def is_container_def)

lemma to_elem_shape:
  "encodable v \<Longrightarrow> el_Type (to_elem v t) \<noteq> TypeEndOfContainer \<and> el_Type (to_elem v t) \<noteq> TypeNull
     \<and> el_Tag (to_elem v t) = t"
proof (induction v t rule: to_elem_field_elems.induct(1) [where Q = "\<lambda>_. True"])
  case (2 s t)
  then show ?case using string_type_small(2,3) [of "TypeUTF8String" s] by simp
next
  case (3 n x t)
  then show ?case by (auto simp: signed_repr_def)
next
  case (4 n x t)
  then show ?case by (auto simp: unsigned_repr_def)
next
  case (5 b t)
  then show ?case using string_type_small(2,3) [of "TypeByteString" b] by simp
qed auto

text \<open>The encoder writes what the reader reads back as the tree.\<close>

lemma length_repr_Some: "n < 2 ^ 31 \<Longrightarrow> \<exists>k lb. length_repr n = Some (k, lb)"
  by (simp add: length_repr_def)

lemma read_tree_string:
  assumes "tag_fits t" "length d < 2 ^ 31" "base = TypeUTF8String \<or> base = TypeByteString"
  shows "\<exists>bs. writeStringOrBytes t base d w = (w @ bs, None)
           \<and> (\<forall>r. read_tree (bs @ r) = Inr (Element t (string_type base d) d [], r))"
proof -
  obtain k lb where l: "length_repr (length d) = Some (k, lb)"
    using length_repr_Some [OF assms(2)] by blast
  have ty: "string_type base d = base OR k" by (simp add: string_type_def l)
  then have nc: "\<not> is_container (base OR k)" using string_type_small(4) [OF assms(3), of d] by simp
  show ?thesis
    using nc by (intro exI [of _ "head_bytes t (base OR k) @ lb @ d"])
      (simp add: writeStringOrBytes_fits [OF assms(1) l] read_tree_def ty
        ReadElement_string [OF assms(1) l assms(2,3)])
qed

lemma ctx_tag_fits: "unat i \<le> 255 \<Longrightarrow> tag_fits (ctx_tag i)" and anon_tag_fits: "tag_fits anon_tag"
  by (simp_all add: tag_fits_def mk_tag_def)

lemma field_id_fits: "field_id f = Some i \<Longrightarrow> tag_fits (ctx_tag i)"
  by (intro ctx_tag_fits) (auto simp: field_id_def dest: ParseUint8_bound split: if_splits)

lemma ParseUint8_dash: "ParseUint8 ''-'' = None"
  by (simp add: ParseUint8_def)

lemma encode_field_cases:
  assumes "encodable_fields ((f, v) # fs)"
  shows "encode_fields ((f, v) # fs) w =
    (case field_id f of None \<Rightarrow> encode_fields fs w
     | Some i \<Rightarrow> if omitted f v then encode_fields fs w
                 else w_then (encodeValue v (ctx_tag i) w) (\<lambda>w. encode_fields fs w))"
proof (cases "sf_tlv f = ''''")
  case False
  then have "sf_tlv f \<noteq> ''-''" using assms by (auto simp: field_id_def ParseUint8_dash)
  then show ?thesis using assms False by (auto simp: Let_def field_id_def omitted_def)
qed (simp add: field_id_def)

text \<open>
  A writer \<open>f\<close> writes the element \<open>e\<close>, or the children \<open>cs\<close>, when it only appends and the
  reader reads what was appended as that.
\<close>

definition writes_element :: "(bytes \<Rightarrow> wresult) \<Rightarrow> element \<Rightarrow> bool" where
  "writes_element f e \<longleftrightarrow> (\<forall>w. \<exists>bs. f w = (w @ bs, None) \<and> (\<forall>r. read_tree (bs @ r) = Inr (e, r)))"

definition writes_children :: "(bytes \<Rightarrow> wresult) \<Rightarrow> element list \<Rightarrow> bool" where
  "writes_children f cs \<longleftrightarrow>
     (\<forall>w. \<exists>bs. f w = (w @ bs, None) \<and> (\<forall>es r. read_children es (bs @ r) = read_children (es @ cs) r))"

lemma writes_nothing: "writes_children (\<lambda>w. (w, None)) []"
  by (auto simp: writes_children_def)

lemma writes_Cons:
  assumes "writes_element f e" "el_Type e \<noteq> TypeEndOfContainer" "writes_children g cs"
  shows "writes_children (\<lambda>w. w_then (f w) g) (e # cs)"
  unfolding writes_children_def
proof
  fix w
  obtain b1 where b1: "f w = (w @ b1, None)" "\<And>r. read_tree (b1 @ r) = Inr (e, r)"
    using assms(1) unfolding writes_element_def by blast
  obtain b2 where b2: "g (w @ b1) = ((w @ b1) @ b2, None)" "\<And>es r. read_children es (b2 @ r) = read_children (es @ cs) r"
    using assms(3) unfolding writes_children_def by blast
  show "\<exists>bs. w_then (f w) g = (w @ bs, None) \<and> (\<forall>es r. read_children es (bs @ r) = read_children (es @ e # cs) r)"
    using b1(1) b2 read_children_step [OF b1(2) assms(2)] by (intro exI [of _ "b1 @ b2"]) simp
qed

lemma writes_container:
  assumes "tag_fits t" "is_container c" "writes_children f cs"
  shows "writes_element (\<lambda>w. w_then (w_then (StartContainer t c w) f) EndContainer) (Element t c [] cs)"
  unfolding writes_element_def
proof
  fix w
  obtain bs where bs: "f (w @ head_bytes t c) = ((w @ head_bytes t c) @ bs, None)"
    "\<And>es r. read_children es (bs @ r) = read_children (es @ cs) r"
    using assms(3) unfolding writes_children_def by blast
  show "\<exists>bs. w_then (w_then (StartContainer t c w) f) EndContainer = (w @ bs, None)
      \<and> (\<forall>r. read_tree (bs @ r) = Inr (Element t c [] cs, r))"
    using bs read_tree_container [OF assms(1,2)]
    by (intro exI [of _ "head_bytes t c @ bs @ [0x18]"]) (simp add: Put_fits [OF assms(1)] EndContainer_def writeControlByte_def)
qed

lemma writes_scalar:
  assumes "tag_fits t"
  shows "writes_element (PutSignedInt t x) (to_elem (VInt n x) t)" "writes_element (PutUnsignedInt t x) (to_elem (VUint n x) t)"
    "writes_element (PutBoolean t b) (to_elem (VBool b) t)"
    "length s < 2 ^ 31 \<Longrightarrow> writes_element (PutString t s) (to_elem (VString s) t)"
    "length s < 2 ^ 31 \<Longrightarrow> writes_element (PutBytes t s) (to_elem (VBytes s) t)"
proof -
  show "writes_element (PutSignedInt t x) (to_elem (VInt n x) t)" "writes_element (PutUnsignedInt t x) (to_elem (VUint n x) t)"
    using assms
    by (simp_all add: writes_element_def Put_fits read_tree_def ReadElement_signed ReadElement_unsigned repr_not_container)
  show "writes_element (PutBoolean t b) (to_elem (VBool b) t)"
    using assms by (simp add: writes_element_def Put_fits read_tree_def ReadElement_boolean is_container_def)
  show "writes_element (PutString t s) (to_elem (VString s) t)" "writes_element (PutBytes t s) (to_elem (VBytes s) t)"
    if "length s < 2 ^ 31"
    using that assms by (simp_all add: writes_element_def PutString_def PutBytes_def read_tree_string)
qed

lemma writes_elems:
  assumes "\<And>v. v \<in> set vs \<Longrightarrow> encodable v \<and> writes_element (encodeValue v anon_tag) (to_elem v anon_tag)"
  shows "writes_children (encode_elems vs) (map (\<lambda>v. to_elem v anon_tag) vs)"
  using assms
proof (induction vs)
  case (Cons v vs)
  then have "writes_children (\<lambda>w. w_then (encodeValue v anon_tag w) (encode_elems vs)) (to_elem v anon_tag # map (\<lambda>v. to_elem v anon_tag) vs)"
    by (intro writes_Cons) (use to_elem_shape in fastforce)+
  then show ?case by (simp add: writes_children_def)
qed (simp add: writes_children_def)

lemma encode_writers:
  "encodeValue (VInt n x) t = PutSignedInt t x" "encodeValue (VUint n x) t = PutUnsignedInt t x"
  "encodeValue (VBool b) t = PutBoolean t b" "encodeValue (VString s) t = PutString t s" "encodeValue (VBytes s) t = PutBytes t s"
  "encodeValue (VPtr ty (Some v)) t = encodeValue v t"
  "encodeValue (VSlice ty vs) t = (\<lambda>w. w_then (w_then (StartContainer t TypeArray w) (encode_elems vs)) EndContainer)"
  "encodeValue (VStruct fs) t = (\<lambda>w. w_then (w_then (StartContainer t TypeStructure w) (encode_fields fs)) EndContainer)"
  "encode_fields [] = (\<lambda>w. (w, None))"
  by (simp_all add: fun_eq_iff)

lemma encode_reads_as_tree:
  "encodable v \<Longrightarrow> tag_fits t \<Longrightarrow> writes_element (encodeValue v t) (to_elem v t)"
  "encodable_fields fs \<Longrightarrow> writes_children (encode_fields fs) (field_elems fs)"
proof (induction v and fs arbitrary: t rule: encodable_encodable_fields.induct)
  case (6 ty vs)
  then have "writes_children (encode_elems vs) (map (\<lambda>v. to_elem v anon_tag) vs)"
    using anon_tag_fits by (intro writes_elems) (auto simp: list_all_iff)
  from writes_container [OF 6(3) _ this, of TypeArray] show ?case by (simp add: encode_writers is_container_def)
next
  case (10 fs)
  then have "writes_children (encode_fields fs) (field_elems fs)" by simp
  from writes_container [OF 10(3) _ this, of TypeStructure] show ?case by (simp add: encode_writers is_container_def)
next
  case (14 f v fs)
  note step = encode_field_cases [OF "14.prems"]
  have rest: "writes_children (encode_fields fs) (field_elems fs)" using 14 by simp
  show ?case
  proof (cases "field_id f = None \<or> omitted f v")
    case True
    then show ?thesis using rest unfolding writes_children_def step by (auto split: option.splits)
  next
    case False
    then obtain i where i: "field_id f = Some i" "\<not> omitted f v" by auto
    then have v: "sf_tlv f \<noteq> ''''" "encodable v" using "14.prems" by (auto simp: field_id_def split: if_splits)
    from writes_Cons [OF "14.IH"(1) [OF v field_id_fits [OF i(1)]] _ rest] show ?thesis
      using i to_elem_shape [OF v(2)] unfolding writes_children_def step by simp
  qed
qed (simp_all only: encode_writers writes_scalar writes_nothing encodable.simps to_elem.simps(7) field_elems.simps(1) simp_thms)

section \<open>Decoding the tree\<close>

lemma parse_repr [simp]:
  "parseUnsignedInt (snd (unsigned_repr x)) = Inr x"
  "parseSignedInt (snd (signed_repr x)) = Inr x"
  by (auto simp: unsigned_repr_def signed_repr_def parseUnsignedInt_def parseSignedInt_def
      ucast_ucast_small scast_ucast_small)

lemma repr_base [simp]:
  "fst (unsigned_repr x) AND 0xFC = TypeUnsignedInt" "fst (signed_repr x) AND 0xFC = TypeSignedInt"
  by (auto simp: unsigned_repr_def signed_repr_def)

lemma empty_is_zero: "isEmptyValue v \<Longrightarrow> encodable v \<Longrightarrow> zero_val (type_of v) = v"
  by (induction v rule: isEmptyValue.induct) auto

lemma find_child_absent:
  assumes "encodable_fields fs" "i \<notin> set (List.map_filter (\<lambda>x. field_id (fst x)) fs)"
  shows "find_child (uint i) (field_elems fs) = None"
  using assms
proof (induction fs)
  case (Cons fv fs)
  obtain f v where "fv = (f, v)" by fastforce
  then show ?case
    using Cons to_elem_shape
    by (auto simp: find_child_def List.map_filter_simps mk_tag_def field_id_def
        split: option.splits if_splits)
qed (simp add: find_child_def)

lemma find_child_present:
  assumes "encodable_fields fs" "distinct (List.map_filter (\<lambda>x. field_id (fst x)) fs)"
    and "(f, v) \<in> set fs" "field_id f = Some i"
  shows "find_child (uint i) (field_elems fs) = (if omitted f v then None else Some (to_elem v (ctx_tag i)))"
  using assms
proof (induction fs)
  case (Cons gu fs)
  obtain g u where gu: "gu = (g, u)" by fastforce
  show ?case
  proof (cases "(f, v) = (g, u)")
    case True
    then have "i \<notin> set (List.map_filter (\<lambda>x. field_id (fst x)) fs)"
      using Cons.prems gu by (simp add: List.map_filter_simps)
    then show ?thesis
      using True Cons.prems gu find_child_absent [of fs i] to_elem_shape [of v]
      by (auto simp: find_child_def mk_tag_def field_id_def split: if_splits)
  next
    case False
    then have fv: "(f, v) \<in> set fs" using Cons.prems gu by auto
    then have "i \<in> set (List.map_filter (\<lambda>x. field_id (fst x)) fs)"
      using Cons.prems(4) by (force simp: List.map_filter_def)
    then have "field_id g \<noteq> Some i"
      using Cons.prems gu by (auto simp: List.map_filter_simps)
    then show ?thesis
      using Cons fv gu to_elem_shape [of u]
      by (auto simp: find_child_def List.map_filter_simps mk_tag_def field_id_def
          split: option.splits if_splits)
  qed
qed simp

lemma decode_slice_all:
  "(\<And>v. v \<in> set vs \<Longrightarrow> decode (to_elem v anon_tag) (zero_val t) = (v, None)) \<Longrightarrow>
   decode_slice t (map (\<lambda>v. to_elem v anon_tag) vs) acc = (acc @ vs, None)"
  by (induction vs arbitrary: acc) auto

lemma field_id_Atoi:
  assumes "field_id f = Some i"
  shows "hd (split_comma (sf_tlv f)) \<noteq> ''''" "hd (split_comma (sf_tlv f)) \<noteq> ''-1''"
    "Atoi (hd (split_comma (sf_tlv f))) = Some (uint i)"
  using assms by (auto simp: field_id_def Atoi_ParseUint8 ParseUint8_def split: if_splits)

definition zeroed :: "(sfield \<times> goval) list \<Rightarrow> (sfield \<times> goval) list" where
  "zeroed fs = map (\<lambda>x. (fst x, zero_val (type_of (snd x)))) fs"

lemma zeroed_simps [simp]:
  "zeroed [] = []" "zeroed ((f, v) # fs) = (f, zero_val (type_of v)) # zeroed fs"
  by (simp_all add: zeroed_def)

lemma zero_struct: "map (map_prod id zero_val \<circ> map_prod id type_of) fs = zeroed fs"
  by (auto simp: zeroed_def)

lemma decode_to_elem:
  "encodable v \<Longrightarrow> decode (to_elem v t) (zero_val (type_of v)) = (v, None)"
  "encodable_fields fs \<Longrightarrow>
     (\<And>f v i. (f, v) \<in> set fs \<Longrightarrow> field_id f = Some i \<Longrightarrow>
        find_child (uint i) subs = (if omitted f v then None else Some (to_elem v (ctx_tag i)))) \<Longrightarrow>
     decode_fields subs (zeroed fs) = (fs, None)"
proof (induction v and fs arbitrary: t and subs rule: encodable_encodable_fields.induct)
  case (2 s)
  then show ?case using string_type_small(1) [of TypeUTF8String s] by (simp add: decodeString_def)
next
  case (5 b)
  then show ?case using string_type_small(1) [of TypeByteString b] by (simp add: decodeBytes_def)
next
  case (6 ty vs)
  then have "decode_slice ty (map (\<lambda>v. to_elem v anon_tag) vs) [] = ([] @ vs, None)"
    by (intro decode_slice_all) (auto simp: list_all_iff)
  then show ?case by simp
next
  case (8 ty v)
  then show ?case using to_elem_shape [of v t] by simp
next
  case (10 fs)
  then have "decode_fields (field_elems fs) (zeroed fs) = (fs, None)"
    by (intro "10.IH" find_child_present) auto
  then show ?case by (simp add: zero_struct)
next
  case (14 f v fs)
  have rest: "decode_fields subs (zeroed fs) = (fs, None)"
    using "14.prems" by (intro "14.IH"(2)) auto
  show ?case
  proof (cases "field_id f")
    case None
    then have "sf_tlv f = []" "zero_val (type_of v) = v" using "14.prems" by (auto split: if_splits)
    then show ?thesis using rest by simp
  next
    case (Some i)
    then have tag: "sf_tlv f \<noteq> []" by (auto simp: field_id_def)
    note at = field_id_Atoi [OF Some]
    have child: "find_child (uint i) subs = (if omitted f v then None else Some (to_elem v (ctx_tag i)))"
      using "14.prems"(2) [of f v i] Some by simp
    show ?thesis
      using at child rest tag "14.prems"(1) "14.IH"(1) [OF tag, of "ctx_tag i"] empty_is_zero [of v]
      by (auto simp: Let_def omitted_def)
  qed
qed (auto simp: decodeBool_def decodeInt_def decodeUint_def)

section \<open>The round trip\<close>

lemma Marshal_encodable:
  assumes "encodable v"
  shows "\<exists>bs. tlv_Marshal v = Inr bs \<and> (\<forall>r. read_tree (bs @ r) = Inr (to_elem v anon_tag, r))"
proof -
  obtain bs where "encodeValue v anon_tag [] = ([] @ bs, None)" "\<forall>r. read_tree (bs @ r) = Inr (to_elem v anon_tag, r)"
    using encode_reads_as_tree(1) [OF assms anon_tag_fits] unfolding writes_element_def by blast
  then show ?thesis by (simp add: tlv_Marshal_def tlv_Encode_def)
qed

lemma Decode_encodable:
  "encodable v \<Longrightarrow> tlv_Decode (to_elem v t) (VPtr (type_of v) (Some (zero_val (type_of v))))
     = (VPtr (type_of v) (Some v), None)"
  by (simp add: tlv_Decode_def decode_to_elem(1))

lemmas marshal_simps = tlv_Marshal_def tlv_Encode_def StartContainer_def EndContainer_def
  writeControlByte_def writeTag_def mk_tag_def PutSignedInt_def PutUnsignedInt_def PutBoolean_def
  PutString_def PutBytes_def writeStringOrBytes_def signed_repr_def unsigned_repr_def length_repr_def
  ParseUint8_def tlv_omitempty_def Let_def

text \<open>The struct of the package's own tests.\<close>

definition test_field :: "string \<Rightarrow> string \<Rightarrow> sfield" where
  "test_field n t = \<lparr>sf_Name = n, sf_Exported = True, sf_tlv = t\<rparr>"

definition test_struct :: goval where
  "test_struct = VStruct
     [(test_field ''IntVal'' ''1'', VInt 64 42), (test_field ''UintVal'' ''2'', VUint 64 100),
      (test_field ''BoolVal'' ''3'', VBool True),
      (test_field ''StringVal'' ''4'', VString [0x74, 0x65, 0x73, 0x74])]"

text \<open>
  The decoder starts from zero values, so what is not transmitted comes back as the zero value of
  its type: an untagged field with a non-empty map or a non-zero float is lost and not encodable, one
  with a nil map or a zero is.
\<close>

lemma untransmitted_fields:
  "encodable (VStruct [(test_field ''M'' '''', VOpaque x)]) \<longleftrightarrow> x = ozero (okind_of x)"
  "\<not> encodable (VStruct [(test_field ''M'' '''', VOpaque (OMap (Some n)))])"
  "\<not> encodable (VStruct [(test_field ''M'' ''1,omitempty'', VOpaque (OFloat 64 0x8000000000000000))])"
  "encodable (VStruct [(test_field ''M'' '''', VOpaque (OMap None)), (test_field ''F'' '''', VOpaque (OFloat 64 0))])"
  by (auto simp: test_field_def field_id_def List.map_filter_simps)

text \<open>
  C2: every encodable Go value survives the trip: \<open>Marshal\<close> succeeds, reading its bytes
  (whatever follows them in the stream) yields one element and leaves the rest of the
  stream untouched, and decoding that element into a fresh value of the same type restores
  the value exactly and reports no error.
\<close>

theorem tlv_round_trip:
  assumes "encodable v"
  shows "\<exists>bs. tlv_Marshal v = Inr bs \<and>
    (\<forall>r. \<exists>e. read_tree (bs @ r) = Inr (e, r) \<and>
       tlv_Decode e (VPtr (type_of v) (Some (zero_val (type_of v)))) = (VPtr (type_of v) (Some v), None))"
  using Marshal_encodable [OF assms] Decode_encodable [OF assms] by blast

theorem tlv_round_trip_witness:
  "encodable test_struct \<and>
   tlv_Marshal test_struct = Inr [0x15, 0x20, 0x01, 0x2a, 0x24, 0x02, 0x64, 0x29, 0x03,
     0x2c, 0x04, 0x04, 0x74, 0x65, 0x73, 0x74, 0x18] \<and>
   (\<exists>bs. tlv_Marshal test_struct = Inr bs \<and> (\<forall>r. \<exists>e. read_tree (bs @ r) = Inr (e, r) \<and>
       tlv_Decode e (VPtr (type_of test_struct) (Some (zero_val (type_of test_struct))))
         = (VPtr (type_of test_struct) (Some test_struct), None)))"
proof -
  have e: "encodable test_struct"
    by (simp add: test_struct_def test_field_def OverflowInt_def OverflowUint_def field_id_def
        ParseUint8_def List.map_filter_simps)
  have m: "tlv_Marshal test_struct = Inr [0x15, 0x20, 0x01, 0x2a, 0x24, 0x02, 0x64, 0x29, 0x03,
     0x2c, 0x04, 0x04, 0x74, 0x65, 0x73, 0x74, 0x18]"
    by (simp add: test_struct_def test_field_def marshal_simps)
  show ?thesis using e m tlv_round_trip [OF e] by blast
qed

end
