(* ===== verification/Tlv_Properties.thy ===== *)
theory Tlv_Properties
  imports Tlv_Roundtrip
begin

text \<open>
  Further properties of the TLV package: the reader is a prefix parser, the decoder keeps
  every target well-typed, integers take the least width, the encoder only appends; and the
  four places where the writing and the reading side disagree, each with its exact conditions.
\<close>

section \<open>The reader as a prefix parser\<close>

lemma read_children_cuts:
  "read_children es r = Inr (es', r') \<Longrightarrow>
     \<exists>u. u \<noteq> [] \<and> r = u @ r' \<and> (\<forall>s. read_children es (u @ s) = Inr (es', s))"
proof (induction es r arbitrary: es' r' rule: read_children.induct)
  case (1 es r)
  from "1.prems" obtain e r1 where e: "ReadElement r = Inr (e, r1)"
    by (subst (asm) read_children.simps) (auto split: sum.splits)
  from ReadElement_cuts [OF e] obtain u where
    u: "u \<noteq> []" "r = u @ r1" "\<And>s. ReadElement (u @ s) = Inr (e, s)" by blast
  note step = read_children.simps [of es]
  show ?case
  proof (cases "el_Type e = TypeEndOfContainer")
    case True
    then have "es' = es \<and> r' = r1" using "1.prems" e by (simp add: step)
    then show ?thesis using True u by (intro exI [of _ u]) (simp add: step)
  next
    case ne: False
    show ?thesis
    proof (cases "is_container (el_Type e)")
      case True
      with "1.prems" e ne obtain sub r2 where sub: "read_children [] r1 = Inr (sub, r2)"
        and rest: "read_children (es @ [Element (el_Tag e) (el_Type e) (el_Value e) sub]) r2 = Inr (es', r')"
        by (subst (asm) step) (auto split: sum.splits)
      from "1.IH"(1) [OF e _ ne True sub] obtain v where
        v: "r1 = v @ r2" "\<And>s. read_children [] (v @ s) = Inr (sub, s)" by auto
      from "1.IH"(2) [OF e _ ne True sub _ rest] obtain v' where
        v': "r2 = v' @ r'"
        "\<And>s. read_children (es @ [Element (el_Tag e) (el_Type e) (el_Value e) sub]) (v' @ s) = Inr (es', s)"
        by auto
      show ?thesis using u v v' ne True
        by (intro exI [of _ "u @ v @ v'"]) (simp add: step)
    next
      case False
      with "1.prems" e ne have rest: "read_children (es @ [e]) r1 = Inr (es', r')"
        by (subst (asm) step) simp
      from "1.IH"(3) [OF e _ ne False rest] obtain v where
        v: "r1 = v @ r'" "\<And>s. read_children (es @ [e]) (v @ s) = Inr (es', s)" by auto
      show ?thesis using u v ne False
        by (intro exI [of _ "u @ v"]) (simp add: step)
    qed
  qed
qed

text \<open>
  C24: the reader cuts an element off the front of the stream. Whatever it returns, it
  consumed a non-empty prefix, left the rest untouched, and would have returned the same
  element whatever followed that prefix: nothing outside an element influences how it is read.
\<close>

theorem reader_cuts_a_prefix:
  assumes "read_tree r = Inr (e, r')"
  shows "\<exists>u. u \<noteq> [] \<and> r = u @ r' \<and> (\<forall>s. read_tree (u @ s) = Inr (e, s))"
proof -
  from assms obtain e0 r1 where e0: "ReadElement r = Inr (e0, r1)"
    by (auto simp: read_tree_def split: sum.splits)
  from ReadElement_cuts [OF e0] obtain u where
    u: "u \<noteq> []" "r = u @ r1" "\<And>s. ReadElement (u @ s) = Inr (e0, s)" by blast
  show ?thesis
  proof (cases "is_container (el_Type e0)")
    case True
    with assms e0 obtain cs where cs: "read_children [] r1 = Inr (cs, r')"
      and e: "e = Element (el_Tag e0) (el_Type e0) (el_Value e0) cs"
      by (auto simp: read_tree_def ReadContainerChildren_def split: sum.splits)
    from read_children_cuts [OF cs] obtain v where
      "r1 = v @ r'" "\<And>s. read_children [] (v @ s) = Inr (cs, s)" by blast
    then show ?thesis using u True e
      by (intro exI [of _ "u @ v"]) (simp add: read_tree_def ReadContainerChildren_def)
  next
    case False
    then show ?thesis using assms e0 u by (intro exI [of _ u]) (simp add: read_tree_def)
  qed
qed

lemma read_tree_example: "read_tree [0x15, 0x24, 0x01, 0x2a, 0x18, 0xFF]
    = Inr (Element anon_tag 0x15 [] [Element (ctx_tag 1) 0x04 [0x2a] []], [0xFF])"
  by (simp add: read_tree_def ReadContainerChildren_def read_children.simps ReadElement_def read_full_def
      ReadFull_def readTag_def readValue_def Let_def is_container_def)

theorem reader_cuts_a_prefix_witness:
  "\<exists>u. u \<noteq> [] \<and> [0x15, 0x24, 0x01, 0x2a, 0x18, 0xFF] = u @ [0xFF :: byte]
     \<and> (\<forall>s. read_tree (u @ s) = Inr (Element anon_tag 0x15 [] [Element (ctx_tag 1) 0x04 [0x2a] []], s))"
  by (rule reader_cuts_a_prefix [OF read_tree_example])

section \<open>The decoder keeps its target well-typed\<close>

text \<open>Every nested value has the type its holder declares, and every integer fits its width.\<close>

fun well_typed :: "goval \<Rightarrow> bool" where
  "well_typed (VInt n x) = (\<not> OverflowInt n x)"
| "well_typed (VUint n x) = (\<not> OverflowUint n x)"
| "well_typed (VSlice t vs) = list_all (\<lambda>v. type_of v = t \<and> well_typed v) vs"
| "well_typed (VPtr t (Some v)) = (type_of v = t \<and> well_typed v)"
| "well_typed (VIface (Some v)) = well_typed v"
| "well_typed (VStruct fs) = list_all (\<lambda>fv. well_typed (snd fv)) fs"
| "well_typed _ = True"

lemma well_typed_zero_val [simp]: "well_typed (zero_val t)"
proof (induction t)
  case (TStruct fs)
  then have "\<And>f t. (f, t) \<in> set fs \<Longrightarrow> well_typed (zero_val t)" by fastforce
  then show ?case by (auto simp: list_all_iff)
qed (simp_all add: OverflowInt_def OverflowUint_def)

lemma decode_scalars_well_typed:
  "well_typed (VInt n x) \<Longrightarrow> type_of (fst (decodeInt e n x)) = TInt n \<and> well_typed (fst (decodeInt e n x))"
  "well_typed (VUint n x) \<Longrightarrow> type_of (fst (decodeUint e n x)) = TUint n \<and> well_typed (fst (decodeUint e n x))"
  "type_of (fst (decodeBool e b)) = TBool \<and> well_typed (fst (decodeBool e b))"
  "type_of (fst (decodeString e s)) = TString \<and> well_typed (fst (decodeString e s))"
  "type_of (fst (decodeBytes e s)) = TBytes \<and> well_typed (fst (decodeBytes e s))"
  by (auto simp: decodeInt_def decodeUint_def decodeBool_def decodeString_def decodeBytes_def split: sum.splits)

lemma decode_well_typed:
  "well_typed v \<Longrightarrow> type_of (fst (decode e v)) = type_of v \<and> well_typed (fst (decode e v))"
  "list_all (\<lambda>v. type_of v = t \<and> well_typed v) vs \<Longrightarrow>
     list_all (\<lambda>v. type_of v = t \<and> well_typed v) (fst (decode_slice t cs vs))"
  "list_all (\<lambda>fv. well_typed (snd fv)) fs \<Longrightarrow>
     map (map_prod id type_of) (fst (decode_fields subs fs)) = map (map_prod id type_of) fs
     \<and> list_all (\<lambda>fv. well_typed (snd fv)) (fst (decode_fields subs fs))"
proof (induction e v and t cs vs and subs fs rule: decode_decode_slice_decode_fields.induct)
  case (2 tlv t p)
  then show ?case by (cases p) (auto simp: split_beta)
next
  case (8 tlv t vs)
  then show ?case by (auto simp: split_beta)
next
  case (9 tlv fs)
  then show ?case by (auto simp: split_beta id_def)
next
  case (14 subs f v fs)
  let ?t = "hd (split_comma (sf_tlv f))"
  have v: "well_typed v" "list_all (\<lambda>fv. well_typed (snd fv)) fs" using "14.prems" by auto
  show ?case
  proof (cases "?t = '''' \<or> ?t = ''-1'' \<or> \<not> sf_Exported f")
    case True
    then show ?thesis using "14.IH"(1) [OF refl True v(2)] v by (auto simp: Let_def split_beta)
  next
    case skip: False
    show ?thesis
    proof (cases "\<exists>tagID item. Atoi ?t = Some tagID \<and> find_child tagID subs = Some item")
      case True
      then obtain tagID item where i: "Atoi ?t = Some tagID" "find_child tagID subs = Some item" by blast
      obtain v' err where d: "decode item v = (v', err)" by force
      then have v': "type_of v' = type_of v" "well_typed v'"
        using "14.IH"(3) [OF refl skip i v(1)] by auto
      show ?thesis using skip i d v v' "14.IH"(4) [OF refl skip i d [symmetric] _ v(2)]
        by (cases err) (auto simp: Let_def split_beta)
    next
      case False
      then show ?thesis using skip v "14.IH"(2) [OF refl skip _ _ v(2)]
        by (auto simp: Let_def split_beta split: option.splits)
    qed
  qed
qed (auto simp: decode_scalars_well_typed Let_def split: option.splits prod.splits simp del: well_typed.simps(1,2))

text \<open>
  C23: decoding is type-safe on every input. Whatever element arrives, and whether or not
  decoding fails, the target keeps its type, every value stored below it has the type its
  slice, pointer or struct declares, and no integer exceeds the width of its field: a value
  that does not fit is refused instead of truncated.
\<close>

theorem decode_preserves_types:
  assumes "well_typed out"
  shows "type_of (fst (tlv_Decode e out)) = type_of out \<and> well_typed (fst (tlv_Decode e out))"
  using assms decode_well_typed(1)
  by (cases out rule: well_typed.cases) (auto simp: tlv_Decode_def split_beta)

theorem decode_preserves_types_witness:
  "tlv_Decode (Element anon_tag 0x05 [0x2c, 0x01] []) (VPtr (TUint 8) (Some (VUint 8 7)))
      = (VPtr (TUint 8) (Some (VUint 8 7)), Some UnsignedOverflow)
   \<and> type_of (fst (tlv_Decode (Element anon_tag 0x05 [0x2c, 0x01] []) (VPtr (TUint 8) (Some (VUint 8 7)))))
      = type_of (VPtr (TUint 8) (Some (VUint 8 7)))
   \<and> well_typed (fst (tlv_Decode (Element anon_tag 0x05 [0x2c, 0x01] []) (VPtr (TUint 8) (Some (VUint 8 7)))))"
proof -
  have w: "well_typed (VPtr (TUint 8) (Some (VUint 8 7)))" by (simp add: OverflowUint_def)
  have "tlv_Decode (Element anon_tag 0x05 [0x2c, 0x01] []) (VPtr (TUint 8) (Some (VUint 8 7)))
      = (VPtr (TUint 8) (Some (VUint 8 7)), Some UnsignedOverflow)"
    by (simp add: tlv_Decode_def decodeUint_def parseUnsignedInt_def OverflowUint_def wire_simps)
  with decode_preserves_types [OF w] show ?thesis by blast
qed

section \<open>Integers\<close>

lemma unsigned_minimal_width:
  assumes "tag_fits t"
  shows "\<exists>bs ty val. PutUnsignedInt t v w = (w @ bs, None)
    \<and> (\<forall>r. ReadElement (bs @ r) = Inr (Element t ty val [], r))
    \<and> parseUnsignedInt val = Inr v
    \<and> length val = (if unat v < 2 ^ 8 then 1 else if unat v < 2 ^ 16 then 2 else if unat v < 2 ^ 32 then 4 else 8)"
proof -
  have "length (snd (unsigned_repr v)) =
      (if unat v < 2 ^ 8 then 1 else if unat v < 2 ^ 16 then 2 else if unat v < 2 ^ 32 then 4 else 8)"
    by (simp add: unsigned_repr_def)
  then show ?thesis
    using Put_fits(1) [OF assms, of v w] ReadElement_unsigned [OF assms, of v]
    by (intro exI [of _ "head_bytes t (fst (unsigned_repr v)) @ snd (unsigned_repr v)"]
        exI [of _ "fst (unsigned_repr v)"] exI [of _ "snd (unsigned_repr v)"]) simp
qed

lemma signed_minimal_width:
  assumes "tag_fits t"
  shows "\<exists>bs ty val. PutSignedInt t v w = (w @ bs, None)
    \<and> (\<forall>r. ReadElement (bs @ r) = Inr (Element t ty val [], r))
    \<and> parseSignedInt val = Inr v
    \<and> length val = (if \<not> OverflowInt 8 v then 1 else if \<not> OverflowInt 16 v then 2
        else if \<not> OverflowInt 32 v then 4 else 8)"
proof -
  have "length (snd (signed_repr v)) =
      (if \<not> OverflowInt 8 v then 1 else if \<not> OverflowInt 16 v then 2 else if \<not> OverflowInt 32 v then 4 else 8)"
    by (auto simp: signed_repr_def OverflowInt_def)
  then show ?thesis
    using Put_fits(2) [OF assms, of v w] ReadElement_signed [OF assms, of v]
    by (intro exI [of _ "head_bytes t (fst (signed_repr v)) @ snd (signed_repr v)"]
        exI [of _ "fst (signed_repr v)"] exI [of _ "snd (signed_repr v)"]) simp
qed

text \<open>
  C29: integers are written in the least of the widths 1, 2, 4 and 8 that holds them, under
  any tag of a class the reader understands, and read back as the same number; for signed
  integers the width is the least that holds the value in two's complement.
\<close>

theorem integers_minimal_width:
  assumes "tag_fits t"
  shows "(\<exists>bs ty val. PutUnsignedInt t v w = (w @ bs, None)
      \<and> (\<forall>r. ReadElement (bs @ r) = Inr (Element t ty val [], r))
      \<and> parseUnsignedInt val = Inr v
      \<and> length val = (if unat v < 2 ^ 8 then 1 else if unat v < 2 ^ 16 then 2 else if unat v < 2 ^ 32 then 4 else 8))
    \<and> (\<exists>bs ty val. PutSignedInt t i w = (w @ bs, None)
      \<and> (\<forall>r. ReadElement (bs @ r) = Inr (Element t ty val [], r))
      \<and> parseSignedInt val = Inr i
      \<and> length val = (if \<not> OverflowInt 8 i then 1 else if \<not> OverflowInt 16 i then 2
          else if \<not> OverflowInt 32 i then 4 else 8))"
  by (rule conjI [OF unsigned_minimal_width [OF assms] signed_minimal_width [OF assms]])

theorem integers_minimal_width_witness:
  "(\<exists>bs ty val. PutUnsignedInt (ctx_tag 3) 300 [] = ([] @ bs, None)
      \<and> (\<forall>r. ReadElement (bs @ r) = Inr (Element (ctx_tag 3) ty val [], r))
      \<and> parseUnsignedInt val = Inr 300
      \<and> length val = (if unat (300 :: u64) < 2 ^ 8 then 1 else if unat (300 :: u64) < 2 ^ 16 then 2
          else if unat (300 :: u64) < 2 ^ 32 then 4 else 8))
    \<and> (\<exists>bs ty val. PutSignedInt (ctx_tag 3) (- 129) [] = ([] @ bs, None)
      \<and> (\<forall>r. ReadElement (bs @ r) = Inr (Element (ctx_tag 3) ty val [], r))
      \<and> parseSignedInt val = Inr (- 129)
      \<and> length val = (if \<not> OverflowInt 8 (- 129) then 1 else if \<not> OverflowInt 16 (- 129) then 2
          else if \<not> OverflowInt 32 (- 129) then 4 else 8))"
  by (rule integers_minimal_width) (simp add: tag_fits_def mk_tag_def)

section \<open>The encoder only appends\<close>

text \<open>Writing to \<open>w\<close> is appending to \<open>w\<close> what would be written to an empty buffer.\<close>

definition app_at :: "(bytes \<Rightarrow> wresult) \<Rightarrow> bytes \<Rightarrow> bool" where
  "app_at f w \<longleftrightarrow> f w = (w @ fst (f []), snd (f []))"

lemma app_at_then:
  assumes "app_at f w" "\<And>x. app_at g x"
  shows "app_at (\<lambda>w. w_then (f w) g) w"
proof (cases "f []")
  case (Pair b e)
  then have "f w = (w @ b, e)" using assms(1) by (simp add: app_at_def)
  then show ?thesis using Pair assms(2) [of b] assms(2) [of "w @ b"]
    by (cases e) (simp_all add: app_at_def)
qed

lemma app_at_cong: "(\<And>w. f w = g w) \<Longrightarrow> app_at g w \<Longrightarrow> app_at f w"
  by (simp add: app_at_def)

lemma app_at_basic [intro!]:
  "app_at (\<lambda>w. (w, e)) w" "app_at (w_write b) w" "app_at (writeControlByte c t) w" "app_at (writeTag tag) w"
  by (simp_all add: app_at_def writeControlByte_def writeTag_def Let_def)

lemma app_at_string: "app_at (writeStringOrBytes t k s) w"
  by (cases "length_repr (length s)")
    (auto simp: writeStringOrBytes_def [abs_def] split_beta Let_def intro!: app_at_then)

lemma app_at_Put [intro!]:
  "app_at (PutSignedInt t v) w" "app_at (PutUnsignedInt t v) w" "app_at (PutBoolean t b) w"
  "app_at (PutString t s) w" "app_at (PutBytes t s) w" "app_at (StartContainer t c) w" "app_at EndContainer w"
  unfolding PutSignedInt_def [abs_def] PutUnsignedInt_def [abs_def] PutBoolean_def [abs_def] PutString_def [abs_def]
    PutBytes_def [abs_def] StartContainer_def [abs_def] EndContainer_def [abs_def] Let_def split_beta
  by (auto intro!: app_at_then app_at_string)

lemma encode_appends:
  "app_at (encodeValue v t) w" "app_at (encode_elems vs) w" "app_at (encode_fields fs) w"
proof (induction v t w and vs w and fs w rule: encodeValue_encode_elems_encode_fields.induct)
  case (17 f v fs w)
  show ?case
  proof (rule app_at_cong [OF encode_fields.simps(2)])
    show "app_at (\<lambda>w. let tlvTag = sf_tlv f in
        if tlvTag = '''' \<or> tlvTag = ''-'' then encode_fields fs w
        else let tagIDStr = hd (split_comma tlvTag) in
          if tlv_omitempty tlvTag \<and> isEmptyValue v then encode_fields fs w
          else case ParseUint8 tagIDStr of None \<Rightarrow> (w, Some (InvalidTagID (sf_Name f) tagIDStr))
            | Some tagID \<Rightarrow> w_then (encodeValue v (ctx_tag tagID) w) (\<lambda>w. encode_fields fs w)) w"
      using 17
      by (cases "sf_tlv f = '''' \<or> sf_tlv f = ''-''"; cases "tlv_omitempty (sf_tlv f)"; cases "isEmptyValue v";
          cases "ParseUint8 (hd (split_comma (sf_tlv f)))")
        (simp_all add: Let_def app_at_basic(1) app_at_then)
  qed
qed (rule app_at_cong, (rule encodeValue.simps encode_elems.simps encode_fields.simps), auto intro!: app_at_then)+

lemma Encode_appends: "tlv_Encode v w = (case tlv_Encode v [] of (bs, err) \<Rightarrow> (w @ bs, err))"
  using encode_appends(1) [of v anon_tag w] by (simp add: app_at_def tlv_Encode_def split_beta)

section \<open>Where the encoder and the decoder disagree\<close>

lemma Uint32_halves: "Uint32 (PutUint16 a @ PutUint16 b @ r) = ucast a OR push_bit 16 (ucast b)"
proof (rule bit_eqI)
  fix n
  assume "possible_bit TYPE(u32) n"
  then have "n < 32" by simp
  then consider "n < 8" | k where "n = 8 + k" "k < 8" | k where "n = 16 + k" "k < 8" | k where "n = 24 + k" "k < 8"
    using le_Suc_ex [of 8 n] le_Suc_ex [of 16 n] le_Suc_ex [of 24 n]
    by (cases "n < 8"; cases "n < 16"; cases "n < 24") auto
  then show "bit (Uint32 (PutUint16 a @ PutUint16 b @ r)) n = bit (ucast a OR push_bit 16 (ucast b) :: u32) n"
    by cases (auto simp: wire_simps bit_simps dest: bit_imp_le_length)
qed

lemma swapped_halves:
  fixes p :: u32
  shows "ucast (ucast (drop_bit 16 p) :: u16) OR push_bit 16 (ucast (ucast (p AND 0xFFFF) :: u16)) = push_bit 16 p OR drop_bit 16 p"
    (is "?l = ?r")
proof (rule bit_eqI)
  fix n
  assume "possible_bit TYPE(u32) n"
  have m: "(0xFFFF :: u32) = mask 16" by (simp add: mask_eq_exp_minus_1)
  show "bit ?l n = bit ?r n"
    unfolding m by (auto simp: bit_simps dest: bit_imp_le_length)
qed

lemma swap_fixed_iff:
  fixes p :: u32
  shows "push_bit 16 p OR drop_bit 16 p = p \<longleftrightarrow> drop_bit 16 p = p AND 0xFFFF" (is "?s = p \<longleftrightarrow> ?h = ?l")
proof -
  have m: "(0xFFFF :: u32) = mask 16" by (simp add: mask_eq_exp_minus_1)
  have top: "\<not> bit p n" if "32 \<le> n" for n using that bit_imp_le_length [of p n] by auto
  have s: "bit ?s n = bit p (n + 16)" "bit ?s (n + 16) = bit p n" if "n < 16" for n
    using that top [of "n + 16 + 16"] by (auto simp: bit_simps add.commute)
  have h: "bit ?h n = bit p (n + 16)" "bit ?l n = (n < 16 \<and> bit p n)" for n
    unfolding m by (auto simp: bit_simps add.commute)
  have "?s = p \<longleftrightarrow> (\<forall>n < 16. bit p (n + 16) = bit p n)"
  proof (intro iffI)
    assume eq: "\<forall>n < 16. bit p (n + 16) = bit p n"
    have "bit ?s n = bit p n" if "n < 32" for n
      using that eq s(1) [of n] s(2) [of "n - 16"] by (cases "n < 16") (auto dest: spec [where x = "n - 16"])
    then show "?s = p" by (intro bit_eqI) simp
  next
    assume "?s = p"
    then show "\<forall>n < 16. bit p (n + 16) = bit p n" using s(1) by simp
  qed
  also have "\<dots> \<longleftrightarrow> ?h = ?l"
  proof -
    have "(bit p (n + 16) = (n < 16 \<and> bit p n)) \<longleftrightarrow> (n < 16 \<longrightarrow> bit p (n + 16) = bit p n)" for n
      using top [of "n + 16"] by (cases "n < 16") (auto simp: not_less)
    then show ?thesis unfolding bit_eq_iff h by auto
  qed
  finally show ?thesis .
qed

lemma full_tag_split:
  "take 4 (PutUint16 a @ PutUint16 b @ c) = PutUint16 a @ PutUint16 b @ []" "drop 4 (PutUint16 a @ PutUint16 b @ c) = c"
  by simp_all

lemma readTag_full8:
  "readTag TagControlFullyQualified8 (tag_bytes (mk_tag TagControlFullyQualified8 i p) @ r)
     = Inr (mk_tag TagControlFullyQualified8 (ucast (ucast i :: u32)) (push_bit 16 p OR drop_bit 16 p), r)"
proof -
  have "read_full 8 (PutUint16 a @ PutUint16 b @ PutUint32 c @ r) = Inr (PutUint16 a @ PutUint16 b @ PutUint32 c, r)" for a b c
    using read_full_append [of "PutUint16 a @ PutUint16 b @ PutUint32 c" 8 r] by simp
  then show ?thesis
    using swapped_halves Uint32_halves [where r = "[]"] by (simp add: readTag_def tag_bytes_def writeTag_def mk_tag_def full_tag_split)
qed

lemma readTag_full6:
  "readTag TagControlFullyQualified6 (tag_bytes (mk_tag TagControlFullyQualified6 i p) @ r)
     = (if length r < 2 then Inl (IO ErrUnexpectedEOF)
        else Inr (mk_tag TagControlFullyQualified6 (ucast (Uint32 (PutUint16 (ucast i) @ take 2 r))) (push_bit 16 p OR drop_bit 16 p), drop 2 r))"
proof (cases "length r < 2")
  case True
  then show ?thesis
    by (simp add: readTag_def tag_bytes_def writeTag_def mk_tag_def read_full_def ReadFull_def) (simp add: wire_simps)
next
  case False
  then have "read_full 8 (PutUint16 a @ PutUint16 b @ PutUint16 c @ r) = Inr (PutUint16 a @ PutUint16 b @ PutUint16 c @ take 2 r, drop 2 r)" for a b c
    using read_full_append [of "PutUint16 a @ PutUint16 b @ PutUint16 c @ take 2 r" 8 "drop 2 r"] by simp
  then show ?thesis
    using False swapped_halves Uint32_halves [where r = "[]"]
    by (simp add: readTag_def tag_bytes_def writeTag_def mk_tag_def full_tag_split)
qed

text \<open>
  C31: how fully qualified tags are read. The writer lays a six byte tag out as vendor, profile
  and tag number of two bytes each, but the reader asks for eight bytes: with fewer than two
  bytes behind the tag it reports an unexpected end of file, and otherwise it takes the first two of
  them for the upper half of the tag number, so it never stops where the tag ends. The eight byte form
  stops at the right place, but the reader takes the first four bytes as one little-endian number and
  gets the two halves of the profile swapped: such a tag is read as it was written exactly when the
  halves are equal and the tag number fits 32 bits.
\<close>

theorem fully_qualified_tag_layouts_differ:
  "readTag TagControlFullyQualified6 (tag_bytes (mk_tag TagControlFullyQualified6 i p) @ r)
     = (if length r < 2 then Inl (IO ErrUnexpectedEOF)
        else Inr (mk_tag TagControlFullyQualified6 (ucast (Uint32 (PutUint16 (ucast i) @ take 2 r))) (push_bit 16 p OR drop_bit 16 p), drop 2 r))
   \<and> (\<nexists>t. readTag TagControlFullyQualified6 (tag_bytes (mk_tag TagControlFullyQualified6 i p) @ r) = Inr (t, r))
   \<and> readTag TagControlFullyQualified8 (tag_bytes (mk_tag TagControlFullyQualified8 i p) @ r)
      = Inr (mk_tag TagControlFullyQualified8 (ucast (ucast i :: u32)) (push_bit 16 p OR drop_bit 16 p), r)
   \<and> (readTag TagControlFullyQualified8 (tag_bytes (mk_tag TagControlFullyQualified8 i p) @ r) = Inr (mk_tag TagControlFullyQualified8 i p, r)
      \<longleftrightarrow> drop_bit 16 p = p AND 0xFFFF \<and> unat i < 2 ^ 32)"
proof (intro conjI)
  have "drop 2 r \<noteq> r" if "\<not> length r < 2"
  proof
    assume "drop 2 r = r"
    then have "length r - 2 = length r" by (metis length_drop)
    then show False using that by simp
  qed
  then show "\<nexists>t. readTag TagControlFullyQualified6 (tag_bytes (mk_tag TagControlFullyQualified6 i p) @ r) = Inr (t, r)"
    unfolding readTag_full6 by auto
  have "ucast (ucast i :: u32) = i \<longleftrightarrow> unat i < 2 ^ 32"
    by (simp add: word_unat_eq_iff unsigned_ucast_eq unsigned_take_bit_eq take_bit_nat_eq_self_iff)
  then show "readTag TagControlFullyQualified8 (tag_bytes (mk_tag TagControlFullyQualified8 i p) @ r) = Inr (mk_tag TagControlFullyQualified8 i p, r)
      \<longleftrightarrow> drop_bit 16 p = p AND 0xFFFF \<and> unat i < 2 ^ 32"
    unfolding readTag_full8 swap_fixed_iff [symmetric] by (auto simp: mk_tag_def)
qed (rule readTag_full6 readTag_full8)+

lemma encode_fields_append: "encode_fields (fs @ gs) w = w_then (encode_fields fs w) (encode_fields gs)"
proof (induction fs arbitrary: w)
  case (Cons x fs)
  obtain f v where x: "x = (f, v)" by fastforce
  have assoc: "w_then (w_then q h) k = w_then q (\<lambda>w. w_then (h w) k)" for q h k
    by (cases q; cases "snd q") auto
  have IH: "encode_fields (fs @ gs) = (\<lambda>w. w_then (encode_fields fs w) (encode_fields gs))" using Cons by (intro ext)
  show ?case by (auto simp: x IH Let_def assoc split: option.splits)
qed simp

lemma decode_fields_append:
  "decode_fields subs (fs @ gs) = (case decode_fields subs fs of
     (fs', Some er) \<Rightarrow> (fs' @ gs, Some er)
   | (fs', None) \<Rightarrow> (case decode_fields subs gs of (gs', er) \<Rightarrow> (fs' @ gs', er)))"
proof (induction fs)
  case (Cons x fs)
  obtain f v where x: "x = (f, v)" by fastforce
  show ?case using Cons unfolding x by (auto simp: Let_def split: option.split prod.split)
qed (simp split: prod.split)

lemma unfinished_null:
  "read_children es (0x34 # 0x18 # r) = read_children (es @ [Element (ctx_tag 0x18) TypeNull [] []]) r"
  by (subst read_children.simps)
    (simp add: ReadElement_def readTag_def readValue_def Let_def is_container_def)

lemma read_children_eof: "read_children es [] = Inl (IO EOF)"
  by (subst read_children.simps) (simp add: ReadElement_def read_full_def ReadFull_def)

text \<open>
  C32: a nil pointer as the last field of a struct, under a tag number without \<^verbatim>\<open>omitempty\<close>,
  makes the message unreadable. Whatever encodable fields come before it, the struct is marshalled
  without an error, but the encoder writes the control byte of a null element with a context tag and
  not the tag number. The reader takes the end-of-container byte for the number and goes on reading
  children from whatever follows the message; when nothing follows, it fails with the end of the
  stream.
\<close>

theorem nil_pointer_in_last_field_is_unreadable:
  assumes "encodable_fields fs" "field_id f = Some i" "\<not> tlv_omitempty (sf_tlv f)"
  shows "\<exists>bs. tlv_Marshal (VStruct (fs @ [(f, VPtr t None)])) = Inr bs
    \<and> (\<forall>r. read_tree (bs @ r) = (case read_children (field_elems fs @ [Element (ctx_tag 0x18) TypeNull [] []]) r of
          Inl er \<Rightarrow> Inl er | Inr (children, r') \<Rightarrow> Inr (Element anon_tag TypeStructure [] children, r')))
    \<and> read_tree bs = Inl (IO EOF)"
proof -
  obtain bs where bs: "encode_fields fs [0x15] = ([0x15] @ bs, None)"
    "\<And>es r. read_children es (bs @ r) = read_children (es @ field_elems fs) r"
    using encode_reads_as_tree(2) [OF assms(1)] unfolding writes_children_def by blast
  have f: "sf_tlv f \<noteq> ''''" "sf_tlv f \<noteq> ''-''" "ParseUint8 (hd (split_comma (sf_tlv f))) = Some i"
    using assms(2) by (auto simp: field_id_def ParseUint8_dash split: if_splits)
  have m: "tlv_Marshal (VStruct (fs @ [(f, VPtr t None)])) = Inr (0x15 # bs @ [0x34, 0x18])"
    using bs(1) f assms(3)
    by (simp add: tlv_Marshal_def tlv_Encode_def StartContainer_def writeControlByte_def writeTag_def mk_tag_def
        encode_fields_append EndContainer_def Let_def)
  have r: "read_tree ((0x15 # bs @ [0x34, 0x18]) @ r) = (case read_children (field_elems fs @ [Element (ctx_tag 0x18) TypeNull [] []]) r of
          Inl er \<Rightarrow> Inl er | Inr (children, r') \<Rightarrow> Inr (Element anon_tag TypeStructure [] children, r'))" for r
    using bs(2) [of "[]" "0x34 # 0x18 # r"]
    by (simp add: read_tree_def ReadElement_def readTag_def readValue_def Let_def is_container_def ReadContainerChildren_def unfinished_null
        split: sum.split)
  show ?thesis using m r r [of "[]"] by (auto simp: read_children_eof)
qed

theorem nil_pointer_in_last_field_is_unreadable_witness:
  "\<exists>bs. tlv_Marshal (VStruct ([(test_field ''B'' ''1'', VBool True)] @ [(test_field ''P'' ''2'', VPtr TBool None)])) = Inr bs
    \<and> (\<forall>r. read_tree (bs @ r) = (case read_children (field_elems [(test_field ''B'' ''1'', VBool True)] @ [Element (ctx_tag 0x18) TypeNull [] []]) r of
          Inl er \<Rightarrow> Inl er | Inr (children, r') \<Rightarrow> Inr (Element anon_tag TypeStructure [] children, r')))
    \<and> read_tree bs = Inl (IO EOF)"
  by (rule nil_pointer_in_last_field_is_unreadable [where i = 2])
    (simp_all add: test_field_def field_id_def ParseUint8_def tlv_omitempty_def)

text \<open>
  C33: a field marked with the tag \<^verbatim>\<open>tlv:"-"\<close> is skipped by the encoder, wherever it stands
  in the struct, but the decoder tests for \<^verbatim>\<open>"-1"\<close>. When the field is exported, a structure
  never decodes into that struct: the fields before it are filled, and unless one of them already
  failed, the decoder reports the tag \<^verbatim>\<open>"-"\<close> as invalid and leaves the fields after it alone. When
  the field is not exported, the decoder skips it as well.
\<close>

theorem exported_dash_field_blocks_decoding:
  assumes "sf_tlv f = ''-''" "el_Type e = TypeStructure"
    and "decode_fields (el_SubElements e) before = (before', er)" "decode_fields (el_SubElements e) after = (after', er')"
  shows "tlv_Encode (VStruct (before @ (f, v) # after)) w = tlv_Encode (VStruct (before @ after)) w
    \<and> tlv_Decode e (VPtr t (Some (VStruct (before @ (f, v) # after)))) =
       (case er of Some x \<Rightarrow> (VPtr t (Some (VStruct (before' @ (f, v) # after))), Some x)
        | None \<Rightarrow> if sf_Exported f then (VPtr t (Some (VStruct (before' @ (f, v) # after))), Some (InvalidTlvTag ''-''))
                  else (VPtr t (Some (VStruct (before' @ (f, v) # after'))), er'))"
proof -
  have enc: "encode_fields ((f, v) # after) = encode_fields after" using assms(1) by (intro ext) simp
  have "encode_fields (before @ (f, v) # after) = encode_fields (before @ after)"
    unfolding fun_eq_iff encode_fields_append enc by simp
  then have "tlv_Encode (VStruct (before @ (f, v) # after)) w = tlv_Encode (VStruct (before @ after)) w" by (simp add: tlv_Encode_def)
  moreover have "Atoi ''-'' = None" "hd (split_comma (sf_tlv f)) = ''-''" using assms(1) by (simp_all add: Atoi_def)
  ultimately show ?thesis
    using assms(2-4) by (simp add: tlv_Decode_def decode_fields_append Let_def split: option.split)
qed

theorem exported_dash_field_blocks_decoding_witness:
  "tlv_Encode (VStruct ([(test_field ''B'' ''1'', VBool False)] @ (test_field ''Skip'' ''-'', VBool True) # [])) []
      = tlv_Encode (VStruct ([(test_field ''B'' ''1'', VBool False)] @ [])) []
    \<and> tlv_Decode (Element anon_tag TypeStructure [] [Element (ctx_tag 1) 0x09 [1] []])
        (VPtr TBool (Some (VStruct ([(test_field ''B'' ''1'', VBool False)] @ (test_field ''Skip'' ''-'', VBool True) # []))))
       = (VPtr TBool (Some (VStruct ([(test_field ''B'' ''1'', VBool True)] @ (test_field ''Skip'' ''-'', VBool True) # []))),
          Some (InvalidTlvTag ''-''))"
proof -
  let ?b = "[(test_field ''B'' ''1'', VBool False)]" and ?b' = "[(test_field ''B'' ''1'', VBool True)]"
  let ?e = "Element anon_tag TypeStructure [] [Element (ctx_tag 1) 0x09 [1] []]"
  have d: "decode_fields (el_SubElements ?e) ?b = (?b', None)"
    by (simp add: test_field_def Atoi_def find_child_def mk_tag_def decodeBool_def)
  show ?thesis
    using exported_dash_field_blocks_decoding [where f = "test_field ''Skip'' ''-''" and v = "VBool True" and t = TBool and w = "[]", OF _ _ d decode_fields.simps(1)]
    by (simp add: test_field_def)
qed

text \<open>
  C34: the length limits of strings and byte strings. Below \<open>2 ^ 31\<close> bytes a string is written
  and read back. From \<open>2 ^ 31\<close> to \<open>2 ^ 32 - 1\<close> bytes it is written without an error, but the reader
  refuses what was written as too long. From \<open>2 ^ 32\<close> bytes on the writer refuses it and writes
  nothing.
\<close>

theorem string_length_limits:
  assumes "tag_fits t" "base = TypeUTF8String \<or> base = TypeByteString"
  shows "if length s < 2 ^ 31 then
           \<exists>bs. writeStringOrBytes t base s w = (w @ bs, None) \<and> (\<forall>r. ReadElement (bs @ r) = Inr (Element t (string_type base s) s [], r))
         else if length s < 2 ^ 32 then
           \<exists>bs. writeStringOrBytes t base s w = (w @ bs, None) \<and> (\<forall>r. ReadElement (bs @ r) = Inl (ReadValueFailed StringTooLong))
         else writeStringOrBytes t base s w = (w, Some LengthExceedsMaxUint32)"
proof -
  consider "length s < 2 ^ 31" | "2 ^ 31 \<le> length s" "length s < 2 ^ 32" | "2 ^ 32 \<le> length s" by linarith
  then show ?thesis
  proof cases
    case 1
    obtain k lb where l: "length_repr (length s) = Some (k, lb)" using length_repr_Some [OF 1] by blast
    then have "string_type base s = base OR k" by (simp add: string_type_def)
    then show ?thesis using 1 writeStringOrBytes_fits [OF assms(1) l] ReadElement_string [OF assms(1) l 1 assms(2)] by simp
  next
    case 2
    have l: "length_repr (length s) = Some (2, PutUint32 (of_nat (length s)))"
      using 2 by (simp add: length_repr_def)
    have n: "(ucast (of_nat (length s) :: u32) :: u64) = of_nat (length s)"
      using 2(2) by (simp add: word_unat_eq_iff unsigned_ucast_eq unsigned_take_bit_eq unat_of_nat take_bit_nat_eq_self)
    have "MaxInt32 < (of_nat (length s) :: u64)"
      using 2 by (simp add: MaxInt32_def word_less_nat_alt unat_of_nat take_bit_nat_eq_self)
    then have "readValue (base OR 2) (PutUint32 (of_nat (length s)) @ s @ r) = Inl StringTooLong" for r
      using n assms(2) by (auto simp: readValue_def readStringOrBytes_def)
    moreover have "unat (base OR 2) < 32" "base OR 2 \<noteq> TypeEndOfContainer" using assms(2) by auto
    ultimately have "ReadElement ((head_bytes t (base OR 2) @ PutUint32 (of_nat (length s)) @ s) @ r) = Inl (ReadValueFailed StringTooLong)" for r
      using control_byte_split [OF assms(1), of "base OR 2"]
      by (simp add: ReadElement_def head_bytes_def readTag_writeTag [OF assms(1)])
    then show ?thesis using 2 writeStringOrBytes_fits [OF assms(1) l, of base w] by auto
  next
    case 3
    then show ?thesis by (simp add: writeStringOrBytes_def length_repr_def)
  qed
qed

theorem string_length_limits_witness:
  "\<exists>bs. writeStringOrBytes anon_tag TypeUTF8String (replicate (2 ^ 31) 0) [] = ([] @ bs, None)
     \<and> (\<forall>r. ReadElement (bs @ r) = Inl (ReadValueFailed StringTooLong))"
  using string_length_limits [of anon_tag TypeUTF8String "replicate (2 ^ 31) 0" "[]", OF anon_tag_fits] by simp

end
