(* ===== verification/Tlv_Cost.thy ===== *)
theory Tlv_Cost
  imports Tlv_Properties
begin

text \<open>
  What the TLV package costs on input it does not control: the reader asks the stream for at
  most one element per byte, however the containers are nested, and an encoding is no longer than
  a bound that is linear in the contents of the value.
\<close>

section \<open>How long reading can take\<close>

lemma read_children_shrinks: "read_children es r = Inr (es', r') \<Longrightarrow> length r' < length r"
  by (drule read_children_cuts) auto

text \<open>
  \<open>T_read_children r\<close> is the number of elements \<^verbatim>\<open>ReadContainerChildren\<close> asks the
  stream \<open>r\<close> for, nested containers and the failing last request included. It recurses where
  the reader does: into the children of a container, and then on with what they leave.
\<close>

function T_read_children :: "bytes \<Rightarrow> nat" where
  "T_read_children r =
     Suc (case ReadElement r of Inl e \<Rightarrow> 0
          | Inr (elem, r1) \<Rightarrow>
              if el_Type elem = TypeEndOfContainer then 0
              else if is_container (el_Type elem) then
                T_read_children r1 +
                (case read_children [] r1 of Inl e \<Rightarrow> 0 | Inr (subElems, r2) \<Rightarrow> T_read_children r2)
              else T_read_children r1)"
  by pat_completeness auto

termination T_read_children
  by (relation "measure length") (auto dest!: ReadElement_shrinks read_children_shrinks)

declare T_read_children.simps [simp del]

lemma T_read_children_bound:
  "T_read_children r \<le> Suc (length r) \<and>
     (\<forall>es es' r'. read_children es r = Inr (es', r') \<longrightarrow> T_read_children r + length r' \<le> length r)"
proof (induction r rule: T_read_children.induct)
  case (1 r)
  show ?case
  proof (cases "ReadElement r")
    case (Inl e)
    then show ?thesis by (simp add: T_read_children.simps [of r] read_children.simps [of _ r])
  next
    case (Inr er)
    obtain e r1 where e: "ReadElement r = Inr (e, r1)" using Inr by (cases er) simp
    note shorter = ReadElement_shrinks [OF e]
    note eqs = T_read_children.simps [of r] read_children.simps [of _ r]
    show ?thesis
    proof (cases "el_Type e = TypeEndOfContainer")
      case True
      then show ?thesis using e shorter by (simp add: eqs)
    next
      case ne: False
      show ?thesis
      proof (cases "is_container (el_Type e)")
        case False
        with "1.IH"(3) [OF e _ ne] show ?thesis using e ne shorter by (fastforce simp: eqs)
      next
        case True
        note IH1 = "1.IH"(1) [OF e refl ne True]
        show ?thesis
        proof (cases "read_children [] r1")
          case (Inl x)
          then show ?thesis using e ne True shorter IH1 by (simp add: eqs)
        next
          case (Inr sr)
          obtain sub r2 where sub: "read_children [] r1 = Inr (sub, r2)" using Inr by (cases sr) simp
          from IH1 sub have "T_read_children r1 + length r2 \<le> length r1" by blast
          with "1.IH"(2) [OF e refl ne True sub refl] show ?thesis
            using e ne True sub shorter by (fastforce simp: eqs)
        qed
      qed
    qed
  qed
qed

text \<open>
  C30: reading a container ends after linearly many steps on every input, malformed ones
  included. \<^verbatim>\<open>ReadContainerChildren\<close> asks for at most as many elements as it consumes bytes
  when it succeeds, and for at most one more than the stream has bytes when it fails; no nesting
  makes it read a part of the stream twice.
\<close>

theorem reading_is_linear:
  "T_read_children r \<le>
     (case ReadContainerChildren r of Inl e \<Rightarrow> Suc (length r) | Inr (es, r') \<Rightarrow> length r - length r')"
  using T_read_children_bound [of r] by (force simp: ReadContainerChildren_def split: sum.splits)

section \<open>How long an encoding can get\<close>

text \<open>
  What each value may cost: a control byte and a tag number, up to eight bytes for a number,
  up to four for a length, the closing byte of a container.
\<close>

fun enc_bound :: "goval \<Rightarrow> nat" where
  "enc_bound (VPtr t None) = 1"
| "enc_bound (VPtr t (Some v)) = enc_bound v"
| "enc_bound (VIface None) = 1"
| "enc_bound (VIface (Some v)) = enc_bound v"
| "enc_bound (VInt n x) = 10"
| "enc_bound (VUint n x) = 10"
| "enc_bound (VBool b) = 2"
| "enc_bound (VString s) = 6 + length s"
| "enc_bound (VBytes b) = 6 + length b"
| "enc_bound (VSlice t vs) = 3 + sum_list (map enc_bound vs)"
| "enc_bound (VStruct fs) = 3 + sum_list (map (\<lambda>(f, v). enc_bound v) fs)"
| "enc_bound (VElement e) = 3"
| "enc_bound (VOpaque x) = 0"

definition adds_at_most :: "nat \<Rightarrow> (bytes \<Rightarrow> wresult) \<Rightarrow> bytes \<Rightarrow> bool" where
  "adds_at_most n f w \<longleftrightarrow> length (fst (f w)) \<le> length w + n"

lemma adds_then:
  assumes "adds_at_most n f w" "\<And>x. adds_at_most m g x" "n + m \<le> k"
  shows "adds_at_most k (\<lambda>w. w_then (f w) g) w"
proof (cases "f w")
  case (Pair b e)
  then show ?thesis using assms(1,3) assms(2) [of b] by (cases e) (simp_all add: adds_at_most_def)
qed

definition short_tag :: "tag \<Rightarrow> bool" where
  "short_tag t \<longleftrightarrow> tag_Class t = TagControlAnonymous \<or> tag_Class t = TagControlContextSpecific"

lemma adds_basic:
  "adds_at_most (length b) (w_write b) w" "adds_at_most 1 (writeControlByte c t) w" "adds_at_most n (\<lambda>w. (w, e)) w"
  "short_tag tag \<Longrightarrow> adds_at_most 1 (writeTag tag) w"
  by (auto simp: adds_at_most_def writeControlByte_def writeTag_def short_tag_def Let_def)

lemma adds_control:
  "short_tag tag \<Longrightarrow> adds_at_most 2 (\<lambda>w. w_then (writeControlByte c k w) (writeTag tag)) w"
  by (rule adds_then [OF adds_basic(2) adds_basic(4)]) simp_all

lemma adds_Put:
  assumes "short_tag t"
  shows "adds_at_most 10 (PutSignedInt t v) w" "adds_at_most 10 (PutUnsignedInt t v) w" "adds_at_most 2 (PutBoolean t b) w"
    "adds_at_most (6 + length s) (writeStringOrBytes t k s) w" "adds_at_most 2 (StartContainer t c) w" "adds_at_most 1 EndContainer w"
proof -
  have s: "length (snd (signed_repr v)) \<le> 8" "length (snd (unsigned_repr v)) \<le> 8"
    by (simp_all add: signed_repr_def unsigned_repr_def)
  show "adds_at_most 10 (PutSignedInt t v) w" "adds_at_most 10 (PutUnsignedInt t v) w"
    unfolding PutSignedInt_def [abs_def] PutUnsignedInt_def [abs_def] Let_def split_beta
    by (rule adds_then [OF adds_control [OF assms] adds_basic(1)], use s in simp)+
  show "adds_at_most 2 (PutBoolean t b) w" "adds_at_most 2 (StartContainer t c) w" "adds_at_most 1 EndContainer w"
    unfolding PutBoolean_def [abs_def] StartContainer_def [abs_def] EndContainer_def [abs_def] Let_def
    by (rule adds_control [OF assms] adds_basic(2))+
  show "adds_at_most (6 + length s) (writeStringOrBytes t k s) w"
  proof (cases "length_repr (length s)")
    case None
    then show ?thesis by (simp add: writeStringOrBytes_def [abs_def] adds_basic(3))
  next
    case (Some r)
    then have "length (snd r) \<le> 4" by (auto simp: length_repr_def split: if_splits)
    then show ?thesis unfolding writeStringOrBytes_def [abs_def] Some option.case split_beta Let_def
      by (intro adds_then [OF adds_then [OF adds_control [OF assms] adds_basic(1) order.refl] adds_basic(1)]) simp
  qed
qed

lemma short_tags [simp]: "short_tag anon_tag" "short_tag (ctx_tag i)"
  by (simp_all add: short_tag_def mk_tag_def)

lemma encode_bound:
  "short_tag t \<Longrightarrow> adds_at_most (enc_bound v) (encodeValue v t) w"
  "adds_at_most (sum_list (map enc_bound vs)) (encode_elems vs) w"
  "adds_at_most (sum_list (map (\<lambda>(f, v). enc_bound v) fs)) (encode_fields fs) w"
proof (induction v t w and vs w and fs w rule: encodeValue_encode_elems_encode_fields.induct)
  case (10 ty vs t w)
  have "adds_at_most (2 + sum_list (map enc_bound vs)) (\<lambda>w. w_then (StartContainer t TypeArray w) (encode_elems vs)) w"
    by (rule adds_then [OF adds_Put(5) [OF 10(2)] 10(1) order.refl])
  from adds_then [OF this adds_Put(6) [OF 10(2)], of "enc_bound (VSlice ty vs)"] show ?case by (simp add: adds_at_most_def)
next
  case (11 fs t w)
  let ?n = "sum_list (map (\<lambda>(f, v). enc_bound v) fs)"
  have "adds_at_most (2 + ?n) (\<lambda>w. w_then (StartContainer t TypeStructure w) (encode_fields fs)) w"
    by (rule adds_then [OF adds_Put(5) [OF 11(2)] 11(1) order.refl])
  from adds_then [OF this adds_Put(6) [OF 11(2)], of "enc_bound (VStruct fs)"] show ?case by (simp add: adds_at_most_def)
next
  case (12 e t w)
  from adds_then [OF adds_Put(5) [OF 12(1)] adds_Put(6) [OF 12(1)], of "enc_bound (VElement e)"] show ?case
    by (simp add: adds_at_most_def)
next
  case (15 v vs w)
  from adds_then [OF 15(1) [OF short_tags(1)] 15(2) order.refl] show ?case by (simp add: adds_at_most_def)
next
  case (17 f v fs w)
  let ?n = "enc_bound v + sum_list (map (\<lambda>(f, v). enc_bound v) fs)" and ?tag = "sf_tlv f"
  consider (skip) "?tag = '''' \<or> ?tag = ''-'' \<or> tlv_omitempty ?tag \<and> isEmptyValue v"
    | (bad) "\<not> (?tag = '''' \<or> ?tag = ''-'' \<or> tlv_omitempty ?tag \<and> isEmptyValue v)" "ParseUint8 (hd (split_comma ?tag)) = None"
    | (field) i where "\<not> (?tag = '''' \<or> ?tag = ''-'' \<or> tlv_omitempty ?tag \<and> isEmptyValue v)" "ParseUint8 (hd (split_comma ?tag)) = Some i"
    by blast
  then have "adds_at_most ?n (encode_fields ((f, v) # fs)) w"
  proof cases
    case skip
    then have "adds_at_most (sum_list (map (\<lambda>(f, v). enc_bound v) fs)) (encode_fields fs) w" using 17(1,2) by blast
    then show ?thesis using skip by (auto simp: adds_at_most_def Let_def)
  next
    case bad
    then show ?thesis by (auto simp: adds_at_most_def Let_def)
  next
    case (field i)
    have "adds_at_most ?n (\<lambda>w. w_then (encodeValue v (ctx_tag i) w) (encode_fields fs)) w"
      using field by (intro adds_then [OF 17(3) [OF _ _ _ _ _ short_tags(2)] 17(4) order.refl]) auto
    then show ?thesis using field by (auto simp: adds_at_most_def Let_def)
  qed
  then show ?case by (simp add: adds_at_most_def)
qed (simp_all add: adds_at_most_def adds_Put [unfolded adds_at_most_def, simplified] adds_basic [unfolded adds_at_most_def, simplified]
      PutString_def PutBytes_def)

lemma Marshal_length: "tlv_Marshal v = Inr bs \<Longrightarrow> length bs \<le> enc_bound v"
  using encode_bound(1) [OF short_tags(1), of v "[]"]
  by (auto simp: tlv_Marshal_def tlv_Encode_def adds_at_most_def split: prod.splits option.splits)

text \<open>
  C39: the encoder appends, and little. What \<^verbatim>\<open>Encode\<close> writes, and whether it fails, does not
  depend on what was written before, and even a failing call leaves the bytes already written in
  place; so \<^verbatim>\<open>Marshal\<close> into a fresh buffer determines every \<^verbatim>\<open>Encode\<close>. It writes at most
  the strings and byte strings of the value plus six bytes for each of them, ten for each number,
  two for each boolean and three for each container, however deeply it is nested.
\<close>

theorem encode_appends_within_bound:
  "tlv_Encode v w = (case tlv_Encode v [] of (bs, err) \<Rightarrow> (w @ bs, err))
   \<and> length (fst (tlv_Encode v w)) \<le> length w + enc_bound v"
proof (rule conjI [OF Encode_appends])
  show "length (fst (tlv_Encode v w)) \<le> length w + enc_bound v"
    using encode_bound(1) [OF short_tags(1), of v w] by (simp add: tlv_Encode_def adds_at_most_def)
qed

end
