(* ===== verification/Message_Header.thy ===== *)
theory Message_Header
  imports Prelude
begin

text \<open>
  \<^verbatim>\<open>message/flags.go\<close>, \<^verbatim>\<open>message/opcodes.go\<close>, \<^verbatim>\<open>message/header.go\<close> and
  \<^verbatim>\<open>message/payload_header.go\<close>: the two headers of a Matter frame and their wire
  forms. An \<^verbatim>\<open>Unmarshal\<close> method takes the header it is called on and returns the
  header afterwards (partly written when it fails) with the error or the number of bytes
  consumed. Both headers meet the contract \<open>prefix_codec\<close>, which is what the frame layer
  relies on.
\<close>

section \<open>Flags and opcodes\<close>

definition MessageFlagSourceNodeIDPresent :: u8 where [simp]: "MessageFlagSourceNodeIDPresent = 0x04"
definition MessageFlagDSIZMask :: u8 where [simp]: "MessageFlagDSIZMask = 0x03"
definition MessageFlagDSIZAbsent :: u8 where [simp]: "MessageFlagDSIZAbsent = 0x00"
definition MessageFlagDSIZUnicast :: u8 where [simp]: "MessageFlagDSIZUnicast = 0x01"
definition MessageFlagDSIZGroup :: u8 where [simp]: "MessageFlagDSIZGroup = 0x02"
definition MessageVersionMask :: u8 where [simp]: "MessageVersionMask = 0xF0"

definition SourcePresent :: "u8 \<Rightarrow> bool" where
  "SourcePresent f \<longleftrightarrow> f AND MessageFlagSourceNodeIDPresent \<noteq> 0"

definition DSIZ :: "u8 \<Rightarrow> u8" where
  "DSIZ f = f AND MessageFlagDSIZMask"

definition SecurityFlagSessionTypeMask :: u8 where [simp]: "SecurityFlagSessionTypeMask = 0x03"
definition SessionTypeUnicast :: u8 where [simp]: "SessionTypeUnicast = 0x00"

definition SessionType :: "u8 \<Rightarrow> u8" where
  "SessionType f = f AND SecurityFlagSessionTypeMask"

definition ExchangeFlagInitiator :: u8 where [simp]: "ExchangeFlagInitiator = 0x01"
definition ExchangeFlagAcknowledgement :: u8 where [simp]: "ExchangeFlagAcknowledgement = 0x02"
definition ExchangeFlagReliability :: u8 where [simp]: "ExchangeFlagReliability = 0x04"
definition ExchangeFlagVendorPresent :: u8 where [simp]: "ExchangeFlagVendorPresent = 0x10"

definition Has :: "u8 \<Rightarrow> u8 \<Rightarrow> bool" where
  "Has f m \<longleftrightarrow> f AND m = m"

definition ProtocolSecureChannel :: u16 where [simp]: "ProtocolSecureChannel = 0x0000"

definition OpcodePBKDFParamRequest :: u8 where [simp]: "OpcodePBKDFParamRequest = 0x20"
definition OpcodePBKDFParamResponse :: u8 where [simp]: "OpcodePBKDFParamResponse = 0x21"
definition OpcodePASEPake1 :: u8 where [simp]: "OpcodePASEPake1 = 0x22"
definition OpcodePASEPake2 :: u8 where [simp]: "OpcodePASEPake2 = 0x23"
definition OpcodePASEPake3 :: u8 where [simp]: "OpcodePASEPake3 = 0x24"

datatype message_error =
    HeaderTooShort
  | HeaderReservedDSIZ
  | HeaderUnknownVersion u8
  | PayloadHeaderTooShort

text \<open>\<open>b[i:j]\<close>, where the code has checked \<open>j \<le> len(b)\<close>.\<close>

definition byte_slice :: "nat \<Rightarrow> nat \<Rightarrow> bytes \<Rightarrow> bytes" where
  "byte_slice i j b = take (j - i) (drop i b)"

section \<open>Message header\<close>

record header =
  h_Flags :: u8
  h_SessionID :: u16
  h_SecurityFlags :: u8
  h_MessageCounter :: u32
  h_SourceNodeID :: u64
  h_DestNodeID :: u64

definition zero_header :: header where
  "zero_header = \<lparr>h_Flags = 0, h_SessionID = 0, h_SecurityFlags = 0, h_MessageCounter = 0,
     h_SourceNodeID = 0, h_DestNodeID = 0\<rparr>"

definition headerFixedSize :: nat where "headerFixedSize = 1 + 2 + 1 + 4"

lemma headerFixedSize_eq [simp]: "headerFixedSize = 8"
  by (simp add: headerFixedSize_def)

definition Header_Marshal :: "header \<Rightarrow> message_error + bytes" where
  "Header_Marshal h =
     (let fixed = [h_Flags h] @ PutUint16 (h_SessionID h) @ [h_SecurityFlags h]
                  @ PutUint32 (h_MessageCounter h);
          source = (if SourcePresent (h_Flags h) then PutUint64 (h_SourceNodeID h) else []) in
      if DSIZ (h_Flags h) = MessageFlagDSIZAbsent then Inr (fixed @ source)
      else if DSIZ (h_Flags h) = MessageFlagDSIZUnicast then
        Inr (fixed @ source @ PutUint64 (h_DestNodeID h))
      else if DSIZ (h_Flags h) = MessageFlagDSIZGroup then
        Inr (fixed @ source @ PutUint16 (ucast (h_DestNodeID h)))
      else Inl HeaderReservedDSIZ)"

definition Header_Unmarshal :: "header \<Rightarrow> bytes \<Rightarrow> header \<times> (message_error + nat)" where
  "Header_Unmarshal h b =
     (if length b < headerFixedSize then (h, Inl HeaderTooShort)
      else
        let h1 = h\<lparr>h_Flags := b ! 0\<rparr> in
        if h_Flags h1 AND MessageVersionMask \<noteq> 0 then
          (h1, Inl (HeaderUnknownVersion (drop_bit 4 (h_Flags h1 AND MessageVersionMask))))
        else
          let h2 = h1\<lparr>h_SessionID := Uint16 (byte_slice 1 3 b), h_SecurityFlags := b ! 3,
                      h_MessageCounter := Uint32 (byte_slice 4 8 b),
                      h_SourceNodeID := 0, h_DestNodeID := 0\<rparr>;
              off = headerFixedSize in
          if SourcePresent (h_Flags h2) \<and> length b < off + 8 then (h2, Inl HeaderTooShort)
          else
            let (h3, off) = (if SourcePresent (h_Flags h2)
                             then (h2\<lparr>h_SourceNodeID := Uint64 (byte_slice off (off + 8) b)\<rparr>, off + 8)
                             else (h2, off)) in
            if DSIZ (h_Flags h3) = MessageFlagDSIZAbsent then (h3, Inr off)
            else if DSIZ (h_Flags h3) = MessageFlagDSIZUnicast then
              (if length b < off + 8 then (h3, Inl HeaderTooShort)
               else (h3\<lparr>h_DestNodeID := Uint64 (byte_slice off (off + 8) b)\<rparr>, Inr (off + 8)))
            else if DSIZ (h_Flags h3) = MessageFlagDSIZGroup then
              (if length b < off + 2 then (h3, Inl HeaderTooShort)
               else (h3\<lparr>h_DestNodeID := ucast (Uint16 (byte_slice off (off + 2) b))\<rparr>, Inr (off + 2)))
            else (h3, Inl HeaderReservedDSIZ))"

section \<open>Payload header\<close>

record payload_header =
  ph_ExchangeFlags :: u8
  ph_Opcode :: u8
  ph_ExchangeID :: u16
  ph_ProtocolID :: u16
  ph_VendorID :: u16
  ph_AckCounter :: u32

definition zero_payload_header :: payload_header where
  "zero_payload_header = \<lparr>ph_ExchangeFlags = 0, ph_Opcode = 0, ph_ExchangeID = 0,
     ph_ProtocolID = 0, ph_VendorID = 0, ph_AckCounter = 0\<rparr>"

definition payloadHeaderFixedSize :: nat where "payloadHeaderFixedSize = 1 + 1 + 2 + 2"

lemma payloadHeaderFixedSize_eq [simp]: "payloadHeaderFixedSize = 6"
  by (simp add: payloadHeaderFixedSize_def)

definition PayloadHeader_Marshal :: "payload_header \<Rightarrow> message_error + bytes" where
  "PayloadHeader_Marshal p =
     Inr ([ph_ExchangeFlags p, ph_Opcode p] @ PutUint16 (ph_ExchangeID p) @ PutUint16 (ph_ProtocolID p)
          @ (if Has (ph_ExchangeFlags p) ExchangeFlagVendorPresent then PutUint16 (ph_VendorID p) else [])
          @ (if Has (ph_ExchangeFlags p) ExchangeFlagAcknowledgement then PutUint32 (ph_AckCounter p)
             else []))"

definition PayloadHeader_Unmarshal :: "payload_header \<Rightarrow> bytes \<Rightarrow> payload_header \<times> (message_error + nat)" where
  "PayloadHeader_Unmarshal p b =
     (if length b < payloadHeaderFixedSize then (p, Inl PayloadHeaderTooShort)
      else
        let p1 = p\<lparr>ph_ExchangeFlags := b ! 0, ph_Opcode := b ! 1,
                   ph_ExchangeID := Uint16 (byte_slice 2 4 b), ph_ProtocolID := Uint16 (byte_slice 4 6 b),
                   ph_VendorID := 0, ph_AckCounter := 0\<rparr>;
            off = payloadHeaderFixedSize in
        if Has (ph_ExchangeFlags p1) ExchangeFlagVendorPresent \<and> length b < off + 2
        then (p1, Inl PayloadHeaderTooShort)
        else
          let (p2, off) = (if Has (ph_ExchangeFlags p1) ExchangeFlagVendorPresent
                           then (p1\<lparr>ph_VendorID := Uint16 (byte_slice off (off + 2) b)\<rparr>, off + 2)
                           else (p1, off)) in
          if Has (ph_ExchangeFlags p2) ExchangeFlagAcknowledgement then
            (if length b < off + 4 then (p2, Inl PayloadHeaderTooShort)
             else (p2\<lparr>ph_AckCounter := Uint32 (byte_slice off (off + 4) b)\<rparr>, Inr (off + 4)))
          else (p2, Inr off))"

section \<open>The codec contract\<close>

text \<open>
  A prefix codec: encoding a well-formed value and decoding gives the value and the
  number of bytes it took, whatever follows; and whatever decodes is well-formed and
  encodes to exactly the bytes consumed. So on well-formed values the wire form is
  unique, and the decoder accepts nothing the encoder could not have produced.
\<close>

locale prefix_codec =
  fixes enc :: "'a \<Rightarrow> message_error + bytes"
    and dec :: "bytes \<Rightarrow> message_error + 'a \<times> nat"
    and wf :: "'a \<Rightarrow> bool"
  assumes dec_enc: "wf x \<Longrightarrow> \<exists>bs. enc x = Inr bs \<and> (\<forall>r. dec (bs @ r) = Inr (x, length bs))"
    and enc_dec: "dec b = Inr (x, n) \<Longrightarrow> wf x \<and> n \<le> length b \<and> enc x = Inr (take n b)"
begin

lemma enc_inj: "wf x \<Longrightarrow> wf y \<Longrightarrow> enc x = enc y \<Longrightarrow> x = y"
  using dec_enc [of x] dec_enc [of y] by fastforce

lemma dec_iff: "dec b = Inr (x, n) \<longleftrightarrow> wf x \<and> n \<le> length b \<and> enc x = Inr (take n b)"
proof
  assume r: "wf x \<and> n \<le> length b \<and> enc x = Inr (take n b)"
  then have "\<forall>r. dec (take n b @ r) = Inr (x, length (take n b))"
    using dec_enc [of x] by auto
  then have "dec (take n b @ drop n b) = Inr (x, length (take n b))" by blast
  then show "dec b = Inr (x, n)" using r by (simp add: min_absorb2)
qed (rule enc_dec)

lemma dec_append:
  assumes "dec b = Inr (x, n)"
  shows "dec (b @ r) = Inr (x, n)"
proof -
  from enc_dec [OF assms] have x: "wf x" "n \<le> length b" "enc x = Inr (take n b)" by auto
  from dec_enc [OF x(1)] x(3) have "dec (take n b @ drop n b @ r) = Inr (x, length (take n b))" by auto
  then show ?thesis using x(2) by (simp add: min_absorb2 flip: append_assoc)
qed

lemma dec_prefix_free:
  assumes "wf x" "wf y" "enc x = Inr bx" "enc y = Inr (bx @ r)"
  shows "r = [] \<and> x = y"
proof -
  from dec_enc [OF assms(1)] assms(3) have 1: "dec (bx @ r) = Inr (x, length bx)" by auto
  from dec_enc [OF assms(2)] assms(4) have "\<forall>r'. dec ((bx @ r) @ r') = Inr (y, length (bx @ r))" by auto
  then have "dec ((bx @ r) @ []) = Inr (y, length (bx @ r))" by blast
  with 1 show ?thesis by simp
qed

end

definition result_of :: "'h \<times> (message_error + nat) \<Rightarrow> message_error + 'h \<times> nat" where
  "result_of x = (case snd x of Inl e \<Rightarrow> Inl e | Inr n \<Rightarrow> Inr (fst x, n))"

definition header_wf :: "header \<Rightarrow> bool" where
  "header_wf h \<longleftrightarrow>
     h_Flags h AND MessageVersionMask = 0
     \<and> (SourcePresent (h_Flags h) \<or> h_SourceNodeID h = 0)
     \<and> (DSIZ (h_Flags h) = MessageFlagDSIZAbsent \<and> h_DestNodeID h = 0
        \<or> DSIZ (h_Flags h) = MessageFlagDSIZUnicast
        \<or> DSIZ (h_Flags h) = MessageFlagDSIZGroup \<and> unat (h_DestNodeID h) < 2 ^ 16)"

definition payload_header_wf :: "payload_header \<Rightarrow> bool" where
  "payload_header_wf p \<longleftrightarrow>
     (Has (ph_ExchangeFlags p) ExchangeFlagVendorPresent \<or> ph_VendorID p = 0)
     \<and> (Has (ph_ExchangeFlags p) ExchangeFlagAcknowledgement \<or> ph_AckCounter p = 0)"

section \<open>Both headers are prefix codecs\<close>

lemma PutUint_slice:
  "i + 2 \<le> length b \<Longrightarrow> PutUint16 (Uint16 (byte_slice i (i + 2) b)) = byte_slice i (i + 2) b"
  "i + 4 \<le> length b \<Longrightarrow> PutUint32 (Uint32 (byte_slice i (i + 4) b)) = byte_slice i (i + 4) b"
  "i + 8 \<le> length b \<Longrightarrow> PutUint64 (Uint64 (byte_slice i (i + 8) b)) = byte_slice i (i + 8) b"
  by (simp_all add: byte_slice_def PutUint_Uint)

lemmas PutUint_slices [simp] =
  PutUint_slice(1) [of 2, simplified] PutUint_slice(1) [of 4, simplified]
  PutUint_slice(1) [of 6, simplified] PutUint_slice(1) [of 8, simplified] PutUint_slice(1) [of 16, simplified]
  PutUint_slice(2) [of 4, simplified] PutUint_slice(2) [of 6, simplified] PutUint_slice(2) [of 8, simplified]
  PutUint_slice(3) [of 8, simplified] PutUint_slice(3) [of 16, simplified]

lemma take_slice: "i \<le> j \<Longrightarrow> take j b = take i b @ byte_slice i j b"
  by (metis le_add_diff_inverse byte_slice_def take_add)

lemma take_nth: "i < length b \<Longrightarrow> take (Suc i) b = take i b @ [b ! i]"
  by (rule take_Suc_conv_app_nth)

lemma header_fixed_bytes:
  "8 \<le> length b \<Longrightarrow> take 8 b = [b ! 0] @ byte_slice 1 3 b @ [b ! 3] @ byte_slice 4 8 b"
  using take_slice [of 4 8 b] take_nth [of 3 b] take_slice [of 1 3 b] take_nth [of 0 b]
  by (cases b) (simp_all add: numeral_eq_Suc)

lemma header_dec_enc:
  assumes "header_wf h"
  shows "\<exists>bs. Header_Marshal h = Inr bs
    \<and> (\<forall>r. result_of (Header_Unmarshal zero_header (bs @ r)) = Inr (h, length bs))"
  using assms
  by (cases h)
    (auto simp: header_wf_def Header_Marshal_def Header_Unmarshal_def result_of_def zero_header_def
      Let_def byte_slice_def nth_append drop_Cons' ucast_ucast_small)

lemma header_enc_dec:
  assumes "result_of (Header_Unmarshal zero_header b) = Inr (h, n)"
  shows "header_wf h \<and> n \<le> length b \<and> Header_Marshal h = Inr (take n b)"
proof -
  have len: "8 \<le> length b"
    using assms by (auto simp: result_of_def Header_Unmarshal_def split: if_splits)
  have u16: "unat (ucast x :: u64) < 65536" for x :: u16
    using unsigned_less [of x, where ?'a = nat] by (simp add: unat_ucast_up)
  have s1: "PutUint16 (Uint16 (byte_slice (Suc 0) 3 b)) = byte_slice (Suc 0) 3 b"
    using len by (simp add: byte_slice_def PutUint_Uint)
  note t8 = header_fixed_bytes [OF len]
  have t10: "take 10 b = take 8 b @ byte_slice 8 10 b" and t16: "take 16 b = take 8 b @ byte_slice 8 16 b"
    and t18: "take 18 b = take 16 b @ byte_slice 16 18 b" and t24: "take 24 b = take 16 b @ byte_slice 16 24 b"
    by (rule take_slice, simp)+
  show ?thesis
    using assms len
    by (auto simp: u16 s1 result_of_def Header_Unmarshal_def Let_def header_wf_def Header_Marshal_def
        zero_header_def t8 t10 t16 t18 t24 split: if_splits)
qed

lemma payload_header_dec_enc:
  assumes "payload_header_wf p"
  shows "\<exists>bs. PayloadHeader_Marshal p = Inr bs
    \<and> (\<forall>r. result_of (PayloadHeader_Unmarshal zero_payload_header (bs @ r)) = Inr (p, length bs))"
  using assms
  by (cases p)
    (auto simp: payload_header_wf_def PayloadHeader_Marshal_def PayloadHeader_Unmarshal_def result_of_def
      zero_payload_header_def Let_def byte_slice_def nth_append drop_Cons')

lemma payload_header_fixed_bytes:
  "6 \<le> length b \<Longrightarrow> take 6 b = [b ! 0, b ! 1] @ byte_slice 2 4 b @ byte_slice 4 6 b"
  using take_slice [of 4 6 b] take_slice [of 2 4 b] take_nth [of 1 b] take_nth [of 0 b]
  by (cases b; cases "tl b") (simp_all add: numeral_eq_Suc)

lemma payload_header_enc_dec:
  assumes "result_of (PayloadHeader_Unmarshal zero_payload_header b) = Inr (p, n)"
  shows "payload_header_wf p \<and> n \<le> length b \<and> PayloadHeader_Marshal p = Inr (take n b)"
proof -
  have len: "6 \<le> length b"
    using assms by (auto simp: result_of_def PayloadHeader_Unmarshal_def split: if_splits)
  note t6 = payload_header_fixed_bytes [OF len]
  have t8: "take 8 b = take 6 b @ byte_slice 6 8 b" and t10: "take 10 b = take 6 b @ byte_slice 6 10 b"
    and t12: "take 12 b = take 8 b @ byte_slice 8 12 b"
    by (rule take_slice, simp)+
  show ?thesis
    using assms len
    by (auto simp: result_of_def PayloadHeader_Unmarshal_def Let_def payload_header_wf_def
        PayloadHeader_Marshal_def zero_payload_header_def t6 t8 t10 t12 split: if_splits)
qed

interpretation hdr: prefix_codec Header_Marshal "\<lambda>b. result_of (Header_Unmarshal zero_header b)" header_wf
  by unfold_locales (auto intro: header_dec_enc dest: header_enc_dec)

interpretation phdr: prefix_codec PayloadHeader_Marshal
  "\<lambda>b. result_of (PayloadHeader_Unmarshal zero_payload_header b)" payload_header_wf
  by unfold_locales (auto intro: payload_header_dec_enc dest: payload_header_enc_dec)

text \<open>A successful \<^verbatim>\<open>Unmarshal\<close> does not depend on what the header held before.\<close>

lemma Header_Unmarshal_fresh:
  "result_of (Header_Unmarshal h b) = result_of (Header_Unmarshal zero_header b)"
  by (cases h) (auto simp: result_of_def Header_Unmarshal_def Let_def zero_header_def)

lemma PayloadHeader_Unmarshal_fresh:
  "result_of (PayloadHeader_Unmarshal p b) = result_of (PayloadHeader_Unmarshal zero_payload_header b)"
  by (cases p) (auto simp: result_of_def PayloadHeader_Unmarshal_def Let_def zero_payload_header_def)

lemma DSIZ_cases: "DSIZ f = 0 \<or> DSIZ f = 1 \<or> DSIZ f = 2 \<or> DSIZ f = 3"
proof -
  have "DSIZ f \<le> 3" by (simp add: DSIZ_def word_and_le1)
  then have "unat (DSIZ f) \<le> 3" by (simp add: word_le_nat_alt)
  then have "unat (DSIZ f) \<in> {0, 1, 2, 3}" by auto
  then show ?thesis by (auto simp: word_unat_eq_iff)
qed

lemma version_nibble: "drop_bit 4 (f AND 0xF0) = drop_bit 4 (f :: u8)"
proof (rule bit_eqI)
  fix n
  show "bit (drop_bit 4 (f AND 0xF0)) n = bit (drop_bit 4 f) n"
    by (cases "n < 4") (auto simp: bit_simps less_Suc_eq numeral_eq_Suc dest: bit_imp_le_length)
qed

definition header_length :: "u8 \<Rightarrow> nat" where
  "header_length flags = 8 + (if SourcePresent flags then 8 else 0)
     + (if DSIZ flags = 1 then 8 else if DSIZ flags = 2 then 2 else 0)"

section \<open>Properties\<close>

text \<open>
  C15: the header decoders and encoders agree exactly. \<^verbatim>\<open>Unmarshal\<close> into any header
  \<open>h0\<close> succeeds with the header \<open>h\<close> and the length \<open>n\<close> precisely when \<open>h\<close> is
  well-formed and \<^verbatim>\<open>Marshal\<close> turns it into the first \<open>n\<close> bytes of the buffer: the
  wire form is canonical, nothing the encoder could not have produced is accepted, the
  bytes that follow the header do not matter, and nothing of \<open>h0\<close> survives. The payload
  header has the same exact correspondence, with its optional vendor id and acknowledgement
  counter.
\<close>

theorem header_wire_formats:
  "(result_of (Header_Unmarshal h0 b) = Inr (h, n) \<longleftrightarrow>
      header_wf h \<and> n \<le> length b \<and> Header_Marshal h = Inr (take n b))
   \<and> (result_of (PayloadHeader_Unmarshal p0 b) = Inr (p, n) \<longleftrightarrow>
      payload_header_wf p \<and> n \<le> length b \<and> PayloadHeader_Marshal p = Inr (take n b))"
  unfolding Header_Unmarshal_fresh [of h0] PayloadHeader_Unmarshal_fresh [of p0]
  by (rule conjI [OF hdr.dec_iff phdr.dec_iff])

text \<open>
  C16: what the header decoder rejects, and with which error. It fails exactly when the
  buffer is shorter than the fixed part, the version nibble is not zero, an announced node
  id does not fit in the buffer, or the destination size is the reserved value; the version
  is checked before any of the optional fields.
\<close>

theorem header_decode_errors:
  "snd (Header_Unmarshal h b) =
     (if length b < 8 then Inl HeaderTooShort
      else if b ! 0 AND 0xF0 \<noteq> 0 then Inl (HeaderUnknownVersion (drop_bit 4 (b ! 0)))
      else if SourcePresent (b ! 0) \<and> length b < 16 then Inl HeaderTooShort
      else if DSIZ (b ! 0) = 3 then Inl HeaderReservedDSIZ
      else if length b < header_length (b ! 0) then Inl HeaderTooShort
      else Inr (header_length (b ! 0)))"
  using DSIZ_cases [of "b ! 0"]
  by (auto simp: Header_Unmarshal_def Let_def header_length_def version_nibble [simplified])

end
