(* ===== verification/Message_Frame.thy ===== *)
theory Message_Frame
  imports Message_Header Tlv_Encoder
begin

text \<open>
  \<^verbatim>\<open>message/frame.go\<close> and \<^verbatim>\<open>message/builder.go\<close>: frames and the fluent builder.
  The frame layer uses the two headers only through the contract \<open>prefix_codec\<close>; the
  locale \<open>framing\<close> proves the frame round trip once from it. Every frame a builder can
  produce has well-formed headers, so it survives the wire.
\<close>

section \<open>Frames\<close>

record frame =
  f_Header :: header
  f_PayloadHeader :: payload_header
  f_Payload :: bytes

definition Frame_Encode :: "frame \<Rightarrow> message_error + bytes" where
  "Frame_Encode f =
     (case Header_Marshal (f_Header f) of Inl e \<Rightarrow> Inl e
      | Inr hdr \<Rightarrow>
          (case PayloadHeader_Marshal (f_PayloadHeader f) of Inl e \<Rightarrow> Inl e
           | Inr phdr \<Rightarrow> Inr (hdr @ phdr @ f_Payload f)))"

definition Frame_Decode :: "bytes \<Rightarrow> message_error + frame" where
  "Frame_Decode b =
     (case Header_Unmarshal zero_header b of
        (h, Inl e) \<Rightarrow> Inl e
      | (h, Inr n) \<Rightarrow>
          (case PayloadHeader_Unmarshal zero_payload_header (drop n b) of
             (p, Inl e) \<Rightarrow> Inl e
           | (p, Inr m) \<Rightarrow> Inr \<lparr>f_Header = h, f_PayloadHeader = p, f_Payload = drop (n + m) b\<rparr>))"

locale framing =
  h: prefix_codec ench dech wfh + p: prefix_codec encp decp wfp
  for ench :: "'h \<Rightarrow> message_error + bytes" and dech wfh
    and encp :: "'p \<Rightarrow> message_error + bytes" and decp wfp
begin

lemma headers_dec_enc:
  assumes "wfh x" "wfp y"
  obtains bh bp where "ench x = Inr bh" "encp y = Inr bp"
    "\<And>r. dech (bh @ bp @ r) = Inr (x, length bh)" "\<And>r. decp (bp @ r) = Inr (y, length bp)"
  using h.dec_enc [OF assms(1)] p.dec_enc [OF assms(2)] by blast

lemma headers_enc_dec:
  assumes "dech b = Inr (x, n)" "decp (drop n b) = Inr (y, m)"
  shows "wfh x" "wfp y" "ench x = Inr (take n b)" "encp y = Inr (take m (drop n b))"
    and "take n b @ take m (drop n b) @ drop (n + m) b = b"
  using h.enc_dec [OF assms(1)] p.enc_dec [OF assms(2)]
  by (auto simp: add.commute simp flip: drop_drop)

end

interpretation frm: framing
  Header_Marshal "\<lambda>b. result_of (Header_Unmarshal zero_header b)" header_wf
  PayloadHeader_Marshal "\<lambda>b. result_of (PayloadHeader_Unmarshal zero_payload_header b)" payload_header_wf
  by unfold_locales

definition frame_wf :: "frame \<Rightarrow> bool" where
  "frame_wf f \<longleftrightarrow> header_wf (f_Header f) \<and> payload_header_wf (f_PayloadHeader f)"

lemma result_of_Inr: "result_of x = Inr (h, n) \<longleftrightarrow> x = (h, Inr n)"
  by (cases x) (auto simp: result_of_def split: sum.splits)

lemma frame_dec_enc:
  assumes "frame_wf f"
  shows "\<exists>bs. Frame_Encode f = Inr bs \<and> Frame_Decode bs = Inr f"
proof -
  from assms have "header_wf (f_Header f)" "payload_header_wf (f_PayloadHeader f)"
    by (auto simp: frame_wf_def)
  then obtain bh bp where b: "Header_Marshal (f_Header f) = Inr bh"
    "PayloadHeader_Marshal (f_PayloadHeader f) = Inr bp"
    "Header_Unmarshal zero_header (bh @ bp @ f_Payload f) = (f_Header f, Inr (length bh))"
    "PayloadHeader_Unmarshal zero_payload_header (bp @ f_Payload f) = (f_PayloadHeader f, Inr (length bp))"
    by (rule frm.headers_dec_enc) (auto simp: result_of_Inr)
  then show ?thesis by (simp add: Frame_Encode_def Frame_Decode_def)
qed

lemma frame_enc_dec:
  assumes "Frame_Decode b = Inr f"
  shows "frame_wf f \<and> Frame_Encode f = Inr b"
proof -
  from assms obtain n m where
    d: "result_of (Header_Unmarshal zero_header b) = Inr (f_Header f, n)"
      "result_of (PayloadHeader_Unmarshal zero_payload_header (drop n b)) = Inr (f_PayloadHeader f, m)"
    and f: "f_Payload f = drop (n + m) b"
    by (auto simp: Frame_Decode_def result_of_Inr split: prod.splits sum.splits)
  from frm.headers_enc_dec [OF d] show ?thesis
    by (simp add: frame_wf_def Frame_Encode_def f)
qed

section \<open>Builder\<close>

datatype builder_error = PayloadMarshalFailed tlv_error | MissingProtocolOpcode

record builder =
  b_frame :: frame
  b_hasPayload :: bool
  b_err :: "builder_error option"

definition NewBuilder :: builder where
  "NewBuilder = \<lparr>b_frame = \<lparr>f_Header = zero_header, f_PayloadHeader = zero_payload_header, f_Payload = []\<rparr>,
     b_hasPayload = False, b_err = None\<rparr>"

text \<open>Field access below \<^verbatim>\<open>b.frame\<close>.\<close>

definition upd_header :: "(header \<Rightarrow> header) \<Rightarrow> builder \<Rightarrow> builder" where
  "upd_header g b = b\<lparr>b_frame := (b_frame b)\<lparr>f_Header := g (f_Header (b_frame b))\<rparr>\<rparr>"

definition upd_payload_header :: "(payload_header \<Rightarrow> payload_header) \<Rightarrow> builder \<Rightarrow> builder" where
  "upd_payload_header g b = b\<lparr>b_frame := (b_frame b)\<lparr>f_PayloadHeader := g (f_PayloadHeader (b_frame b))\<rparr>\<rparr>"

definition upd_payload :: "bytes \<Rightarrow> builder \<Rightarrow> builder" where
  "upd_payload p b = b\<lparr>b_frame := (b_frame b)\<lparr>f_Payload := p\<rparr>\<rparr>"

definition b_SessionID :: "u16 \<Rightarrow> builder \<Rightarrow> builder" where
  "b_SessionID i = upd_header (\<lambda>h. h\<lparr>h_SessionID := i\<rparr>)"

definition b_MessageCounter :: "u32 \<Rightarrow> builder \<Rightarrow> builder" where
  "b_MessageCounter c = upd_header (\<lambda>h. h\<lparr>h_MessageCounter := c\<rparr>)"

definition b_SourceNodeID :: "u64 \<Rightarrow> builder \<Rightarrow> builder" where
  "b_SourceNodeID i =
     upd_header (\<lambda>h. h\<lparr>h_SourceNodeID := i, h_Flags := h_Flags h OR MessageFlagSourceNodeIDPresent\<rparr>)"

definition b_DestNodeID :: "u64 \<Rightarrow> builder \<Rightarrow> builder" where
  "b_DestNodeID i =
     upd_header (\<lambda>h. h\<lparr>h_DestNodeID := i,
       h_Flags := (h_Flags h AND NOT MessageFlagDSIZMask) OR MessageFlagDSIZUnicast\<rparr>)"

definition b_DestGroupID :: "u16 \<Rightarrow> builder \<Rightarrow> builder" where
  "b_DestGroupID i =
     upd_header (\<lambda>h. h\<lparr>h_DestNodeID := ucast i,
       h_Flags := (h_Flags h AND NOT MessageFlagDSIZMask) OR MessageFlagDSIZGroup\<rparr>)"

definition b_Unsecured :: "builder \<Rightarrow> builder" where
  "b_Unsecured =
     upd_header (\<lambda>h. h\<lparr>h_SessionID := 0,
       h_SecurityFlags := (h_SecurityFlags h AND NOT SecurityFlagSessionTypeMask) OR SessionTypeUnicast\<rparr>)"

definition b_Protocol :: "u16 \<Rightarrow> builder \<Rightarrow> builder" where
  "b_Protocol i = upd_payload_header (\<lambda>p. p\<lparr>ph_ProtocolID := i\<rparr>)"

definition b_Opcode :: "u8 \<Rightarrow> builder \<Rightarrow> builder" where
  "b_Opcode op = upd_payload_header (\<lambda>p. p\<lparr>ph_Opcode := op\<rparr>)"

definition b_ExchangeID :: "u16 \<Rightarrow> builder \<Rightarrow> builder" where
  "b_ExchangeID i = upd_payload_header (\<lambda>p. p\<lparr>ph_ExchangeID := i\<rparr>)"

definition b_Initiator :: "builder \<Rightarrow> builder" where
  "b_Initiator =
     upd_payload_header (\<lambda>p. p\<lparr>ph_ExchangeFlags := ph_ExchangeFlags p OR ExchangeFlagInitiator\<rparr>)"

definition b_RequestAck :: "builder \<Rightarrow> builder" where
  "b_RequestAck =
     upd_payload_header (\<lambda>p. p\<lparr>ph_ExchangeFlags := ph_ExchangeFlags p OR ExchangeFlagReliability\<rparr>)"

definition b_AckCounter :: "u32 \<Rightarrow> builder \<Rightarrow> builder" where
  "b_AckCounter c =
     upd_payload_header (\<lambda>p. p\<lparr>ph_AckCounter := c,
       ph_ExchangeFlags := ph_ExchangeFlags p OR ExchangeFlagAcknowledgement\<rparr>)"

definition b_Vendor :: "u16 \<Rightarrow> builder \<Rightarrow> builder" where
  "b_Vendor i =
     upd_payload_header (\<lambda>p. p\<lparr>ph_VendorID := i,
       ph_ExchangeFlags := ph_ExchangeFlags p OR ExchangeFlagVendorPresent\<rparr>)"

text \<open>The argument of \<^verbatim>\<open>Payload\<close>: nil, a byte slice, or any other Go value.\<close>

datatype payload_arg = PNil | PRaw bytes | PValue goval

definition b_Payload :: "payload_arg \<Rightarrow> builder \<Rightarrow> builder" where
  "b_Payload v b =
     (let b1 = b\<lparr>b_hasPayload := True\<rparr> in
      case v of
        PNil \<Rightarrow> upd_payload [] b1
      | PRaw raw \<Rightarrow> upd_payload raw b1
      | PValue x \<Rightarrow>
          (case tlv_Marshal x of
             Inl e \<Rightarrow> (if b_err b1 = None then b1\<lparr>b_err := Some (PayloadMarshalFailed e)\<rparr> else b1)
           | Inr encoded \<Rightarrow> upd_payload encoded b1))"

definition b_Build :: "builder \<Rightarrow> builder_error + frame" where
  "b_Build b =
     (case b_err b of Some e \<Rightarrow> Inl e
      | None \<Rightarrow>
          let p = f_PayloadHeader (b_frame b) in
          if ph_ProtocolID p = 0 \<and> ph_Opcode p = 0 then Inl MissingProtocolOpcode
          else Inr (b_frame b))"

lemmas builder_defs = b_SessionID_def b_MessageCounter_def b_SourceNodeID_def b_DestNodeID_def
  b_DestGroupID_def b_Unsecured_def b_Protocol_def b_Opcode_def b_ExchangeID_def b_Initiator_def
  b_RequestAck_def b_AckCounter_def b_Vendor_def b_Payload_def
  upd_header_def upd_payload_header_def upd_payload_def

text \<open>The builders a chain of calls can reach.\<close>

inductive built :: "builder \<Rightarrow> bool" where
  new: "built NewBuilder"
| SessionID: "built b \<Longrightarrow> built (b_SessionID i b)"
| MessageCounter: "built b \<Longrightarrow> built (b_MessageCounter c b)"
| SourceNodeID: "built b \<Longrightarrow> built (b_SourceNodeID n b)"
| DestNodeID: "built b \<Longrightarrow> built (b_DestNodeID n b)"
| DestGroupID: "built b \<Longrightarrow> built (b_DestGroupID i b)"
| Unsecured: "built b \<Longrightarrow> built (b_Unsecured b)"
| Protocol: "built b \<Longrightarrow> built (b_Protocol i b)"
| Opcode: "built b \<Longrightarrow> built (b_Opcode k b)"
| ExchangeID: "built b \<Longrightarrow> built (b_ExchangeID i b)"
| Initiator: "built b \<Longrightarrow> built (b_Initiator b)"
| RequestAck: "built b \<Longrightarrow> built (b_RequestAck b)"
| AckCounter: "built b \<Longrightarrow> built (b_AckCounter c b)"
| Vendor: "built b \<Longrightarrow> built (b_Vendor i b)"
| Payload: "built b \<Longrightarrow> built (b_Payload v b)"

lemma flag_bits:
  "SourcePresent (f OR 4)" "SourcePresent ((f AND - 4) OR 1) = SourcePresent f"
  "SourcePresent ((f AND - 4) OR 2) = SourcePresent f"
  "DSIZ (f OR 4) = DSIZ f" "DSIZ ((f AND - 4) OR 1) = 1" "DSIZ ((f AND - 4) OR 2) = 2"
  "(f OR 4) AND 0xF0 = f AND 0xF0" "((f AND - 4) OR 1) AND 0xF0 = f AND 0xF0"
  "((f AND - 4) OR 2) AND 0xF0 = f AND (0xF0 :: u8)"
  by (simp_all add: SourcePresent_def DSIZ_def bit.conj_disj_distrib2 and.assoc)

lemma Has_or:
  "Has (f OR 1) 16 = Has f 16" "Has (f OR 4) 16 = Has f 16" "Has (f OR 2) 16 = Has f 16" "Has (f OR 16) 16"
  "Has (f OR 1) 2 = Has f 2" "Has (f OR 4) 2 = Has f 2" "Has (f OR 16) 2 = Has f 2" "Has (f OR 2) 2"
  by (simp_all add: Has_def bit.conj_disj_distrib2)

lemma built_wf: "built b \<Longrightarrow> frame_wf (b_frame b)"
proof (induction rule: built.induct)
  case new
  show ?case
    by (simp add: NewBuilder_def frame_wf_def header_wf_def payload_header_wf_def zero_header_def
        zero_payload_header_def SourcePresent_def DSIZ_def)
next
  case (Payload b v)
  then show ?case
    by (auto simp: builder_defs frame_wf_def Let_def split: payload_arg.splits sum.splits)
next
  case (DestGroupID b i)
  then show ?case
    using unsigned_less [of i, where ?'a = nat]
    by (auto simp: builder_defs frame_wf_def header_wf_def flag_bits unat_ucast_up)
qed (auto simp: builder_defs frame_wf_def header_wf_def payload_header_wf_def flag_bits Has_or)

section \<open>Properties\<close>

text \<open>
  C7: frames on the wire are canonical. A datagram decodes to a frame exactly when the
  frame is well-formed and encodes to that datagram, byte for byte; in particular decoding
  then re-encoding, and encoding then decoding, are both the identity.
\<close>

theorem frame_wire_format:
  "Frame_Decode b = Inr f \<longleftrightarrow> frame_wf f \<and> Frame_Encode f = Inr b"
  using frame_dec_enc [of f] frame_enc_dec [of b f] by auto

text \<open>
  C17: whatever chain of builder calls produced it, a frame that \<^verbatim>\<open>Build\<close> returns can
  be encoded, decodes back to itself, and names a protocol or an opcode. The builder keeps
  the presence flags consistent with the fields it sets.
\<close>

theorem builder_frames_survive_the_wire:
  assumes "built b" "b_Build b = Inr f"
  shows "\<exists>bs. Frame_Encode f = Inr bs \<and> Frame_Decode bs = Inr f
    \<and> (ph_ProtocolID (f_PayloadHeader f) \<noteq> 0 \<or> ph_Opcode (f_PayloadHeader f) \<noteq> 0)"
proof -
  have f: "f = b_frame b" "ph_ProtocolID (f_PayloadHeader f) \<noteq> 0 \<or> ph_Opcode (f_PayloadHeader f) \<noteq> 0"
    using assms(2) by (auto simp: b_Build_def Let_def split: option.splits if_splits)
  then show ?thesis using frame_dec_enc [OF built_wf [OF assms(1)]] by blast
qed

definition ack_builder :: builder where
  "ack_builder = b_AckCounter 7 (b_Opcode OpcodePASEPake1 (b_DestGroupID 5 (b_DestNodeID 9
     (b_SourceNodeID 3 NewBuilder))))"

lemmas ack_simps = ack_builder_def NewBuilder_def b_AckCounter_def b_Opcode_def b_DestGroupID_def
  b_DestNodeID_def b_SourceNodeID_def upd_header_def upd_payload_header_def zero_header_def zero_payload_header_def

theorem builder_frames_survive_the_wire_witness:
  "\<exists>f. built ack_builder \<and> b_Build ack_builder = Inr f \<and> h_Flags (f_Header f) = 0x06
     \<and> (\<exists>bs. Frame_Encode f = Inr bs \<and> Frame_Decode bs = Inr f
       \<and> (ph_ProtocolID (f_PayloadHeader f) \<noteq> 0 \<or> ph_Opcode (f_PayloadHeader f) \<noteq> 0))"
proof -
  have b: "built ack_builder"
    unfolding ack_builder_def by (intro built.intros)
  have f: "b_Build ack_builder = Inr (b_frame ack_builder)" "h_Flags (f_Header (b_frame ack_builder)) = 0x06"
    by (simp_all add: b_Build_def ack_simps)
  show ?thesis using b f builder_frames_survive_the_wire [OF b f(1)] by blast
qed

section \<open>The first failing payload is what the builder reports\<close>

datatype builder_op =
    OpSessionID u16 | OpMessageCounter u32 | OpSourceNodeID u64 | OpDestNodeID u64 | OpDestGroupID u16
  | OpUnsecured | OpProtocol u16 | OpOpcode u8 | OpExchangeID u16 | OpInitiator | OpRequestAck
  | OpAckCounter u32 | OpVendor u16 | OpPayload payload_arg

fun apply_op :: "builder_op \<Rightarrow> builder \<Rightarrow> builder" where
  "apply_op (OpSessionID i) = b_SessionID i"
| "apply_op (OpMessageCounter c) = b_MessageCounter c"
| "apply_op (OpSourceNodeID n) = b_SourceNodeID n"
| "apply_op (OpDestNodeID n) = b_DestNodeID n"
| "apply_op (OpDestGroupID i) = b_DestGroupID i"
| "apply_op OpUnsecured = b_Unsecured"
| "apply_op (OpProtocol i) = b_Protocol i"
| "apply_op (OpOpcode k) = b_Opcode k"
| "apply_op (OpExchangeID i) = b_ExchangeID i"
| "apply_op OpInitiator = b_Initiator"
| "apply_op OpRequestAck = b_RequestAck"
| "apply_op (OpAckCounter c) = b_AckCounter c"
| "apply_op (OpVendor i) = b_Vendor i"
| "apply_op (OpPayload v) = b_Payload v"

fun marshal_failure :: "builder_op \<Rightarrow> builder_error option" where
  "marshal_failure (OpPayload (PValue v)) =
     (case tlv_Marshal v of Inl e \<Rightarrow> Some (PayloadMarshalFailed e) | Inr _ \<Rightarrow> None)"
| "marshal_failure _ = None"

lemma apply_op_err:
  "b_err (apply_op op b) = (case b_err b of Some e \<Rightarrow> Some e | None \<Rightarrow> marshal_failure op)"
  by (cases op rule: marshal_failure.cases)
    (auto simp: builder_defs Let_def split: option.splits sum.splits payload_arg.splits)

lemma fold_op_err:
  "b_err (fold apply_op ops b) =
     (case b_err b of Some e \<Rightarrow> Some e
      | None \<Rightarrow> (case List.map_filter marshal_failure ops of [] \<Rightarrow> None | e # _ \<Rightarrow> Some e))"
  by (induction ops arbitrary: b) (auto simp: apply_op_err map_filter_simps split: option.splits list.splits)

text \<open>
  C18: a chain of builder calls fails in \<^verbatim>\<open>Build\<close> with the error of the first payload
  that could not be marshalled, whatever came after it; if every payload could, it fails
  only when neither a protocol nor an opcode was set.
\<close>

theorem builder_reports_first_failure:
  "b_Build (fold apply_op ops NewBuilder) =
     (case List.map_filter marshal_failure ops of
        e # _ \<Rightarrow> Inl e
      | [] \<Rightarrow> (let f = b_frame (fold apply_op ops NewBuilder) in
          if ph_ProtocolID (f_PayloadHeader f) = 0 \<and> ph_Opcode (f_PayloadHeader f) = 0
          then Inl MissingProtocolOpcode else Inr f))"
proof -
  have "b_err NewBuilder = None" by (simp add: NewBuilder_def)
  then show ?thesis by (simp add: b_Build_def fold_op_err Let_def split: list.splits)
qed

end
