(* ===== verification/Crypto.thy ===== *)
theory Crypto
  imports Prelude
begin

text \<open>
  \<^verbatim>\<open>crypto/crypto.go\<close> and \<^verbatim>\<open>crypto/session_keys.go\<close>: the AES-CCM provider, HKDF,
  nonces and the derivation of the session keys. The primitives themselves live outside
  the repository (\<^verbatim>\<open>pion/dtls\<close>'s CCM over \<^verbatim>\<open>crypto/aes\<close>,
  \<^verbatim>\<open>golang.org/x/crypto/hkdf\<close>); they are the functions of a \<open>primitives\<close> record, and
  what the code relies on is stated by \<open>ccm_lawful\<close> and \<open>hkdf_lawful\<close>.
\<close>

section \<open>Primitives\<close>

text \<open>
  \<open>ccm_seal key nonce plaintext aad\<close> is \<open>None\<close> when the implementation panics (a
  message longer than the format allows); \<open>ccm_open\<close> is \<open>None\<close> when authentication
  fails; \<open>hkdf_read secret salt info n\<close> is the first \<open>n\<close> bytes of the HKDF stream,
  \<open>None\<close> beyond its limit of 255 blocks.
\<close>

record primitives =
  ccm_seal :: "bytes \<Rightarrow> bytes \<Rightarrow> bytes \<Rightarrow> bytes \<Rightarrow> bytes option"
  ccm_open :: "bytes \<Rightarrow> bytes \<Rightarrow> bytes \<Rightarrow> bytes \<Rightarrow> bytes option"
  hkdf_read :: "bytes \<Rightarrow> bytes \<Rightarrow> bytes \<Rightarrow> nat \<Rightarrow> bytes option"

text \<open>
  CCM is deterministic and authenticated: a ciphertext opens to a plaintext exactly when
  it is the sealing of that plaintext under the same key, nonce and associated data.
\<close>

definition ccm_lawful :: "'x primitives_scheme \<Rightarrow> bool" where
  "ccm_lawful P \<longleftrightarrow>
     (\<forall>key nonce pt ct aad. ccm_open P key nonce ct aad = Some pt \<longleftrightarrow> ccm_seal P key nonce pt aad = Some ct)"

text \<open>RFC 5869: the stream has \<open>255 * 32\<close> bytes for SHA-256.\<close>

definition hkdf_lawful :: "'x primitives_scheme \<Rightarrow> bool" where
  "hkdf_lawful P \<longleftrightarrow>
     (\<forall>secret salt info n. n \<le> 255 * 32 \<longrightarrow> (\<exists>out. hkdf_read P secret salt info n = Some out \<and> length out = n))"

datatype crypto_error =
    ErrInvalidNonceSize
  | AesKeySize nat
  | SealPanic
  | OpenFailed
  | HKDFLengthNegative
  | HKDFExpandFailed
  | ErrCounterExhausted
  | KeEmpty

definition MatterNonceSize :: nat where "MatterNonceSize = 13"
definition MatterTagSize :: nat where "MatterTagSize = 16"

section \<open>The provider\<close>

text \<open>
  \<^verbatim>\<open>newMatterCCM\<close>: the nonce size, then \<^verbatim>\<open>aes.NewCipher\<close>, which takes keys of
  16, 24 or 32 bytes. \<^verbatim>\<open>ccm.NewCCM\<close> accepts a tag of 16 and a nonce of 13 bytes.
\<close>

definition newMatterCCM :: "bytes \<Rightarrow> bytes \<Rightarrow> crypto_error + unit" where
  "newMatterCCM key nonce =
     (if length nonce \<noteq> MatterNonceSize then Inl ErrInvalidNonceSize
      else if length key \<notin> {16, 24, 32} then Inl (AesKeySize (length key))
      else Inr ())"

definition crypto_Encrypt :: "'x primitives_scheme \<Rightarrow> bytes \<Rightarrow> bytes \<Rightarrow> bytes \<Rightarrow> bytes \<Rightarrow> crypto_error + bytes" where
  "crypto_Encrypt P key nonce plaintext aad =
     (case newMatterCCM key nonce of Inl e \<Rightarrow> Inl e
      | Inr _ \<Rightarrow>
          (case ccm_seal P key nonce plaintext aad of None \<Rightarrow> Inl SealPanic | Some ct \<Rightarrow> Inr ct))"

definition crypto_Decrypt :: "'x primitives_scheme \<Rightarrow> bytes \<Rightarrow> bytes \<Rightarrow> bytes \<Rightarrow> bytes \<Rightarrow> crypto_error + bytes" where
  "crypto_Decrypt P key nonce ciphertext aad =
     (case newMatterCCM key nonce of Inl e \<Rightarrow> Inl e
      | Inr _ \<Rightarrow>
          (case ccm_open P key nonce ciphertext aad of None \<Rightarrow> Inl OpenFailed | Some pt \<Rightarrow> Inr pt))"

definition HKDF :: "'x primitives_scheme \<Rightarrow> bytes \<Rightarrow> bytes \<Rightarrow> bytes \<Rightarrow> int \<Rightarrow> crypto_error + bytes" where
  "HKDF P secret salt info len =
     (if len < 0 then Inl HKDFLengthNegative
      else case hkdf_read P secret salt info (nat len) of
             None \<Rightarrow> Inl HKDFExpandFailed
           | Some out \<Rightarrow> Inr out)"

definition DeriveKeys :: "'x primitives_scheme \<Rightarrow> bytes \<Rightarrow> bytes \<Rightarrow> bytes \<Rightarrow> crypto_error + bytes" where
  "DeriveKeys P secret salt info = HKDF P secret salt info 16"

section \<open>Session keys\<close>

record session_keys =
  I2RKey :: bytes
  R2IKey :: bytes
  AttestationChallenge :: bytes

definition str_bytes :: "string \<Rightarrow> bytes" where
  "str_bytes s = map of_char s"

definition SessionKeyInfo :: string where "SessionKeyInfo = ''SessionKeys''"

definition DeriveSessionKeysFromKe :: "'x primitives_scheme \<Rightarrow> bytes \<Rightarrow> crypto_error + session_keys" where
  "DeriveSessionKeysFromKe P ke =
     (if length ke = 0 then Inl KeEmpty
      else case HKDF P ke [] (str_bytes SessionKeyInfo) 48 of Inl e \<Rightarrow> Inl e
           | Inr out \<Rightarrow> Inr \<lparr>I2RKey = take 16 out, R2IKey = take 16 (drop 16 out),
                            AttestationChallenge = take 16 (drop 32 out)\<rparr>)"

section \<open>Nonces\<close>

definition BuildNonce :: "u8 \<Rightarrow> u32 \<Rightarrow> u64 \<Rightarrow> bytes" where
  "BuildNonce securityFlags messageCounter sourceNodeID =
     [securityFlags] @ PutUint32 messageCounter @ PutUint64 sourceNodeID"

record nonce_generator =
  ng_SourceNodeID :: u64
  ng_SecurityFlags :: u8
  ng_Counter :: u32

definition NextNonce :: "nonce_generator \<Rightarrow> (crypto_error + bytes) \<times> nonce_generator" where
  "NextNonce ng =
     (if ng_Counter ng = 0xFFFFFFFF then (Inl ErrCounterExhausted, ng)
      else let ng' = ng\<lparr>ng_Counter := ng_Counter ng + 1\<rparr>
           in (Inr (BuildNonce (ng_SecurityFlags ng') (ng_Counter ng') (ng_SourceNodeID ng')), ng'))"

lemma length_BuildNonce [simp]: "length (BuildNonce f c s) = MatterNonceSize"
  by (simp add: BuildNonce_def MatterNonceSize_def)

lemma PutUint_eq_iff [simp]:
  "PutUint16 a = PutUint16 b \<longleftrightarrow> a = b" "PutUint32 c = PutUint32 d \<longleftrightarrow> c = d" "PutUint64 e = PutUint64 f \<longleftrightarrow> e = f"
  by (metis Uint_PutUint(1), metis Uint_PutUint(2), metis Uint_PutUint(3))

lemma BuildNonce_inj [simp]: "BuildNonce f c s = BuildNonce f' c' s' \<longleftrightarrow> f = f' \<and> c = c' \<and> s = s'"
  by (simp add: BuildNonce_def)

section \<open>Counter sources\<close>

text \<open>
  The contract shared by every outbound counter: each successful call moves the 32-bit
  counter up by one and labels its output with the new value, and at the largest value the
  call fails without changing anything. \<open>drain next k s\<close> is what \<open>k\<close> calls give out.
\<close>

fun drain :: "('s \<Rightarrow> ('e + 'o) \<times> 's) \<Rightarrow> nat \<Rightarrow> 's \<Rightarrow> 'o list" where
  "drain nxt 0 s = []"
| "drain nxt (Suc k) s =
     (case nxt s of (Inl e, s') \<Rightarrow> drain nxt k s' | (Inr x, s') \<Rightarrow> x # drain nxt k s')"

locale counter_source =
  fixes nxt :: "'s \<Rightarrow> (crypto_error + 'o) \<times> 's"
    and ctr :: "'s \<Rightarrow> u32"
    and label :: "'o \<Rightarrow> u32"
  assumes nxt_ok: "ctr s \<noteq> 0xFFFFFFFF \<Longrightarrow> \<exists>x s'. nxt s = (Inr x, s') \<and> ctr s' = ctr s + 1 \<and> label x = ctr s'"
    and nxt_exhausted: "ctr s = 0xFFFFFFFF \<Longrightarrow> nxt s = (Inl ErrCounterExhausted, s)"
begin

lemma drain_labels:
  "map (\<lambda>x. unat (label x)) (drain nxt k s) = [Suc (unat (ctr s))..<Suc (unat (ctr s)) + min k (0xFFFFFFFF - unat (ctr s))]"
proof (induction k arbitrary: s)
  case 0
  then show ?case by simp
next
  case (Suc k)
  show ?case
  proof (cases "ctr s = 0xFFFFFFFF")
    case True
    with Suc show ?thesis by (simp add: nxt_exhausted)
  next
    case False
    then obtain x s' where n: "nxt s = (Inr x, s')" "ctr s' = ctr s + 1" "label x = ctr s'"
      using nxt_ok by blast
    have c: "unat (ctr s') = Suc (unat (ctr s))" using n(2) False by (simp add: unat_succ_u32)
    have "unat (ctr s') \<le> 0xFFFFFFFF" using unsigned_less [of "ctr s'", where ?'a = nat] by simp
    then have "min (Suc k) (0xFFFFFFFF - unat (ctr s)) = Suc (min k (0xFFFFFFFF - unat (ctr s')))"
      using c by simp
    then show ?thesis
      using n Suc [of s'] c by (simp add: upt_conv_Cons del: upt_Suc)
  qed
qed

lemma drain_labels_distinct: "distinct (map label (drain nxt k s))"
proof -
  have "distinct (map (\<lambda>x. unat (label x)) (drain nxt k s))"
    unfolding drain_labels by simp
  then show ?thesis by (simp add: distinct_map inj_on_def)
qed

lemma drain_distinct: "distinct (drain nxt k s)"
  using drain_labels_distinct distinct_map by blast

lemma length_drain: "length (drain nxt k s) = min k (0xFFFFFFFF - unat (ctr s))"
  using arg_cong [OF drain_labels [of k s], of length] by (simp del: upt_Suc)

end

interpretation ng: counter_source NextNonce ng_Counter "\<lambda>nonce. Uint32 (drop 1 nonce)"
  by unfold_locales (auto simp: NextNonce_def Let_def BuildNonce_def)

section \<open>Results of the provider\<close>

lemma hkdf_lawful_read:
  "hkdf_lawful P \<Longrightarrow> n \<le> 8160 \<Longrightarrow> \<exists>out. hkdf_read P secret salt info n = Some out \<and> length out = n"
  by (simp add: hkdf_lawful_def)

lemma crypto_Encrypt_Inr:
  "crypto_Encrypt P k n pt aad = Inr ct \<longleftrightarrow> newMatterCCM k n = Inr () \<and> ccm_seal P k n pt aad = Some ct"
  by (auto simp: crypto_Encrypt_def split: sum.splits option.splits)

lemma crypto_Decrypt_Inr:
  "crypto_Decrypt P k n ct aad = Inr pt \<longleftrightarrow> newMatterCCM k n = Inr () \<and> ccm_open P k n ct aad = Some pt"
  by (auto simp: crypto_Decrypt_def split: sum.splits option.splits)

lemma DeriveSessionKeys_lengths:
  assumes "hkdf_lawful P" "ke \<noteq> []"
  obtains keys where "DeriveSessionKeysFromKe P ke = Inr keys"
    "length (I2RKey keys) = 16" "length (R2IKey keys) = 16" "length (AttestationChallenge keys) = 16"
proof -
  obtain out where "hkdf_read P ke [] (str_bytes SessionKeyInfo) 48 = Some out" "length out = 48"
    using assms(1) [unfolded hkdf_lawful_def, rule_format, of 48 ke "[]" "str_bytes SessionKeyInfo"] by auto
  then show ?thesis using assms(2)
    by (intro that [of "\<lparr>I2RKey = take 16 out, R2IKey = take 16 (drop 16 out),
        AttestationChallenge = take 16 (drop 32 out)\<rparr>"])
      (auto simp: DeriveSessionKeysFromKe_def HKDF_def)
qed

section \<open>An instance of the primitives\<close>

text \<open>
  A small instance that satisfies both laws: the tag repeats the byte sum of key, nonce,
  associated data and plaintext, and the key stream counts up from the byte sum of its
  inputs. It serves to show that the hypotheses can hold.
\<close>

definition byte_sum :: "bytes \<Rightarrow> byte" where
  "byte_sum b = sum_list b"

definition sum_seal :: "bytes \<Rightarrow> bytes \<Rightarrow> bytes \<Rightarrow> bytes \<Rightarrow> bytes option" where
  "sum_seal key nonce pt aad = Some (replicate 16 (byte_sum (key @ nonce @ pt @ aad)) @ pt)"

definition sum_open :: "bytes \<Rightarrow> bytes \<Rightarrow> bytes \<Rightarrow> bytes \<Rightarrow> bytes option" where
  "sum_open key nonce ct aad =
     (let pt = drop 16 ct in
      if take 16 ct = replicate 16 (byte_sum (key @ nonce @ pt @ aad)) then Some pt else None)"

definition sum_hkdf :: "bytes \<Rightarrow> bytes \<Rightarrow> bytes \<Rightarrow> nat \<Rightarrow> bytes option" where
  "sum_hkdf secret salt info n =
     (if n \<le> 255 * 32 then Some (map (\<lambda>j. byte_sum (secret @ salt @ info) + of_nat j) [0..<n]) else None)"

definition sum_primitives :: primitives where
  "sum_primitives = \<lparr>ccm_seal = sum_seal, ccm_open = sum_open, hkdf_read = sum_hkdf\<rparr>"

lemma sum_primitives_lawful: "ccm_lawful sum_primitives" "hkdf_lawful sum_primitives"
proof -
  have "sum_open k n ct a = Some pt \<longleftrightarrow> sum_seal k n pt a = Some ct" for k n ct a pt
    by (auto simp: sum_open_def sum_seal_def Let_def) (metis append_take_drop_id)
  then show "ccm_lawful sum_primitives" by (simp add: ccm_lawful_def sum_primitives_def)
  show "hkdf_lawful sum_primitives" by (simp add: hkdf_lawful_def sum_primitives_def sum_hkdf_def)
qed

section \<open>Properties\<close>

text \<open>
  C19: a nonce generator never repeats itself. However often it is called, the nonces it
  gives out are pairwise different and 13 bytes long, there are as many as calls until the
  32-bit counter reaches its largest value, and from then on every call fails: the counter
  does not wrap.
\<close>

theorem nonces_never_repeat:
  "distinct (drain NextNonce k ng)
   \<and> map length (drain NextNonce k ng) = replicate (min k (0xFFFFFFFF - unat (ng_Counter ng))) MatterNonceSize
   \<and> (ng_Counter ng = 0xFFFFFFFF \<longleftrightarrow> NextNonce ng = (Inl ErrCounterExhausted, ng))"
proof (intro conjI)
  show "distinct (drain NextNonce k ng)" by (rule ng.drain_distinct)
  have "length x = MatterNonceSize" if "x \<in> set (drain NextNonce k ng)" for x
    using that by (induction k arbitrary: ng) (auto simp: NextNonce_def Let_def split: if_splits)
  then show "map length (drain NextNonce k ng) = replicate (min k (0xFFFFFFFF - unat (ng_Counter ng))) MatterNonceSize"
    unfolding ng.length_drain [symmetric] by (simp add: map_replicate_const [symmetric] cong: map_cong)
  show "ng_Counter ng = 0xFFFFFFFF \<longleftrightarrow> NextNonce ng = (Inl ErrCounterExhausted, ng)"
    by (auto simp: NextNonce_def Let_def)
qed

text \<open>
  C20: the three session keys partition the first 48 bytes of the HKDF stream of the shared
  secret: they exist for every non-empty secret, have the AES-128 length, and an empty
  secret is refused.
\<close>

theorem session_keys_partition_the_stream:
  assumes "hkdf_lawful P" "ke \<noteq> []"
  shows "\<exists>keys. DeriveSessionKeysFromKe P ke = Inr keys
    \<and> hkdf_read P ke [] (str_bytes SessionKeyInfo) 48 = Some (I2RKey keys @ R2IKey keys @ AttestationChallenge keys)
    \<and> length (I2RKey keys) = 16 \<and> length (R2IKey keys) = 16 \<and> length (AttestationChallenge keys) = 16
    \<and> DeriveSessionKeysFromKe P [] = Inl KeEmpty"
proof -
  obtain out where o: "hkdf_read P ke [] (str_bytes SessionKeyInfo) 48 = Some out" "length out = 48"
    using assms(1) [unfolded hkdf_lawful_def, rule_format, of 48 ke "[]" "str_bytes SessionKeyInfo"] by auto
  have "take 16 out @ take 16 (drop 16 out) @ take 16 (drop 32 out) = out"
    using take_add [of 16 16 out] append_take_drop_id [of 32 out] o(2) by simp
  then show ?thesis using o assms(2) by (auto simp: DeriveSessionKeysFromKe_def HKDF_def)
qed

theorem session_keys_partition_the_stream_witness:
  "\<exists>keys. DeriveSessionKeysFromKe sum_primitives [7] = Inr keys
    \<and> hkdf_read sum_primitives [7] [] (str_bytes SessionKeyInfo) 48
        = Some (I2RKey keys @ R2IKey keys @ AttestationChallenge keys)
    \<and> length (I2RKey keys) = 16 \<and> length (R2IKey keys) = 16 \<and> length (AttestationChallenge keys) = 16
    \<and> DeriveSessionKeysFromKe sum_primitives [] = Inl KeEmpty"
  by (rule session_keys_partition_the_stream [OF sum_primitives_lawful(2)]) simp

end
