(* ===== verification/Session.thy ===== *)
theory Session
  imports Crypto Message_Header
begin

text \<open>
  \<^verbatim>\<open>session/session.go\<close>: secure sessions, the session table, payload protection and
  the inbound replay window. A session manager is its table, a map from session ids to
  sessions; the payload handler it stores is never called by the package, and its crypto
  provider is the default one over the primitives \<open>P\<close>. The table owns its sessions:
  \<open>NextOutboundCounter\<close> through the pointer a caller got from the table is
  \<open>sm_NextOutboundCounter\<close> on the entry.
\<close>

datatype session_error =
    ErrUnknownSession
  | ErrReplayedMessageCounter
  | ParseOutboundHeader message_error
  | ParseInboundHeader message_error
  | SessionCrypto crypto_error

definition UnsecuredSessionID :: u16 where [simp]: "UnsecuredSessionID = 0"
definition UnspecifiedNodeID :: u64 where [simp]: "UnspecifiedNodeID = 0"
definition MessageCounterWindowSize :: u32 where [simp]: "MessageCounterWindowSize = 32"

section \<open>Replay window\<close>

record replayWindow =
  rw_max :: u32
  rw_bitmap :: u32

definition newReplayWindow :: replayWindow where
  "newReplayWindow = \<lparr>rw_max = 0, rw_bitmap = 0\<rparr>"

text \<open>\<open>check\<close> returns the commit closure, a function on the window, or the rejection.\<close>

definition check :: "replayWindow \<Rightarrow> u32 \<Rightarrow> session_error + (replayWindow \<Rightarrow> replayWindow)" where
  "check w c =
     (if rw_max w = 0 then Inr (\<lambda>w. w\<lparr>rw_max := c\<rparr>)
      else if rw_max w < c then
        let shift = c - rw_max w in
        Inr (\<lambda>w. (if 32 \<le> shift then w\<lparr>rw_bitmap := 0\<rparr>
                  else w\<lparr>rw_bitmap := push_bit (unat shift) (rw_bitmap w)
                                       OR push_bit (unat (shift - 1)) 1\<rparr>)\<lparr>rw_max := c\<rparr>)
      else if c = rw_max w \<or> MessageCounterWindowSize < rw_max w - c then
        Inl ErrReplayedMessageCounter
      else
        let b = push_bit (unat (rw_max w - c - 1)) 1 in
        if rw_bitmap w AND b \<noteq> 0 then Inl ErrReplayedMessageCounter
        else Inr (\<lambda>w. w\<lparr>rw_bitmap := rw_bitmap w OR b\<rparr>))"

text \<open>
  What the window remembers, as a predicate on counters; the contract of a replay filter;
  and the counters a filter lets through when each accepted one is committed.
\<close>

definition rw_mem :: "replayWindow \<Rightarrow> nat \<Rightarrow> bool" where
  "rw_mem w n \<longleftrightarrow> rw_max w \<noteq> 0 \<and>
     (n = unat (rw_max w)
      \<or> n < unat (rw_max w) \<and> unat (rw_max w) - n \<le> 32 \<and> bit (rw_bitmap w) (unat (rw_max w) - n - 1))"

definition rw_inv :: "replayWindow \<Rightarrow> bool" where
  "rw_inv w \<longleftrightarrow> (rw_max w = 0 \<longrightarrow> rw_bitmap w = 0)"

fun accepted :: "('w \<Rightarrow> u32 \<Rightarrow> 'e + ('w \<Rightarrow> 'w)) \<Rightarrow> 'w \<Rightarrow> u32 list \<Rightarrow> u32 list" where
  "accepted chk w [] = []"
| "accepted chk w (c # cs) =
     (case chk w c of Inl e \<Rightarrow> accepted chk w cs | Inr commit \<Rightarrow> c # accepted chk (commit w) cs)"

text \<open>No accepted counter lies exactly 32 above the highest one before it.\<close>

fun no_jump_32 :: "('w \<Rightarrow> u32 \<Rightarrow> 'e + ('w \<Rightarrow> 'w)) \<Rightarrow> ('w \<Rightarrow> nat) \<Rightarrow> 'w \<Rightarrow> u32 list \<Rightarrow> bool" where
  "no_jump_32 chk hi w [] = True"
| "no_jump_32 chk hi w (c # cs) =
     (case chk w c of Inl e \<Rightarrow> no_jump_32 chk hi w cs
      | Inr commit \<Rightarrow> (hi w = 0 \<or> unat c \<noteq> hi w + 32) \<and> no_jump_32 chk hi (commit w) cs)"

text \<open>
  What the window is meant to be: a filter that remembers every counter it accepted (and
  the highest one), lets new highest counters through, and lets a counter at most 32 below
  the highest through once.
\<close>

definition window_spec :: "nat \<times> nat set \<Rightarrow> u32 \<Rightarrow> session_error + (nat \<times> nat set \<Rightarrow> nat \<times> nat set)" where
  "window_spec st c =
     (if fst st < unat c \<or> fst st - unat c \<le> 32 \<and> unat c \<notin> snd st
      then Inr (\<lambda>st. (max (fst st) (unat c), insert (unat c) (snd st)))
      else Inl ErrReplayedMessageCounter)"

locale replay_filter =
  fixes chk :: "'w \<Rightarrow> u32 \<Rightarrow> 'e + ('w \<Rightarrow> 'w)"
    and hi :: "'w \<Rightarrow> nat" and mem :: "'w \<Rightarrow> nat \<Rightarrow> bool" and wok :: "'w \<Rightarrow> bool"
  assumes accept_iff:
      "wok w \<Longrightarrow> (\<exists>commit. chk w c = Inr commit) \<longleftrightarrow> hi w < unat c \<or> hi w - unat c \<le> 32 \<and> \<not> mem w (unat c)"
    and commit_inv: "wok w \<Longrightarrow> chk w c = Inr commit \<Longrightarrow> wok (commit w)"
    and commit_top: "wok w \<Longrightarrow> chk w c = Inr commit \<Longrightarrow> hi (commit w) = max (hi w) (unat c)"
    and commit_mem: "wok w \<Longrightarrow> chk w c = Inr commit \<Longrightarrow> c \<noteq> 0 \<Longrightarrow>
      mem (commit w) n \<longleftrightarrow>
        n = unat c \<or> mem w n \<and> max (hi w) (unat c) - n \<le> 32 \<and> \<not> (hi w < unat c \<and> unat c = hi w + 32)"
    and mem_top: "wok w \<Longrightarrow> mem w n \<Longrightarrow> n \<le> hi w \<and> 0 < hi w"
begin

text \<open>
  The window state summarises the history \<open>A\<close> of accepted counters: each is remembered or
  too old to be accepted.
\<close>

definition covers :: "'w \<Rightarrow> nat set \<Rightarrow> bool" where
  "covers w A \<longleftrightarrow> (\<forall>a\<in>A. a \<le> hi w \<and> (mem w a \<or> 32 < hi w - a))"

lemma covers_accept:
  assumes "wok w" "covers w A" "chk w c = Inr commit"
  shows "unat c \<notin> A"
proof
  assume "unat c \<in> A"
  then have "unat c \<le> hi w" "mem w (unat c) \<or> 32 < hi w - unat c"
    using assms(2) by (auto simp: covers_def)
  then show False using accept_iff [OF assms(1), of c] assms(3) by auto
qed

lemma covers_commit:
  assumes "wok w" "covers w A" "chk w c = Inr commit" "c \<noteq> 0" "hi w = 0 \<or> unat c \<noteq> hi w + 32"
  shows "covers (commit w) (insert (unat c) A)"
  unfolding covers_def
proof (intro ballI)
  fix a assume a: "a \<in> insert (unat c) A"
  note top = commit_top [OF assms(1,3)] and mem = commit_mem [OF assms(1,3,4)]
  show "a \<le> hi (commit w) \<and> (mem (commit w) a \<or> 32 < hi (commit w) - a)"
  proof (cases "a = unat c")
    case True
    then show ?thesis using top mem by simp
  next
    case False
    then have le: "a \<le> hi w" and ca: "mem w a \<or> 32 < hi w - a"
      using a assms(2) by (auto simp: covers_def)
    have le': "a \<le> hi (commit w)" using le top by simp
    from ca show ?thesis
    proof
      assume "32 < hi w - a"
      then have "32 < hi (commit w) - a" unfolding top by (auto simp: max_def)
      with le' show ?thesis by blast
    next
      assume m: "mem w a"
      have "\<not> (hi w < unat c \<and> unat c = hi w + 32)"
        using mem_top [OF assms(1) m] assms(5) by auto
      then have "mem (commit w) a \<longleftrightarrow> hi (commit w) - a \<le> 32"
        using m False by (simp add: mem top)
      with le' show ?thesis by auto
    qed
  qed
qed

lemma accepted_distinct_gen:
  assumes "wok w" "covers w A" "0 \<notin> set cs" "no_jump_32 chk hi w cs"
  shows "distinct (accepted chk w cs) \<and> (\<forall>c \<in> set (accepted chk w cs). unat c \<notin> A)"
  using assms
proof (induction cs arbitrary: w A)
  case Nil
  then show ?case by simp
next
  case (Cons c cs)
  show ?case
  proof (cases "chk w c")
    case (Inl e)
    with Cons show ?thesis by simp
  next
    case (Inr commit)
    have "covers (commit w) (insert (unat c) A)"
      using Cons.prems Inr by (intro covers_commit) auto
    then have "distinct (accepted chk (commit w) cs)
        \<and> (\<forall>d \<in> set (accepted chk (commit w) cs). unat d \<notin> insert (unat c) A)"
      using Cons.prems Inr commit_inv by (intro Cons.IH) auto
    then show ?thesis
      using Inr covers_accept [OF Cons.prems(1,2) Inr] by auto
  qed
qed

text \<open>The window and its specification in step: they agree on every counter still in range.\<close>

definition tracks :: "'w \<Rightarrow> nat \<times> nat set \<Rightarrow> bool" where
  "tracks w st \<longleftrightarrow> fst st = hi w \<and> snd st \<subseteq> {1..hi w} \<and>
     (\<forall>n \<le> hi w. hi w - n \<le> 32 \<longrightarrow> (mem w n \<longleftrightarrow> n \<in> snd st))"

lemma tracks_decision:
  assumes "wok w" "tracks w st"
  shows "(\<exists>commit. chk w c = Inr commit) \<longleftrightarrow> (\<exists>commit. window_spec st c = Inr commit)"
  using assms(2) unfolding accept_iff [OF assms(1)]
  by (auto simp: window_spec_def tracks_def not_less)

lemma tracks_commit:
  assumes "wok w" "tracks w st" "chk w c = Inr commit" "window_spec st c = Inr commit'"
    and "c \<noteq> 0" "hi w = 0 \<or> unat c \<noteq> hi w + 32"
  shows "tracks (commit w) (commit' st)"
proof -
  have c': "commit' st = (max (hi w) (unat c), insert (unat c) (snd st))"
    using assms(2,4) by (auto simp: window_spec_def tracks_def split: if_splits)
  note top = commit_top [OF assms(1,3)] and mem = commit_mem [OF assms(1,3,5)]
  have "0 < unat c" using assms(5) by (simp add: unat_gt_0)
  have S: "snd st \<subseteq> {1..hi w}" and M: "n \<le> hi w \<Longrightarrow> hi w - n \<le> 32 \<Longrightarrow> mem w n \<longleftrightarrow> n \<in> snd st" for n
    using assms(2) by (auto simp: tracks_def)
  have "mem (commit w) n \<longleftrightarrow> n \<in> snd (commit' st)"
    if n: "n \<le> hi (commit w)" "hi (commit w) - n \<le> 32" for n
  proof -
    have j: "\<not> (hi w < unat c \<and> unat c = hi w + 32)" if "mem w n"
      using mem_top [OF assms(1) that] assms(6) by auto
    have "mem w n \<longleftrightarrow> n \<in> snd st"
    proof (cases "n \<le> hi w")
      case True
      then show ?thesis using n(2) M [of n] by (simp add: top)
    next
      case False
      then show ?thesis using S mem_top [OF assms(1), of n] by auto
    qed
    then show ?thesis using n j by (auto simp: c' mem top)
  qed
  moreover have "snd (commit' st) \<subseteq> {1..hi (commit w)}"
    using S \<open>0 < unat c\<close> by (fastforce simp: c' top)
  ultimately show ?thesis by (simp add: tracks_def c' top)
qed

lemma accepted_spec:
  assumes "wok w" "tracks w st" "0 \<notin> set cs" "no_jump_32 chk hi w cs"
  shows "accepted chk w cs = accepted window_spec st cs"
  using assms
proof (induction cs arbitrary: w st)
  case Nil
  then show ?case by simp
next
  case (Cons c cs)
  note dec = tracks_decision [OF Cons.prems(1,2), of c]
  show ?case
  proof (cases "chk w c")
    case (Inl e)
    then obtain e' where "window_spec st c = Inl e'" using dec by (cases "window_spec st c") auto
    with Inl Cons show ?thesis by simp
  next
    case (Inr commit)
    then obtain commit' where s: "window_spec st c = Inr commit'" using dec by auto
    have "tracks (commit w) (commit' st)"
      using Cons.prems(3,4) Inr by (intro tracks_commit [OF Cons.prems(1,2) Inr s]) auto
    then have "accepted chk (commit w) cs = accepted window_spec (commit' st) cs"
      using Cons.prems(3,4) Inr by (intro Cons.IH commit_inv [OF Cons.prems(1) Inr]) auto
    then show ?thesis using Inr s by simp
  qed
qed

end

section \<open>The window is a replay filter\<close>

lemma unat_diff_u32: "b \<le> a \<Longrightarrow> unat (a - b :: u32) = unat a - unat b"
  by (simp add: unat_sub)

lemma bitmap_bit: "(x AND push_bit i 1 \<noteq> 0) \<longleftrightarrow> bit (x :: u32) i"
  by (simp add: bit_iff_and_push_bit_not_eq_0)

lemma check_cases:
  obtains (fresh) "rw_max w = 0" "check w c = Inr (\<lambda>w. w\<lparr>rw_max := c\<rparr>)"
  | (above) "rw_max w \<noteq> 0" "unat (rw_max w) < unat c" "\<exists>commit. check w c = Inr commit"
  | (reject) "rw_max w \<noteq> 0" "unat c = unat (rw_max w) \<or> unat c < unat (rw_max w) \<and> 32 < unat (rw_max w) - unat c"
      "check w c = Inl ErrReplayedMessageCounter"
  | (inside) "rw_max w \<noteq> 0" "unat c < unat (rw_max w)" "unat (rw_max w) - unat c \<le> 32"
      "check w c = (if bit (rw_bitmap w) (unat (rw_max w) - unat c - 1) then Inl ErrReplayedMessageCounter
         else Inr (\<lambda>w'. w'\<lparr>rw_bitmap := rw_bitmap w' OR push_bit (unat (rw_max w) - unat c - 1) 1\<rparr>))"
proof (cases "rw_max w = 0")
  case True
  then show ?thesis by (intro fresh) (auto simp: check_def)
next
  case nz: False
  show ?thesis
  proof (cases "rw_max w < c")
    case True
    then show ?thesis using nz by (intro above) (auto simp: check_def word_less_nat_alt Let_def)
  next
    case le: False
    then have d: "unat (rw_max w - c) = unat (rw_max w) - unat c" by (simp add: unat_diff_u32)
    show ?thesis
    proof (cases "c = rw_max w \<or> MessageCounterWindowSize < rw_max w - c")
      case True
      then show ?thesis using nz le d
        by (intro reject) (auto simp: check_def word_less_nat_alt)
    next
      case False
      then have lt: "unat c < unat (rw_max w)" "unat (rw_max w) - unat c \<le> 32"
        using le d by (auto simp: word_less_nat_alt word_unat_eq_iff)
      have "1 \<le> rw_max w - c" using lt(1) by (simp add: word_le_nat_alt d)
      then have b: "unat (rw_max w - c - 1) = unat (rw_max w) - unat c - 1"
        by (simp add: unat_diff_u32 d)
      have "check w c = (if bit (rw_bitmap w) (unat (rw_max w) - unat c - 1) then Inl ErrReplayedMessageCounter
         else Inr (\<lambda>w'. w'\<lparr>rw_bitmap := rw_bitmap w' OR push_bit (unat (rw_max w) - unat c - 1) 1\<rparr>))"
        using nz le False lt bitmap_bit [of "rw_bitmap w" "unat (rw_max w) - unat c - 1"]
        by (simp add: check_def Let_def b)
      then show ?thesis using nz lt by (intro inside)
    qed
  qed
qed

lemma check_above:
  assumes "rw_max w \<noteq> 0" "unat (rw_max w) < unat c" "check w c = Inr commit"
  shows "rw_max (commit w) = c"
    and "unat c - unat (rw_max w) < 32 \<Longrightarrow> rw_bitmap (commit w) =
           push_bit (unat c - unat (rw_max w)) (rw_bitmap w) OR push_bit (unat c - unat (rw_max w) - 1) 1"
    and "32 \<le> unat c - unat (rw_max w) \<Longrightarrow> rw_bitmap (commit w) = 0"
proof -
  have lt: "rw_max w < c" using assms(2) by (simp add: word_less_nat_alt)
  then have d: "unat (c - rw_max w) = unat c - unat (rw_max w)" by (simp add: unat_diff_u32)
  have "1 \<le> c - rw_max w" using assms(2) by (simp add: word_le_nat_alt d)
  then have b: "unat (c - rw_max w - 1) = unat c - unat (rw_max w) - 1"
    by (simp add: unat_diff_u32 d)
  have commit: "commit = (\<lambda>w'. (if 32 \<le> c - rw_max w then w'\<lparr>rw_bitmap := 0\<rparr>
      else w'\<lparr>rw_bitmap := push_bit (unat (c - rw_max w)) (rw_bitmap w')
        OR push_bit (unat (c - rw_max w - 1)) 1\<rparr>)\<lparr>rw_max := c\<rparr>)"
    using assms(1,3) lt by (simp add: check_def Let_def)
  show "rw_max (commit w) = c" by (simp add: commit)
  show "rw_bitmap (commit w) = push_bit (unat c - unat (rw_max w)) (rw_bitmap w)
      OR push_bit (unat c - unat (rw_max w) - 1) 1" if "unat c - unat (rw_max w) < 32"
    using that by (simp add: commit word_le_nat_alt d b)
  show "rw_bitmap (commit w) = 0" if "32 \<le> unat c - unat (rw_max w)"
    using that by (simp add: commit word_le_nat_alt d)
qed

lemma rw_accept_iff:
  assumes "rw_inv w"
  shows "(\<exists>commit. check w c = Inr commit) \<longleftrightarrow>
    unat (rw_max w) < unat c \<or> unat (rw_max w) - unat c \<le> 32 \<and> \<not> rw_mem w (unat c)"
  by (cases rule: check_cases [of w c]) (auto simp: rw_mem_def)

lemma rw_commit_max:
  assumes "check w c = Inr commit"
  shows "unat (rw_max (commit w)) = max (unat (rw_max w)) (unat c)"
proof (cases rule: check_cases [of w c])
  case above
  then show ?thesis using check_above(1) [OF above(1,2) assms] by simp
qed (use assms in \<open>auto split: if_splits\<close>)

lemma rw_commit_inv: "rw_inv w \<Longrightarrow> check w c = Inr commit \<Longrightarrow> rw_inv (commit w)"
proof (cases rule: check_cases [of w c])
  case above
  assume "check w c = Inr commit"
  then have "rw_max (commit w) = c" by (rule check_above(1) [OF above(1,2)])
  then show ?thesis using above(2) by (auto simp: rw_inv_def)
qed (auto simp: rw_inv_def split: if_splits)

lemma rw_mem_above:
  assumes "rw_max w \<noteq> 0" "unat (rw_max w) < unat c" "check w c = Inr commit"
  shows "rw_mem (commit w) n \<longleftrightarrow>
    n = unat c \<or> rw_mem w n \<and> unat c - n \<le> 32 \<and> unat c \<noteq> unat (rw_max w) + 32"
proof -
  let ?m = "unat (rw_max w)"
  note ab = check_above [OF assms]
  have nz: "c \<noteq> 0" using assms(2) by auto
  show ?thesis
  proof (cases "unat c - ?m < 32")
    case True
    have "bit (rw_bitmap (commit w)) (unat c - n - 1) \<longleftrightarrow>
        n = ?m \<or> n < ?m \<and> bit (rw_bitmap w) (?m - n - 1)" if "n < unat c" "unat c - n \<le> 32"
      using that assms(2) by (auto simp: ab(2) [OF True] bit_simps intro: arg_cong [where f = "bit (rw_bitmap w)", THEN iffD1])
    then show ?thesis
      using True assms(1,2) nz by (auto simp: rw_mem_def ab(1))
  next
    case False
    then show ?thesis
      using assms(1,2) nz ab(3) by (auto simp: rw_mem_def ab(1))
  qed
qed

lemma rw_commit_mem:
  assumes "rw_inv w" "check w c = Inr commit" "c \<noteq> 0"
  shows "rw_mem (commit w) n \<longleftrightarrow>
    n = unat c \<or> rw_mem w n \<and> max (unat (rw_max w)) (unat c) - n \<le> 32
      \<and> \<not> (unat (rw_max w) < unat c \<and> unat c = unat (rw_max w) + 32)"
proof (cases rule: check_cases [of w c])
  case fresh
  then show ?thesis using assms by (auto simp: rw_mem_def rw_inv_def)
next
  case above
  then show ?thesis using rw_mem_above [OF above(1,2) assms(2)] by auto
next
  case reject
  then show ?thesis using assms by simp
next
  case inside
  then have commit: "commit w = w\<lparr>rw_bitmap := rw_bitmap w OR push_bit (unat (rw_max w) - unat c - 1) 1\<rparr>"
    using assms(2) by (auto split: if_splits)
  show ?thesis
    using inside(1-3) by (auto simp: rw_mem_def commit bit_simps)
qed

interpretation rw: replay_filter check "\<lambda>w. unat (rw_max w)" rw_mem rw_inv
proof
  fix w n
  assume "rw_mem w n"
  then show "n \<le> unat (rw_max w) \<and> 0 < unat (rw_max w)"
    by (auto simp: rw_mem_def unat_gt_0)
qed (auto simp: rw_accept_iff rw_commit_max rw_commit_inv rw_commit_mem)

section \<open>Sessions and the session table\<close>

datatype role = RoleInitiator | RoleResponder

record session =
  s_ID :: u16
  s_LocalNodeID :: u64
  s_PeerNodeID :: u64
  s_EncryptKey :: bytes
  s_DecryptKey :: bytes
  s_AttestationChallenge :: bytes
  s_OutCounter :: u32
  s_replay :: replayWindow

definition NextOutboundCounter :: "session \<Rightarrow> (crypto_error + u32) \<times> session" where
  "NextOutboundCounter s =
     (if s_OutCounter s = NOT 0 then (Inl ErrCounterExhausted, s)
      else let s' = s\<lparr>s_OutCounter := s_OutCounter s + 1\<rparr> in (Inr (s_OutCounter s'), s'))"

interpretation oc: counter_source NextOutboundCounter s_OutCounter "\<lambda>c. c"
  by unfold_locales (auto simp: NextOutboundCounter_def Let_def)

type_synonym session_manager = "u16 \<rightharpoonup> session"

definition NewSessionManager :: session_manager where
  "NewSessionManager = Map.empty"

definition new_session :: "u16 \<Rightarrow> u64 \<Rightarrow> u64 \<Rightarrow> session_keys \<Rightarrow> role \<Rightarrow> session" where
  "new_session i localNodeID peerNodeID keys role =
     \<lparr>s_ID = i, s_LocalNodeID = localNodeID, s_PeerNodeID = peerNodeID,
      s_EncryptKey = (if role = RoleInitiator then I2RKey keys else R2IKey keys),
      s_DecryptKey = (if role = RoleInitiator then R2IKey keys else I2RKey keys),
      s_AttestationChallenge = AttestationChallenge keys,
      s_OutCounter = 0, s_replay = newReplayWindow\<rparr>"

definition InstallSecureSession ::
  "session_manager \<Rightarrow> u16 \<Rightarrow> u64 \<Rightarrow> u64 \<Rightarrow> session_keys \<Rightarrow> role \<Rightarrow> session_manager" where
  "InstallSecureSession sm i localNodeID peerNodeID keys role =
     sm(i \<mapsto> new_session i localNodeID peerNodeID keys role)"

definition sm_Session :: "session_manager \<Rightarrow> u16 \<Rightarrow> session option" where
  "sm_Session sm i = sm i"

definition sm_NextOutboundCounter ::
  "session_manager \<Rightarrow> u16 \<Rightarrow> (crypto_error + u32) option \<times> session_manager" where
  "sm_NextOutboundCounter sm i =
     (case sm_Session sm i of None \<Rightarrow> (None, sm)
      | Some s \<Rightarrow> (case NextOutboundCounter s of (r, s') \<Rightarrow> (Some r, sm(i \<mapsto> s'))))"

section \<open>Payload protection\<close>

definition EncryptPayload ::
  "'x primitives_scheme \<Rightarrow> session_manager \<Rightarrow> u16 \<Rightarrow> bytes \<Rightarrow> bytes \<Rightarrow> session_error + bytes" where
  "EncryptPayload P sm sessionID payload header =
     (if sessionID = UnsecuredSessionID then Inr payload
      else case sm sessionID of None \<Rightarrow> Inl ErrUnknownSession
      | Some s \<Rightarrow>
          (case Header_Unmarshal zero_header header of
             (h, Inl e) \<Rightarrow> Inl (ParseOutboundHeader e)
           | (h, Inr _) \<Rightarrow>
               let nonce = BuildNonce (h_SecurityFlags h) (h_MessageCounter h) (h_SourceNodeID h) in
               case crypto_Encrypt P (s_EncryptKey s) nonce payload header of
                 Inl e \<Rightarrow> Inl (SessionCrypto e) | Inr ct \<Rightarrow> Inr ct))"

definition DecryptPayload ::
  "'x primitives_scheme \<Rightarrow> session_manager \<Rightarrow> u16 \<Rightarrow> bytes \<Rightarrow> bytes \<Rightarrow> (session_error + bytes) \<times> session_manager" where
  "DecryptPayload P sm sessionID ciphertext header =
     (if sessionID = UnsecuredSessionID then (Inr ciphertext, sm)
      else case sm sessionID of None \<Rightarrow> (Inl ErrUnknownSession, sm)
      | Some s \<Rightarrow>
          (case Header_Unmarshal zero_header header of
             (h, Inl e) \<Rightarrow> (Inl (ParseInboundHeader e), sm)
           | (h, Inr _) \<Rightarrow>
               (case check (s_replay s) (h_MessageCounter h) of
                  Inl e \<Rightarrow> (Inl e, sm)
                | Inr commit \<Rightarrow>
                    let nonce = BuildNonce (h_SecurityFlags h) (h_MessageCounter h) (h_SourceNodeID h) in
                    case crypto_Decrypt P (s_DecryptKey s) nonce ciphertext header of
                      Inl e \<Rightarrow> (Inl (SessionCrypto e), sm)
                    | Inr plaintext \<Rightarrow>
                        (Inr plaintext, sm(sessionID \<mapsto> s\<lparr>s_replay := commit (s_replay s)\<rparr>)))))"

section \<open>The provider's contract and what the session layer gets from it\<close>

text \<open>
  The contract of a \<^verbatim>\<open>CryptoProvider\<close>, for every set of primitives that is lawful:
  what was encrypted decrypts under the same key, nonce and associated data, and nothing
  else does.
\<close>

locale crypto_provider =
  fixes encr :: "'p \<Rightarrow> bytes \<Rightarrow> bytes \<Rightarrow> bytes \<Rightarrow> bytes \<Rightarrow> crypto_error + bytes"
    and decr :: "'p \<Rightarrow> bytes \<Rightarrow> bytes \<Rightarrow> bytes \<Rightarrow> bytes \<Rightarrow> crypto_error + bytes"
    and lawful :: "'p \<Rightarrow> bool"
  assumes decr_iff: "lawful P \<Longrightarrow> decr P k n ct aad = Inr pt \<longleftrightarrow> encr P k n pt aad = Inr ct"
begin

lemma decr_encr: "lawful P \<Longrightarrow> encr P k n pt aad = Inr ct \<Longrightarrow> decr P k n ct aad = Inr pt"
  by (simp add: decr_iff)

lemma encr_inj: "lawful P \<Longrightarrow> encr P k n pt aad = Inr ct \<Longrightarrow> encr P k n pt' aad = Inr ct \<Longrightarrow> pt = pt'"
  by (metis decr_iff sum.inject(2))

end

interpretation dcp: crypto_provider crypto_Encrypt crypto_Decrypt ccm_lawful
  by unfold_locales (auto simp: crypto_Encrypt_Inr crypto_Decrypt_Inr ccm_lawful_def)

text \<open>What a successful decryption means, and what an unsuccessful one leaves behind.\<close>

definition header_of :: "bytes \<Rightarrow> header" where
  "header_of b = fst (Header_Unmarshal zero_header b)"

definition nonce_of :: "header \<Rightarrow> bytes" where
  "nonce_of h = BuildNonce (h_SecurityFlags h) (h_MessageCounter h) (h_SourceNodeID h)"

lemma DecryptPayload_Inr:
  assumes "i \<noteq> UnsecuredSessionID" "DecryptPayload P sm i ct hb = (Inr pt, sm')"
  obtains s n commit where "sm i = Some s" "snd (Header_Unmarshal zero_header hb) = Inr n"
    "check (s_replay s) (h_MessageCounter (header_of hb)) = Inr commit"
    "crypto_Decrypt P (s_DecryptKey s) (nonce_of (header_of hb)) ct hb = Inr pt"
    "sm' = sm(i \<mapsto> s\<lparr>s_replay := commit (s_replay s)\<rparr>)"
  using assms
  by (auto simp: DecryptPayload_def Let_def header_of_def nonce_of_def
      split: option.splits prod.splits sum.splits)

lemma DecryptPayload_Inl: "DecryptPayload P sm i ct hb = (Inl e, sm') \<Longrightarrow> sm' = sm"
  by (auto simp: DecryptPayload_def Let_def split: option.splits prod.splits sum.splits if_splits)

lemma DecryptPayload_accept:
  assumes "i \<noteq> UnsecuredSessionID" "sm i = Some s" "snd (Header_Unmarshal zero_header hb) = Inr n"
    and "check (s_replay s) (h_MessageCounter (header_of hb)) = Inr commit"
    and "crypto_Decrypt P (s_DecryptKey s) (nonce_of (header_of hb)) ct hb = Inr pt"
  shows "DecryptPayload P sm i ct hb = (Inr pt, sm(i \<mapsto> s\<lparr>s_replay := commit (s_replay s)\<rparr>))"
  using assms
  by (cases "Header_Unmarshal zero_header hb") (auto simp: DecryptPayload_def Let_def header_of_def nonce_of_def)

lemma EncryptPayload_Inr:
  assumes "i \<noteq> UnsecuredSessionID" "EncryptPayload P sm i pt hb = Inr ct"
  obtains s n where "sm i = Some s" "snd (Header_Unmarshal zero_header hb) = Inr n"
    "crypto_Encrypt P (s_EncryptKey s) (nonce_of (header_of hb)) pt hb = Inr ct"
  using assms
  by (auto simp: EncryptPayload_def Let_def header_of_def nonce_of_def
      split: option.splits prod.splits sum.splits)

text \<open>
  A run of the receiver: the datagrams (ciphertext and header) for one session, in the
  order they arrive, and the counters of those that were delivered.
\<close>

fun delivered :: "'x primitives_scheme \<Rightarrow> session_manager \<Rightarrow> u16 \<Rightarrow> (bytes \<times> bytes) list \<Rightarrow> u32 list" where
  "delivered P sm i [] = []"
| "delivered P sm i ((ct, hb) # ms) =
     (case DecryptPayload P sm i ct hb of
        (Inl e, sm') \<Rightarrow> delivered P sm' i ms
      | (Inr pt, sm') \<Rightarrow> h_MessageCounter (header_of hb) # delivered P sm' i ms)"

text \<open>The same run seen by the window: only authentic datagrams reach the commit.\<close>

definition authentic :: "'x primitives_scheme \<Rightarrow> bytes \<Rightarrow> bytes \<times> bytes \<Rightarrow> bool" where
  "authentic P key m \<longleftrightarrow> (\<exists>n. snd (Header_Unmarshal zero_header (snd m)) = Inr n)
     \<and> (\<exists>pt. crypto_Decrypt P key (nonce_of (header_of (snd m))) (fst m) (snd m) = Inr pt)"

definition msg_counter :: "bytes \<times> bytes \<Rightarrow> u32" where
  "msg_counter m = h_MessageCounter (header_of (snd m))"

lemma delivered_Cons:
  assumes "i \<noteq> UnsecuredSessionID" "sm i = Some s"
  shows "delivered P sm i (m # ms) =
    (if authentic P (s_DecryptKey s) m
     then (case check (s_replay s) (msg_counter m) of Inl e \<Rightarrow> delivered P sm i ms
           | Inr commit \<Rightarrow> msg_counter m # delivered P (sm(i \<mapsto> s\<lparr>s_replay := commit (s_replay s)\<rparr>)) i ms)
     else delivered P sm i ms)"
  using assms
  by (cases m; cases "Header_Unmarshal zero_header (snd m)")
    (auto simp: DecryptPayload_def Let_def header_of_def nonce_of_def authentic_def msg_counter_def
      split: sum.splits)

lemma delivered_accepted:
  assumes "i \<noteq> UnsecuredSessionID" "sm i = Some s"
  shows "delivered P sm i ms =
    accepted check (s_replay s) (map msg_counter (filter (authentic P (s_DecryptKey s)) ms))"
  using assms(2)
proof (induction ms arbitrary: sm s)
  case Nil
  then show ?case by simp
next
  case (Cons m ms)
  then show ?case
    by (auto simp: delivered_Cons [where i = i and sm = sm, OF assms(1) Cons.prems] simp del: delivered.simps split: sum.splits)
qed

section \<open>A sender and a receiver\<close>

text \<open>
  The use the comments of \<^verbatim>\<open>EncryptPayload\<close> prescribe: draw the outbound counter of the
  session with the sender's own identifier, put it in the header with the peer's identifier, seal
  the payload with the header as associated data. The receiver opens the datagrams in the order
  they come. \<open>ccm_total\<close> is the length limit of CCM with a 13 byte
  nonce: sealing panics only on messages of 64 KiB and more.
\<close>

definition ccm_total :: "'x primitives_scheme \<Rightarrow> bool" where
  "ccm_total P \<longleftrightarrow> (\<forall>key nonce pt aad. length pt < 2 ^ 16 \<longrightarrow> ccm_seal P key nonce pt aad \<noteq> None)"

definition secured_header :: "u16 \<Rightarrow> u32 \<Rightarrow> header" where
  "secured_header i c = zero_header\<lparr>h_SessionID := i, h_MessageCounter := c\<rparr>"

fun transmit :: "'x primitives_scheme \<Rightarrow> session_manager \<Rightarrow> u16 \<Rightarrow> u16 \<Rightarrow> bytes list \<Rightarrow> session_error + (bytes \<times> bytes) list" where
  "transmit P sm i j [] = Inr []"
| "transmit P sm i j (p # ps) =
     (case sm_NextOutboundCounter sm i of
        (None, sm') \<Rightarrow> Inl ErrUnknownSession
      | (Some (Inl e), sm') \<Rightarrow> Inl (SessionCrypto e)
      | (Some (Inr c), sm') \<Rightarrow>
          (case Header_Marshal (secured_header j c) of Inl e \<Rightarrow> Inl (ParseOutboundHeader e)
           | Inr hb \<Rightarrow>
               (case EncryptPayload P sm' i p hb of Inl e \<Rightarrow> Inl e
                | Inr ct \<Rightarrow> (case transmit P sm' i j ps of Inl e \<Rightarrow> Inl e | Inr ms \<Rightarrow> Inr ((ct, hb) # ms)))))"

fun received :: "'x primitives_scheme \<Rightarrow> session_manager \<Rightarrow> u16 \<Rightarrow> (bytes \<times> bytes) list \<Rightarrow> bytes list" where
  "received P sm i [] = []"
| "received P sm i ((ct, hb) # ms) =
     (case DecryptPayload P sm i ct hb of
        (Inl e, sm') \<Rightarrow> received P sm' i ms
      | (Inr pt, sm') \<Rightarrow> pt # received P sm' i ms)"

lemma secured_header_bytes:
  obtains hb where "Header_Marshal (secured_header j c) = Inr hb"
    "Header_Unmarshal zero_header hb = (secured_header j c, Inr (length hb))"
    "header_of hb = secured_header j c"
proof -
  have "header_wf (secured_header j c)"
    by (simp add: header_wf_def secured_header_def zero_header_def SourcePresent_def DSIZ_def)
  from hdr.dec_enc [OF this] obtain hb where "Header_Marshal (secured_header j c) = Inr hb"
    "result_of (Header_Unmarshal zero_header (hb @ [])) = Inr (secured_header j c, length hb)" by blast
  then show ?thesis
    by (intro that [of hb]; cases "Header_Unmarshal zero_header hb")
      (auto simp: header_of_def result_of_def split: sum.splits)
qed

lemma check_next:
  assumes "rw_max w < c"
  obtains commit where "check w c = Inr commit" "rw_max (commit w) = c"
proof (cases rule: check_cases [of w c])
  case above
  then show ?thesis using that check_above(1) [OF above(1,2)] by blast
qed (use assms that in \<open>auto simp: word_less_nat_alt\<close>)

lemma seal_datagram:
  assumes "ccm_total P" "i \<noteq> UnsecuredSessionID" "sm i = Some s" "length (s_EncryptKey s) = 16"
    and "length p < 2 ^ 16" "Header_Marshal (secured_header j c) = Inr hb"
  obtains ct where "EncryptPayload P sm i p hb = Inr ct"
    "crypto_Encrypt P (s_EncryptKey s) (nonce_of (secured_header j c)) p hb = Inr ct"
proof -
  obtain ct where "ccm_seal P (s_EncryptKey s) (nonce_of (secured_header j c)) p hb = Some ct"
    using assms(1,5) by (fastforce simp: ccm_total_def)
  then have c: "crypto_Encrypt P (s_EncryptKey s) (nonce_of (secured_header j c)) p hb = Inr ct"
    using assms(4) by (simp add: crypto_Encrypt_Inr newMatterCCM_def nonce_of_def)
  obtain hb' where "Header_Marshal (secured_header j c) = Inr hb'"
    "Header_Unmarshal zero_header hb' = (secured_header j c, Inr (length hb'))"
    by (rule secured_header_bytes)
  then have "EncryptPayload P sm i p hb = Inr ct"
    using assms c by (simp add: EncryptPayload_def nonce_of_def)
  with c show ?thesis by (rule that [rotated])
qed

lemma transmit_step:
  assumes "ccm_total P" "ccm_lawful P" "i \<noteq> UnsecuredSessionID" "j \<noteq> UnsecuredSessionID" "smI i = Some s" "smR j = Some r"
    and "s_EncryptKey s = s_DecryptKey r" "length (s_EncryptKey s) = 16" "rw_max (s_replay r) \<le> s_OutCounter s"
    and "s_OutCounter s \<noteq> 0xFFFFFFFF" "length p < 2 ^ 16"
  obtains ct hb commit where
    "\<forall>ps. transmit P smI i j (p # ps) =
       (case transmit P (smI(i \<mapsto> s\<lparr>s_OutCounter := s_OutCounter s + 1\<rparr>)) i j ps of
          Inl e \<Rightarrow> Inl e | Inr ms \<Rightarrow> Inr ((ct, hb) # ms))"
    "DecryptPayload P smR j ct hb = (Inr p, smR(j \<mapsto> r\<lparr>s_replay := commit (s_replay r)\<rparr>))"
    "rw_max (commit (s_replay r)) = s_OutCounter s + 1" "msg_counter (ct, hb) = s_OutCounter s + 1"
proof -
  let ?c = "s_OutCounter s + 1" and ?sm = "smI(i \<mapsto> s\<lparr>s_OutCounter := s_OutCounter s + 1\<rparr>)"
  obtain hb where hb: "Header_Marshal (secured_header j ?c) = Inr hb"
    "Header_Unmarshal zero_header hb = (secured_header j ?c, Inr (length hb))" "header_of hb = secured_header j ?c"
    by (rule secured_header_bytes)
  obtain ct where ct: "EncryptPayload P ?sm i p hb = Inr ct"
    "crypto_Encrypt P (s_EncryptKey s) (nonce_of (secured_header j ?c)) p hb = Inr ct"
    by (rule seal_datagram [OF assms(1,3) _ _ assms(11) hb(1), of ?sm "s\<lparr>s_OutCounter := ?c\<rparr>"])
      (use assms(8) in auto)
  have "unat ?c = Suc (unat (s_OutCounter s))" using assms(10) by (simp add: unat_succ_u32)
  then have "rw_max (s_replay r) < ?c" using assms(9) by (simp add: word_less_nat_alt word_le_nat_alt)
  then obtain commit where commit: "check (s_replay r) ?c = Inr commit" "rw_max (commit (s_replay r)) = ?c"
    by (rule check_next)
  have d: "DecryptPayload P smR j ct hb = (Inr p, smR(j \<mapsto> r\<lparr>s_replay := commit (s_replay r)\<rparr>))"
    using dcp.decr_encr [OF assms(2) ct(2)] assms(4,6,7) hb commit
    by (intro DecryptPayload_accept) (auto simp: secured_header_def)
  have n: "NextOutboundCounter s = (Inr ?c, s\<lparr>s_OutCounter := ?c\<rparr>)"
    using oc.nxt_ok [OF assms(10)] by (auto simp: NextOutboundCounter_def Let_def split: if_splits)
  have t: "\<forall>ps. transmit P smI i j (p # ps) =
       (case transmit P ?sm i j ps of Inl e \<Rightarrow> Inl e | Inr ms \<Rightarrow> Inr ((ct, hb) # ms))"
    using assms(5) n hb(1) ct(1) by (simp add: sm_NextOutboundCounter_def sm_Session_def)
  have "msg_counter (ct, hb) = ?c"
    by (simp add: msg_counter_def hb(3)) (simp add: secured_header_def)
  with t d commit(2) show ?thesis by (rule that)
qed

lemma transmit_received:
  assumes "ccm_total P" "ccm_lawful P" "i \<noteq> UnsecuredSessionID" "j \<noteq> UnsecuredSessionID" "smI i = Some s" "smR j = Some r"
    and "s_EncryptKey s = s_DecryptKey r" "length (s_EncryptKey s) = 16" "rw_max (s_replay r) \<le> s_OutCounter s"
    and "unat (s_OutCounter s) + length ps < 2 ^ 32" "\<forall>p\<in>set ps. length p < 2 ^ 16"
  shows "\<exists>ms. transmit P smI i j ps = Inr ms \<and> received P smR j ms = ps
    \<and> map (\<lambda>m. unat (msg_counter m)) ms = [Suc (unat (s_OutCounter s))..<Suc (unat (s_OutCounter s)) + length ps]"
  using assms(5-)
proof (induction ps arbitrary: smI s smR r)
  case Nil
  then show ?case by simp
next
  case (Cons p ps)
  have ne: "s_OutCounter s \<noteq> 0xFFFFFFFF" and p: "length p < 2 ^ 16" using Cons.prems(6,7) by auto
  then have suc: "unat (s_OutCounter s + 1) = Suc (unat (s_OutCounter s))" by (simp add: unat_succ_u32)
  let ?s = "s\<lparr>s_OutCounter := s_OutCounter s + 1\<rparr>"
  obtain ct hb commit where
    t: "\<forall>ps. transmit P smI i j (p # ps) =
       (case transmit P (smI(i \<mapsto> ?s)) i j ps of Inl e \<Rightarrow> Inl e | Inr ms \<Rightarrow> Inr ((ct, hb) # ms))"
    and d: "DecryptPayload P smR j ct hb = (Inr p, smR(j \<mapsto> r\<lparr>s_replay := commit (s_replay r)\<rparr>))"
    and c: "rw_max (commit (s_replay r)) = s_OutCounter s + 1" "msg_counter (ct, hb) = s_OutCounter s + 1"
    by (rule transmit_step [where smI = smI and smR = smR and s = s and r = r,
        OF assms(1-4) Cons.prems(1-5) ne p])
  let ?r = "r\<lparr>s_replay := commit (s_replay r)\<rparr>"
  have "\<exists>ms. transmit P (smI(i \<mapsto> ?s)) i j ps = Inr ms \<and> received P (smR(j \<mapsto> ?r)) j ms = ps
    \<and> map (\<lambda>m. unat (msg_counter m)) ms = [Suc (unat (s_OutCounter ?s))..<Suc (unat (s_OutCounter ?s)) + length ps]"
    by (rule Cons.IH [of _ ?s _ ?r]) (use Cons.prems c suc in auto)
  then obtain ms where "transmit P (smI(i \<mapsto> ?s)) i j ps = Inr ms" "received P (smR(j \<mapsto> ?r)) j ms = ps"
    "map (\<lambda>m. unat (msg_counter m)) ms = [Suc (unat (s_OutCounter ?s))..<Suc (unat (s_OutCounter ?s)) + length ps]"
    by blast
  then show ?case using t d c suc by (auto simp: upt_conv_Cons simp del: transmit.simps upt_Suc)
qed

section \<open>Properties\<close>

text \<open>A session with concrete keys, a datagram for it, and a forged one.\<close>

definition demo_keys :: session_keys where
  "demo_keys = \<lparr>I2RKey = replicate 16 1, R2IKey = replicate 16 2, AttestationChallenge = replicate 16 3\<rparr>"

definition demo_receiver :: session_manager where
  "demo_receiver = InstallSecureSession NewSessionManager 1 0 0 demo_keys RoleResponder"

definition demo_header :: bytes where
  "demo_header = [0, 1, 0, 0, 5, 0, 0, 0]"

definition demo_message :: "bytes \<times> bytes" where
  "demo_message = (replicate 16 36 @ [9], demo_header)"

definition demo_forged :: "bytes \<times> bytes" where
  "demo_forged = (replicate 16 37 @ [9], demo_header)"

lemma demo_open:
  "header_of demo_header = secured_header 1 5" "snd (Header_Unmarshal zero_header demo_header) = Inr 8"
  "crypto_Decrypt sum_primitives (replicate 16 1) (nonce_of (secured_header 1 5)) (fst demo_message) demo_header = Inr [9]"
  "crypto_Decrypt sum_primitives (replicate 16 1) (nonce_of (secured_header 1 5)) (fst demo_forged) demo_header = Inl OpenFailed"
  by (simp_all add: header_of_def demo_header_def Header_Unmarshal_def Let_def byte_slice_def zero_header_def
      secured_header_def SourcePresent_def DSIZ_def crypto_Decrypt_def newMatterCCM_def nonce_of_def
      sum_primitives_def sum_open_def byte_sum_def demo_message_def demo_forged_def BuildNonce_def
      MatterNonceSize_def sum_list_replicate wire_simps)

abbreviation rw_hi :: "replayWindow \<Rightarrow> nat" where
  "rw_hi w \<equiv> unat (rw_max w)"

lemma newReplayWindow_inv [simp]: "rw_inv newReplayWindow" "rw.covers newReplayWindow {}" "rw.tracks newReplayWindow (0, {})"
  by (auto simp: rw_inv_def rw.covers_def rw.tracks_def newReplayWindow_def rw_mem_def)

text \<open>
  C8: on every sequence of counters that avoids the value 0 and never exceeds the highest counter
  by exactly 32, the bitmap is a faithful representation of the accepted counters: the
  window accepts and rejects exactly as the specification does, which remembers every counter
  it accepted: so it lets no counter through twice, and it turns none away that is new and at
  most 32 below the highest. Theorem \<open>replay_window_gaps\<close> shows what happens outside the hypothesis.
\<close>

theorem replay_window_refines_specification:
  assumes "0 \<notin> set cs" "no_jump_32 check rw_hi newReplayWindow cs"
  shows "accepted check newReplayWindow cs = accepted window_spec (0, {}) cs"
  by (rule rw.accepted_spec) (simp_all add: assms)

lemmas check_simps = check_def newReplayWindow_def Let_def

theorem replay_window_refines_specification_witness:
  "accepted check newReplayWindow [5, 4, 5, 7, 6, 6, 4, 100, 5, 99] = [5, 4, 7, 6, 100, 99]
   \<and> 0 \<notin> set [5, 4, 5, 7, 6, 6, 4, 100, 5, 99 :: u32]
   \<and> no_jump_32 check rw_hi newReplayWindow [5, 4, 5, 7, 6, 6, 4, 100, 5, 99]
   \<and> accepted check newReplayWindow [5, 4, 5, 7, 6, 6, 4, 100, 5, 99]
      = accepted window_spec (0, {}) [5, 4, 5, 7, 6, 6, 4, 100, 5, 99]"
proof -
  let ?cs = "[5, 4, 5, 7, 6, 6, 4, 100, 5, 99 :: u32]"
  have a: "accepted check newReplayWindow ?cs = [5, 4, 7, 6, 100, 99]" by (simp add: check_simps)
  have z: "0 \<notin> set ?cs" by simp
  have j: "no_jump_32 check rw_hi newReplayWindow ?cs" by (simp add: check_simps)
  show ?thesis using a z j replay_window_refines_specification [OF z j] by blast
qed

text \<open>
  C4: no message is delivered twice, provided the genuine messages avoid the counter 0 and none
  of them is exactly 32 above the highest counter accepted before. Whatever datagrams then arrive for a
  session with a fresh window, in whatever order, forged or genuine, the counters of the payloads
  that \<^verbatim>\<open>DecryptPayload\<close> delivers are pairwise different.
\<close>

theorem no_message_delivered_twice:
  assumes "i \<noteq> UnsecuredSessionID" "sm i = Some s" "s_replay s = newReplayWindow"
    and "genuine = map msg_counter (filter (authentic P (s_DecryptKey s)) ms)"
    and "0 \<notin> set genuine" "no_jump_32 check rw_hi newReplayWindow genuine"
  shows "distinct (delivered P sm i ms)"
  using rw.accepted_distinct_gen [OF newReplayWindow_inv(1,2) assms(5,6)]
  by (simp add: delivered_accepted [where i = i and sm = sm, OF assms(1,2)] assms(3,4))

lemma demo_receiver_simps:
  "demo_receiver 1 = Some (new_session 1 0 0 demo_keys RoleResponder)"
  "s_replay (new_session 1 0 0 demo_keys RoleResponder) = newReplayWindow"
  "s_DecryptKey (new_session 1 0 0 demo_keys RoleResponder) = replicate 16 1"
  by (simp_all add: demo_receiver_def InstallSecureSession_def new_session_def demo_keys_def)

lemma demo_authentic:
  "authentic sum_primitives (replicate 16 1) demo_message" "\<not> authentic sum_primitives (replicate 16 1) demo_forged"
  "msg_counter demo_message = 5"
  using demo_open
  by (auto simp: authentic_def msg_counter_def demo_message_def demo_forged_def secured_header_def)

theorem no_message_delivered_twice_witness:
  "delivered sum_primitives demo_receiver 1 [demo_forged, demo_message, demo_message] = [5]
   \<and> distinct (delivered sum_primitives demo_receiver 1 [demo_forged, demo_message, demo_message])"
proof -
  let ?ms = "[demo_forged, demo_message, demo_message]"
  let ?s = "new_session 1 0 0 demo_keys RoleResponder"
  have g: "map msg_counter (filter (authentic sum_primitives (s_DecryptKey ?s)) ?ms) = [5, 5]"
    using demo_authentic unfolding demo_receiver_simps by simp
  have u: "(1 :: u16) \<noteq> UnsecuredSessionID" by simp
  have "delivered sum_primitives demo_receiver 1 ?ms = accepted check newReplayWindow [5, 5]"
    using delivered_accepted [where i = 1 and sm = demo_receiver and ms = ?ms and P = sum_primitives,
        OF u demo_receiver_simps(1)]
    unfolding g demo_receiver_simps(2) .
  then have "delivered sum_primitives demo_receiver 1 ?ms = [5]" by (simp add: check_simps)
  moreover have "distinct (delivered sum_primitives demo_receiver 1 ?ms)"
    by (rule no_message_delivered_twice [where i = 1 and sm = demo_receiver, OF u demo_receiver_simps(1,2) g [symmetric]])
      (simp_all add: check_simps)
  ultimately show ?thesis by blast
qed

text \<open>
  C22: the two gaps. A counter \<open>c\<close> is accepted a second time after a message whose counter is
  exactly 32 higher, although it is still inside the window of 32: at a jump of 32 the code
  clears the bitmap and with it the bit that \<open>c\<close> itself should occupy. And on a fresh window
  the counter 0 is accepted any number of times, because 0 marks the empty window.
\<close>

theorem replay_window_gaps:
  assumes "0 < c" "unat c + 32 < 2 ^ 32"
  shows "accepted check newReplayWindow [c, c + 32, c] = [c, c + 32, c]
    \<and> accepted window_spec (0, {}) [c, c + 32, c] = [c, c + 32]
    \<and> accepted check newReplayWindow (replicate n 0) = replicate n 0"
proof (intro conjI)
  have u: "unat (c + 32) = unat c + 32"
    using assms(2) by (subst unat_add_lem [THEN iffD1]) auto
  have pos: "0 < unat c" using assms(1) by (simp add: unat_gt_0 word_gt_0)
  have nz: "c \<noteq> 0" "c + 32 \<noteq> 0" using pos u by (auto simp: word_unat_eq_iff)
  have lt: "c < c + 32" using u by (simp add: word_less_nat_alt)
  then have "\<not> c + 32 < c" "c + 32 \<noteq> c" by auto
  with lt nz show "accepted check newReplayWindow [c, c + 32, c] = [c, c + 32, c]"
    by (simp add: check_simps)
  show "accepted window_spec (0, {}) [c, c + 32, c] = [c, c + 32]"
    using u pos by (simp add: window_spec_def)
  show "accepted check newReplayWindow (replicate n 0) = replicate n 0"
    by (induction n) (simp_all add: check_simps)
qed

theorem replay_window_gaps_witness:
  "accepted check newReplayWindow [1, 1 + 32, 1] = [1, 1 + 32, 1]
    \<and> accepted window_spec (0, {}) [1, 1 + 32, 1] = [1, 1 + 32]
    \<and> accepted check newReplayWindow (replicate 3 0) = replicate 3 0"
  by (rule replay_window_gaps) simp_all

text \<open>
  C14: decryption authenticates before it commits. If \<^verbatim>\<open>DecryptPayload\<close> fails, for whatever
  reason, the session table is unchanged: a forged or replayed datagram cannot move the
  window. If it delivers a payload, then the session exists, its window accepted the counter
  of the header, and the ciphertext is the sealing of that payload under the session's key
  with the whole header authenticated; only this session's window changes.
\<close>

theorem decrypt_authenticates_before_commit:
  assumes "ccm_lawful P" "i \<noteq> UnsecuredSessionID" "DecryptPayload P sm i ct hb = (r, sm')"
  shows "case r of Inl e \<Rightarrow> sm' = sm
    | Inr pt \<Rightarrow> \<exists>s commit. sm i = Some s
        \<and> check (s_replay s) (msg_counter (ct, hb)) = Inr commit
        \<and> crypto_Encrypt P (s_DecryptKey s) (nonce_of (header_of hb)) pt hb = Inr ct
        \<and> sm' = sm(i \<mapsto> s\<lparr>s_replay := commit (s_replay s)\<rparr>)"
proof (cases r)
  case (Inl e)
  then show ?thesis using DecryptPayload_Inl assms(3) by simp
next
  case (Inr pt)
  from DecryptPayload_Inr [OF assms(2) assms(3) [unfolded Inr]] obtain s n commit where
    "sm i = Some s" "check (s_replay s) (h_MessageCounter (header_of hb)) = Inr commit"
    "crypto_Decrypt P (s_DecryptKey s) (nonce_of (header_of hb)) ct hb = Inr pt"
    "sm' = sm(i \<mapsto> s\<lparr>s_replay := commit (s_replay s)\<rparr>)" by metis
  then show ?thesis using Inr dcp.decr_iff [OF assms(1)] by (auto simp: msg_counter_def)
qed

theorem decrypt_authenticates_before_commit_witness:
  "\<exists>sm'. DecryptPayload sum_primitives demo_receiver 1 (fst demo_message) demo_header = (Inr [9], sm')
    \<and> (\<exists>s commit. demo_receiver 1 = Some s
        \<and> check (s_replay s) (msg_counter (fst demo_message, demo_header)) = Inr commit
        \<and> crypto_Encrypt sum_primitives (s_DecryptKey s) (nonce_of (header_of demo_header)) [9] demo_header
            = Inr (fst demo_message)
        \<and> sm' = demo_receiver(1 \<mapsto> s\<lparr>s_replay := commit (s_replay s)\<rparr>))"
proof -
  have u: "(1 :: u16) \<noteq> UnsecuredSessionID" by simp
  obtain commit where c: "check newReplayWindow 5 = Inr commit" by (simp add: check_simps)
  have d: "DecryptPayload sum_primitives demo_receiver 1 (fst demo_message) demo_header =
      (Inr [9], demo_receiver(1 \<mapsto> (new_session 1 0 0 demo_keys RoleResponder)\<lparr>s_replay := commit newReplayWindow\<rparr>))"
    using DecryptPayload_accept [where i = 1 and sm = demo_receiver and P = sum_primitives and commit = commit
        and ct = "fst demo_message" and pt = "[9]", OF u demo_receiver_simps(1) demo_open(2)]
      c demo_open(1,3) by (simp add: demo_receiver_simps secured_header_def)
  show ?thesis
    using d decrypt_authenticates_before_commit [OF sum_primitives_lawful(1) u d] by auto
qed

lemma mirrored_ends:
  assumes "ccm_total P" "ccm_lawful P" "i \<noteq> UnsecuredSessionID" "j \<noteq> UnsecuredSessionID" "role \<noteq> role'"
    and "length (I2RKey keys) = 16" "length (R2IKey keys) = 16"
    and "length ps < 2 ^ 32" "\<forall>p\<in>set ps. length p < 2 ^ 16"
  shows "\<exists>ms. transmit P (InstallSecureSession sm i a b keys role) i j ps = Inr ms
    \<and> received P (InstallSecureSession sm' j b a keys role') j ms = ps
    \<and> distinct (map (nonce_of \<circ> header_of \<circ> snd) ms)"
proof -
  let ?s = "new_session i a b keys role" and ?r = "new_session j b a keys role'"
  have k: "s_EncryptKey ?s = s_DecryptKey ?r" "length (s_EncryptKey ?s) = 16"
    "rw_max (s_replay ?r) \<le> s_OutCounter ?s" "unat (s_OutCounter ?s) + length ps < 2 ^ 32"
    using assms(5-8) by (cases role; cases role'; simp add: new_session_def newReplayWindow_def)+
  have i: "InstallSecureSession sm i a b keys role i = Some ?s" "InstallSecureSession sm' j b a keys role' j = Some ?r"
    by (simp_all add: InstallSecureSession_def)
  obtain ms where ms: "transmit P (InstallSecureSession sm i a b keys role) i j ps = Inr ms"
    "received P (InstallSecureSession sm' j b a keys role') j ms = ps"
    "map (\<lambda>m. unat (msg_counter m)) ms = [Suc (unat (s_OutCounter ?s))..<Suc (unat (s_OutCounter ?s)) + length ps]"
    using transmit_received [where smI = "InstallSecureSession sm i a b keys role" and s = ?s
        and smR = "InstallSecureSession sm' j b a keys role'" and r = ?r, OF assms(1-4) i k assms(9)] by blast
  have "distinct (map (\<lambda>m. unat (msg_counter m)) ms)" unfolding ms(3) by simp
  then have "distinct (map (nonce_of \<circ> header_of \<circ> snd) ms)"
    by (rule distinct_map_refine) (simp add: nonce_of_def msg_counter_def)
  then show ?thesis using ms by blast
qed

text \<open>
  C5: two ends of a session understand each other. When both ends install the same keys with
  opposite roles, each under an identifier of its own, everything one end sends is sent without
  error, is delivered at the other end in order and unchanged, and no nonce is used twice.
\<close>

theorem mirrored_sessions_communicate:
  assumes "ccm_total P" "ccm_lawful P" "i \<noteq> UnsecuredSessionID" "j \<noteq> UnsecuredSessionID" "role \<noteq> role'"
    and "length (I2RKey keys) = 16" "length (R2IKey keys) = 16"
    and "length ps < 2 ^ 32" "\<forall>p\<in>set ps. length p < 2 ^ 16"
  shows "\<exists>ms. transmit P (InstallSecureSession sm i a b keys role) i j ps = Inr ms
    \<and> received P (InstallSecureSession sm' j b a keys role') j ms = ps
    \<and> distinct (map (nonce_of \<circ> header_of \<circ> snd) ms)"
  by (rule mirrored_ends [OF assms])

lemma sum_primitives_total: "ccm_total sum_primitives"
  by (simp add: ccm_total_def sum_primitives_def sum_seal_def)

theorem mirrored_sessions_communicate_witness:
  "\<exists>ms. transmit sum_primitives (InstallSecureSession NewSessionManager 1 7 8 demo_keys RoleInitiator) 1 2 [[1, 2], [], [3]]
        = Inr ms
    \<and> received sum_primitives (InstallSecureSession NewSessionManager 2 8 7 demo_keys RoleResponder) 2 ms = [[1, 2], [], [3]]
    \<and> distinct (map (nonce_of \<circ> header_of \<circ> snd) ms)"
  by (rule mirrored_sessions_communicate [OF sum_primitives_total sum_primitives_lawful(1)])
    (simp_all add: demo_keys_def)

text \<open>
  C21: outbound counters. The counters a session hands out are the consecutive numbers after
  its current one, so no two are equal; the last is \<open>2 ^ 32 - 1\<close>, and from there on every
  call reports exhaustion and changes nothing.
\<close>

theorem outbound_counters_consecutive:
  "map unat (drain NextOutboundCounter k s) =
     [Suc (unat (s_OutCounter s))..<Suc (unat (s_OutCounter s)) + min k (0xFFFFFFFF - unat (s_OutCounter s))]
   \<and> distinct (drain NextOutboundCounter k s)
   \<and> (s_OutCounter s = 0xFFFFFFFF \<longleftrightarrow> NextOutboundCounter s = (Inl ErrCounterExhausted, s))"
proof (intro conjI)
  show "s_OutCounter s = 0xFFFFFFFF \<longleftrightarrow> NextOutboundCounter s = (Inl ErrCounterExhausted, s)"
    by (metis oc.nxt_exhausted oc.nxt_ok Pair_inject sum.distinct(1))
qed (rule oc.drain_labels oc.drain_distinct)+

end
