(* ===== verification/Transport.thy ===== *)
theory Transport
  imports Message_Frame
begin

text \<open>
  \<^verbatim>\<open>transport/transport.go\<close>: sending frames and the receive loop. The socket is what it
  delivers and what it accepts: the loop runs over the results of its \<^verbatim>\<open>ReadFromUDP\<close> calls
  (a datagram with its sender, or an error), and \<^verbatim>\<open>WriteToUDP\<close> is a function that says
  whether the system refuses a datagram. The handler is a function on the state of its owner.
  The manager's security and retransmission fields are set by the constructor and read
  nowhere in the package, so they stay parameters. Errors of the system are numbers.
\<close>

datatype transport_error = EncodeFrameFailed message_error | SocketError nat | ListenFailed nat nat

record udp_addr =
  ua_IP :: bytes
  ua_Port :: nat

record ('c, 'm, 'i) transport_manager =
  tm_conn :: "'c option"
  tm_security :: "'m option"
  tm_unackedMessages :: "(u32 \<rightharpoonup> 'i) option"

section \<open>Opening and closing the socket\<close>

text \<open>An address in the sixteen byte form that \<^verbatim>\<open>net.ParseIP\<close> returns.\<close>

definition parsed_IPv4 :: "bytes \<Rightarrow> bytes" where
  "parsed_IPv4 b = replicate 10 0 @ [255, 255] @ b"

definition any_IP :: bytes where
  "any_IP = parsed_IPv4 [0, 0, 0, 0]"

definition NewTransportManager ::
  "(udp_addr \<Rightarrow> nat + 'c) \<Rightarrow> nat \<Rightarrow> 'm option \<Rightarrow> transport_error + ('c, 'm, 'i) transport_manager" where
  "NewTransportManager listen port security =
     (case listen \<lparr>ua_IP = any_IP, ua_Port = port\<rparr> of
        Inl e \<Rightarrow> Inl (ListenFailed port e)
      | Inr conn \<Rightarrow> Inr \<lparr>tm_conn = Some conn, tm_security = security, tm_unackedMessages = None\<rparr>)"

definition tm_Close :: "('c \<Rightarrow> nat option) \<Rightarrow> ('c, 'm, 'i) transport_manager \<Rightarrow> transport_error option" where
  "tm_Close close tm =
     (case tm_conn tm of None \<Rightarrow> None
      | Some conn \<Rightarrow> map_option SocketError (close conn))"

section \<open>Sending\<close>

text \<open>The result of \<^verbatim>\<open>Send\<close> and the datagram it handed to the socket, if any.\<close>

definition tm_Send ::
  "(bytes \<Rightarrow> udp_addr \<Rightarrow> nat option) \<Rightarrow> udp_addr \<Rightarrow> frame \<Rightarrow> bool \<Rightarrow> transport_error option \<times> (bytes \<times> udp_addr) option" where
  "tm_Send write addr frame reliable =
     (case Frame_Encode frame of Inl e \<Rightarrow> (Some (EncodeFrameFailed e), None)
      | Inr wire \<Rightarrow>
          (case write wire addr of None \<Rightarrow> (None, Some (wire, addr)) | Some e \<Rightarrow> (Some (SocketError e), Some (wire, addr))))"

section \<open>Receiving\<close>

datatype read_result = Datagram bytes udp_addr | ReadError nat

definition recv_buf_size :: nat where "recv_buf_size = 2048"

text \<open>
  The loop of \<^verbatim>\<open>Start\<close>: it returns when a read fails; \<open>None\<close> stands for a loop that is
  waiting for the next datagram. A datagram longer than the buffer is cut off by the socket.
\<close>

fun tm_Start :: "(frame \<Rightarrow> udp_addr \<Rightarrow> 's \<Rightarrow> 's) option \<Rightarrow> read_result list \<Rightarrow> 's \<Rightarrow> nat option \<times> 's" where
  "tm_Start handler [] s = (None, s)"
| "tm_Start handler (ReadError e # rs) s = (Some e, s)"
| "tm_Start handler (Datagram d addr # rs) s =
     (case Frame_Decode (take recv_buf_size d) of
        Inl _ \<Rightarrow> tm_Start handler rs s
      | Inr frame \<Rightarrow>
          tm_Start handler rs (case handler of None \<Rightarrow> s | Some h \<Rightarrow> h frame addr s))"

section \<open>What the loop does\<close>

text \<open>The frames in a sequence of datagrams, and the reads before the first error.\<close>

definition frames_in :: "(bytes \<times> udp_addr) list \<Rightarrow> (frame \<times> udp_addr) list" where
  "frames_in ds = List.map_filter (\<lambda>(d, a).
     case Frame_Decode (take recv_buf_size d) of Inl _ \<Rightarrow> None | Inr f \<Rightarrow> Some (f, a)) ds"

fun datagrams :: "read_result list \<Rightarrow> (bytes \<times> udp_addr) list" where
  "datagrams (Datagram d a # rs) = (d, a) # datagrams rs"
| "datagrams _ = []"

fun first_error :: "read_result list \<Rightarrow> nat option" where
  "first_error [] = None"
| "first_error (ReadError e # rs) = Some e"
| "first_error (Datagram d a # rs) = first_error rs"

lemma frames_in_simps [simp]:
  "frames_in [] = []"
  "frames_in ((d, a) # ds) =
     (case Frame_Decode (take recv_buf_size d) of Inl _ \<Rightarrow> frames_in ds | Inr f \<Rightarrow> (f, a) # frames_in ds)"
  by (auto simp: frames_in_def List.map_filter_simps split: sum.splits)

lemma tm_Start_fold:
  "tm_Start (Some h) rs s = (first_error rs, fold (\<lambda>(f, a). h f a) (frames_in (datagrams rs)) s)"
  by (induction "Some h" rs s rule: tm_Start.induct) (auto split: sum.splits)

lemma tm_Start_nil: "tm_Start None rs s = (first_error rs, s)"
  by (induction rs rule: first_error.induct) (auto split: sum.splits)

text \<open>
  C35: the receive loop is a fold. Up to the first read error it applies the handler to
  every frame that decodes, in the order of arrival, skips every datagram that does not
  without touching the state, and returns exactly that error; it never stops because of a
  malformed datagram, and what arrives after the error is not looked at.
\<close>

theorem receive_loop_is_a_fold:
  "tm_Start handler rs s =
     (first_error rs,
      case handler of None \<Rightarrow> s
      | Some h \<Rightarrow> fold (\<lambda>(f, a). h f a) (frames_in (datagrams rs)) s)"
  by (cases handler) (simp_all add: tm_Start_fold tm_Start_nil)

lemma Frame_Encode_append:
  assumes "Frame_Encode f = Inr w"
  obtains hb where "w = hb @ f_Payload f" "\<And>p. Frame_Encode (f\<lparr>f_Payload := p\<rparr>) = Inr (hb @ p)"
proof -
  from assms obtain a b where "Header_Marshal (f_Header f) = Inr a" "PayloadHeader_Marshal (f_PayloadHeader f) = Inr b"
    by (auto simp: Frame_Encode_def split: sum.splits)
  with assms show ?thesis by (intro that [of "a @ b"]) (auto simp: Frame_Encode_def)
qed

lemma Header_Marshal_length: "Header_Marshal h = Inr a \<Longrightarrow> length a \<le> 24"
  by (auto simp: Header_Marshal_def Let_def split: if_splits)

lemma PayloadHeader_Marshal_length: "PayloadHeader_Marshal p = Inr b \<Longrightarrow> length b \<le> 12"
  by (auto simp: PayloadHeader_Marshal_def)

lemma Frame_Encode_length:
  assumes "Frame_Encode f = Inr w"
  shows "length w \<le> 36 + length (f_Payload f)"
proof -
  from assms obtain a b where ab: "Header_Marshal (f_Header f) = Inr a" "PayloadHeader_Marshal (f_PayloadHeader f) = Inr b"
    "w = a @ b @ f_Payload f"
    by (auto simp: Frame_Encode_def split: sum.splits)
  then show ?thesis using Header_Marshal_length [OF ab(1)] PayloadHeader_Marshal_length [OF ab(2)] by simp
qed

lemma frame_wf_payload [simp]: "frame_wf (f\<lparr>f_Payload := p\<rparr>) = frame_wf f"
  by (simp add: frame_wf_def)

text \<open>
  C36: what is sent is received. A well-formed frame is sent without an encoding error, and a
  receiver that reads its datagram hands its handler the same frame; only a frame whose
  encoding exceeds the 2048 byte buffer arrives with its payload cut to what fits. The header
  always survives.
\<close>

theorem sent_frames_are_received:
  assumes "frame_wf f"
  shows "\<exists>wire hb. tm_Send (\<lambda>_ _. None) to f reliable = (None, Some (wire, to)) \<and> wire = hb @ f_Payload f \<and> length hb \<le> 36
    \<and> tm_Start (Some h) [Datagram wire from] s
       = (None, h (f\<lparr>f_Payload := take (recv_buf_size - length hb) (f_Payload f)\<rparr>) from s)"
proof -
  obtain w where w: "Frame_Encode f = Inr w" using frame_dec_enc [OF assms] by blast
  obtain hb where hb: "w = hb @ f_Payload f" "\<And>p. Frame_Encode (f\<lparr>f_Payload := p\<rparr>) = Inr (hb @ p)"
    by (rule Frame_Encode_append [OF w]) blast
  have "length (hb @ []) \<le> 36 + length (f_Payload (f\<lparr>f_Payload := []\<rparr>))" by (rule Frame_Encode_length [OF hb(2)])
  then have l: "length hb \<le> 36" by simp
  let ?p = "take (recv_buf_size - length hb) (f_Payload f)"
  have "frame_wf (f\<lparr>f_Payload := ?p\<rparr>)" using assms by simp
  then have "Frame_Decode (hb @ ?p) = Inr (f\<lparr>f_Payload := ?p\<rparr>)"
    using frame_dec_enc hb(2) [of ?p] by fastforce
  then have "tm_Start (Some h) [Datagram w from] s = (None, h (f\<lparr>f_Payload := ?p\<rparr>) from s)"
    using l by (simp add: hb(1) take_append recv_buf_size_def)
  moreover have "tm_Send (\<lambda>_ _. None) to f reliable = (None, Some (w, to))"
    using w by (simp add: tm_Send_def)
  ultimately show ?thesis using hb(1) l by blast
qed

definition local_addr :: udp_addr where
  "local_addr = \<lparr>ua_IP = [127, 0, 0, 1], ua_Port = 5540\<rparr>"

theorem sent_frames_are_received_witness:
  "\<exists>wire hb. tm_Send (\<lambda>_ _. None) local_addr ((b_frame ack_builder)\<lparr>f_Payload := replicate 3000 7\<rparr>) False
       = (None, Some (wire, local_addr))
    \<and> wire = hb @ f_Payload ((b_frame ack_builder)\<lparr>f_Payload := replicate 3000 7\<rparr>) \<and> length hb \<le> 36
    \<and> tm_Start (Some (\<lambda>f a s. s @ [f])) [Datagram wire local_addr] []
       = (None, [] @ [((b_frame ack_builder)\<lparr>f_Payload := replicate 3000 7\<rparr>)\<lparr>f_Payload := take (recv_buf_size - length hb)
            (f_Payload ((b_frame ack_builder)\<lparr>f_Payload := replicate 3000 7\<rparr>))\<rparr>])"
proof (rule sent_frames_are_received)
  have "built ack_builder" unfolding ack_builder_def by (intro built.intros)
  then show "frame_wf ((b_frame ack_builder)\<lparr>f_Payload := replicate 3000 7\<rparr>)" using built_wf by simp
qed

end
