(* ===== verification/Pase_Messages.thy ===== *)
theory Pase_Messages
  imports Tlv_Roundtrip Message_Frame
begin

text \<open>
  \<^verbatim>\<open>commissioning/messages.go\<close> and \<^verbatim>\<open>decodePayload\<close> of
  \<^verbatim>\<open>commissioning/commissioning.go\<close>: the five PASE payloads. Each Go struct is a record
  together with its reflected type (its fields with their \<^verbatim>\<open>tlv\<close> tags) and the two
  directions between record and reflected value. The locale \<open>tlv_message\<close> is the contract of
  a message type; what marshals decodes back to the same record is proved once in it.
\<close>

section \<open>The structs\<close>

definition fld :: "string \<Rightarrow> string \<Rightarrow> sfield" where
  "fld n t = \<lparr>sf_Name = n, sf_Exported = True, sf_tlv = t\<rparr>"

record PBKDFParamRequest =
  req_InitiatorRandom :: bytes
  req_InitiatorSessionID :: u16
  req_PasscodeID :: u16
  req_HasPBKDFParameters :: bool
  req_InitiatorNodeID :: u64

definition request_type :: gotype where
  "request_type = TStruct
     [(fld ''InitiatorRandom'' ''1'', TBytes), (fld ''InitiatorSessionID'' ''2'', TUint 16),
      (fld ''PasscodeID'' ''3'', TUint 16), (fld ''HasPBKDFParameters'' ''4'', TBool),
      (fld ''InitiatorNodeID'' ''5,omitempty'', TUint 64)]"

definition request_val :: "PBKDFParamRequest \<Rightarrow> goval" where
  "request_val r = VStruct
     [(fld ''InitiatorRandom'' ''1'', VBytes (req_InitiatorRandom r)),
      (fld ''InitiatorSessionID'' ''2'', VUint 16 (ucast (req_InitiatorSessionID r))),
      (fld ''PasscodeID'' ''3'', VUint 16 (ucast (req_PasscodeID r))),
      (fld ''HasPBKDFParameters'' ''4'', VBool (req_HasPBKDFParameters r)),
      (fld ''InitiatorNodeID'' ''5,omitempty'', VUint 64 (req_InitiatorNodeID r))]"

definition request_of :: "goval \<Rightarrow> PBKDFParamRequest option" where
  "request_of v =
     (case v of
        VStruct [(_, VBytes a), (_, VUint _ b), (_, VUint _ c), (_, VBool d), (_, VUint _ e)] \<Rightarrow>
          Some \<lparr>req_InitiatorRandom = a, req_InitiatorSessionID = ucast b, req_PasscodeID = ucast c,
                req_HasPBKDFParameters = d, req_InitiatorNodeID = e\<rparr>
      | _ \<Rightarrow> None)"

record PBKDFParamSet =
  ps_Iterations :: u32
  ps_Salt :: bytes

definition param_set_type :: gotype where
  "param_set_type = TStruct [(fld ''Iterations'' ''1'', TUint 32), (fld ''Salt'' ''2'', TBytes)]"

definition param_set_val :: "PBKDFParamSet \<Rightarrow> goval" where
  "param_set_val p = VStruct [(fld ''Iterations'' ''1'', VUint 32 (ucast (ps_Iterations p))), (fld ''Salt'' ''2'', VBytes (ps_Salt p))]"

definition param_set_of :: "goval \<Rightarrow> PBKDFParamSet option" where
  "param_set_of v =
     (case v of VStruct [(_, VUint _ a), (_, VBytes b)] \<Rightarrow> Some \<lparr>ps_Iterations = ucast a, ps_Salt = b\<rparr> | _ \<Rightarrow> None)"

record PBKDFParamResponse =
  resp_InitiatorRandom :: bytes
  resp_ResponderRandom :: bytes
  resp_ResponderSessionID :: u16
  resp_Params :: "PBKDFParamSet option"

definition response_type :: gotype where
  "response_type = TStruct
     [(fld ''InitiatorRandom'' ''1'', TBytes), (fld ''ResponderRandom'' ''2'', TBytes),
      (fld ''ResponderSessionID'' ''3'', TUint 16), (fld ''Params'' ''4,omitempty'', TPtr param_set_type)]"

definition response_val :: "PBKDFParamResponse \<Rightarrow> goval" where
  "response_val r = VStruct
     [(fld ''InitiatorRandom'' ''1'', VBytes (resp_InitiatorRandom r)),
      (fld ''ResponderRandom'' ''2'', VBytes (resp_ResponderRandom r)),
      (fld ''ResponderSessionID'' ''3'', VUint 16 (ucast (resp_ResponderSessionID r))),
      (fld ''Params'' ''4,omitempty'', VPtr param_set_type (map_option param_set_val (resp_Params r)))]"

definition response_of :: "goval \<Rightarrow> PBKDFParamResponse option" where
  "response_of v =
     (case v of
        VStruct [(_, VBytes a), (_, VBytes b), (_, VUint _ c), (_, VPtr _ d)] \<Rightarrow>
          (case d of
             None \<Rightarrow> Some \<lparr>resp_InitiatorRandom = a, resp_ResponderRandom = b, resp_ResponderSessionID = ucast c,
                           resp_Params = None\<rparr>
           | Some pv \<Rightarrow>
               map_option (\<lambda>ps. \<lparr>resp_InitiatorRandom = a, resp_ResponderRandom = b, resp_ResponderSessionID = ucast c,
                                 resp_Params = Some ps\<rparr>) (param_set_of pv))
      | _ \<Rightarrow> None)"

record Pake1 =
  pk1_PA :: bytes

definition pake1_type :: gotype where
  "pake1_type = TStruct [(fld ''PA'' ''1'', TBytes)]"

definition pake1_val :: "Pake1 \<Rightarrow> goval" where
  "pake1_val p = VStruct [(fld ''PA'' ''1'', VBytes (pk1_PA p))]"

definition pake1_of :: "goval \<Rightarrow> Pake1 option" where
  "pake1_of v = (case v of VStruct [(_, VBytes a)] \<Rightarrow> Some \<lparr>pk1_PA = a\<rparr> | _ \<Rightarrow> None)"

record Pake2 =
  pk2_PB :: bytes
  pk2_CB :: bytes

definition pake2_type :: gotype where
  "pake2_type = TStruct [(fld ''PB'' ''1'', TBytes), (fld ''CB'' ''2'', TBytes)]"

definition pake2_val :: "Pake2 \<Rightarrow> goval" where
  "pake2_val p = VStruct [(fld ''PB'' ''1'', VBytes (pk2_PB p)), (fld ''CB'' ''2'', VBytes (pk2_CB p))]"

definition pake2_of :: "goval \<Rightarrow> Pake2 option" where
  "pake2_of v = (case v of VStruct [(_, VBytes a), (_, VBytes b)] \<Rightarrow> Some \<lparr>pk2_PB = a, pk2_CB = b\<rparr> | _ \<Rightarrow> None)"

record Pake3 =
  pk3_CA :: bytes

definition pake3_type :: gotype where
  "pake3_type = TStruct [(fld ''CA'' ''1'', TBytes)]"

definition pake3_val :: "Pake3 \<Rightarrow> goval" where
  "pake3_val p = VStruct [(fld ''CA'' ''1'', VBytes (pk3_CA p))]"

definition pake3_of :: "goval \<Rightarrow> Pake3 option" where
  "pake3_of v = (case v of VStruct [(_, VBytes a)] \<Rightarrow> Some \<lparr>pk3_CA = a\<rparr> | _ \<Rightarrow> None)"

section \<open>Decoding a payload\<close>

definition decodePayload :: "bytes \<Rightarrow> goval \<Rightarrow> goval \<times> tlv_error option" where
  "decodePayload payload out =
     (case ReadElement payload of Inl e \<Rightarrow> (out, Some e)
      | Inr (elem, r) \<Rightarrow>
          if is_container (el_Type elem) then
            (case ReadContainerChildren r of Inl e \<Rightarrow> (out, Some e)
             | Inr (children, _) \<Rightarrow>
                 tlv_Decode (Element (el_Tag elem) (el_Type elem) (el_Value elem) children) out)
          else tlv_Decode elem out)"

text \<open>
  \<^verbatim>\<open>var m T; decodePayload(payload, &m)\<close>, with the record of the message as result. The
  decoder keeps the type of its target, so the record is always there.
\<close>

definition decode_message :: "gotype \<Rightarrow> (goval \<Rightarrow> 'm option) \<Rightarrow> bytes \<Rightarrow> tlv_error + 'm" where
  "decode_message t of_val payload =
     (case decodePayload payload (VPtr t (Some (zero_val t))) of
        (out, Some e) \<Rightarrow> Inl e
      | (VPtr _ (Some v), None) \<Rightarrow> (case of_val v of Some m \<Rightarrow> Inr m | None \<Rightarrow> Inl GoPanic)
      | _ \<Rightarrow> Inl GoPanic)"

lemma decodePayload_tree:
  "decodePayload payload out =
     (case read_tree payload of Inl e \<Rightarrow> (out, Some e) | Inr (elem, r) \<Rightarrow> tlv_Decode elem out)"
  by (auto simp: decodePayload_def read_tree_def split: sum.splits)

section \<open>Messages round-trip\<close>

locale tlv_message =
  fixes ty :: gotype and to_val :: "'m \<Rightarrow> goval" and of_val :: "goval \<Rightarrow> 'm option" and fits :: "'m \<Rightarrow> bool"
  assumes val_type: "type_of (to_val m) = ty"
    and val_encodable: "fits m \<Longrightarrow> encodable (to_val m)"
    and of_to_val: "of_val (to_val m) = Some m"
begin

lemma marshal_ptr: "tlv_Marshal (VPtr ty (Some (to_val m))) = tlv_Marshal (to_val m)"
  by (simp add: tlv_Marshal_def tlv_Encode_def)

text \<open>Decoding a message looks at the element it starts with and at nothing after it.\<close>

lemma message_prefix:
  assumes "fits m" "tlv_Marshal (VPtr ty (Some (to_val m))) = Inr bs"
  shows "decode_message ty of_val (bs @ r) = Inr m"
proof -
  from Marshal_encodable [OF val_encodable [OF assms(1)]] assms(2) have "read_tree (bs @ r) = Inr (to_elem (to_val m) anon_tag, r)"
    by (auto simp: marshal_ptr)
  then have "decodePayload (bs @ r) (VPtr ty (Some (zero_val ty))) = (VPtr ty (Some (to_val m)), None)"
    using Decode_encodable [OF val_encodable [OF assms(1)], of anon_tag] by (simp add: decodePayload_tree val_type)
  then show ?thesis by (simp add: decode_message_def of_to_val)
qed

lemma message_round_trip:
  assumes "fits m"
  obtains bs where "tlv_Marshal (VPtr ty (Some (to_val m))) = Inr bs" "decode_message ty of_val bs = Inr m"
proof -
  from Marshal_encodable [OF val_encodable [OF assms]] obtain bs where bs: "tlv_Marshal (VPtr ty (Some (to_val m))) = Inr bs"
    by (auto simp: marshal_ptr)
  show ?thesis using that [OF bs] message_prefix [OF assms bs, of "[]"] by simp
qed

end

lemmas message_simps = fld_def field_id_def ParseUint8_def List.map_filter_simps OverflowUint_def tlv_omitempty_def
  omitted_def unat_ucast_up

lemma unat_u16 [simp]: "unat (x :: u16) < 65536"
  using unsigned_less [of x, where ?'a = nat] by simp

lemma unat_u32 [simp]: "unat (x :: u32) < 4294967296"
  using unsigned_less [of x, where ?'a = nat] by simp

lemma unat_u64 [simp]: "unat (x :: u64) < 18446744073709551616"
  using unsigned_less [of x, where ?'a = nat] by simp

interpretation req: tlv_message request_type request_val request_of "\<lambda>r. length (req_InitiatorRandom r) < 2 ^ 31"
  by unfold_locales (simp_all add: request_type_def request_val_def request_of_def message_simps)

interpretation resp: tlv_message response_type response_val response_of
  "\<lambda>r. length (resp_InitiatorRandom r) < 2 ^ 31 \<and> length (resp_ResponderRandom r) < 2 ^ 31
     \<and> (case resp_Params r of None \<Rightarrow> True | Some ps \<Rightarrow> length (ps_Salt ps) < 2 ^ 31)"
proof
  fix m
  show "type_of (response_val m) = response_type" by (simp add: response_type_def response_val_def)
  show "response_of (response_val m) = Some m"
    by (cases "resp_Params m") (simp_all add: response_of_def response_val_def param_set_of_def param_set_val_def)
  assume "length (resp_InitiatorRandom m) < 2 ^ 31 \<and> length (resp_ResponderRandom m) < 2 ^ 31
     \<and> (case resp_Params m of None \<Rightarrow> True | Some ps \<Rightarrow> length (ps_Salt ps) < 2 ^ 31)"
  then show "encodable (response_val m)"
    by (cases "resp_Params m") (simp_all add: response_val_def param_set_val_def param_set_type_def message_simps)
qed

interpretation pk1: tlv_message pake1_type pake1_val pake1_of "\<lambda>p. length (pk1_PA p) < 2 ^ 31"
  by unfold_locales (simp_all add: pake1_type_def pake1_val_def pake1_of_def message_simps)

interpretation pk2: tlv_message pake2_type pake2_val pake2_of "\<lambda>p. length (pk2_PB p) < 2 ^ 31 \<and> length (pk2_CB p) < 2 ^ 31"
  by unfold_locales (simp_all add: pake2_type_def pake2_val_def pake2_of_def message_simps)

interpretation pk3: tlv_message pake3_type pake3_val pake3_of "\<lambda>p. length (pk3_CA p) < 2 ^ 31"
  by unfold_locales (simp_all add: pake3_type_def pake3_val_def pake3_of_def message_simps)

end
