(* ===== verification/Elliptic.thy ===== *)
theory Elliptic
  imports Crypto
begin

text \<open>
  The part of \<^verbatim>\<open>math/big\<close> and \<^verbatim>\<open>crypto/elliptic\<close> that \<^verbatim>\<open>crypto/spake2plus.go\<close> and
  \<^verbatim>\<open>crypto/pbkdf.go\<close> use: big-endian scalars, affine points of a short Weierstrass curve
  with coefficient \<open>- 3\<close>, addition, scalar multiplication and the uncompressed and compressed
  encodings. A point is a pair of coordinates and \<open>(0, 0)\<close> stands for the point at infinity,
  as in Go. An operation on a pair that is neither on the curve nor infinity panics.
\<close>

datatype spake_error =
    ErrInvalidPoint
  | ErrConfirmationMismatch
  | ErrNotFinalized
  | ErrAlreadyFinalized
  | ErrScalarsEmpty
  | ErrComputePAFirst
  | ErrComputePBFirst
  | ErrIterations
  | ErrSaltEmpty
  | ErrVerifierL spake_error
  | ErrRandom io_error
  | ErrHKDFExpand
  | SpakePanic

section \<open>Scalars\<close>

text \<open>\<^verbatim>\<open>SetBytes\<close>, \<^verbatim>\<open>Bytes\<close> and \<^verbatim>\<open>FillBytes\<close> of \<^verbatim>\<open>big.Int\<close>.\<close>

fun be_acc :: "nat \<Rightarrow> bytes \<Rightarrow> nat" where
  "be_acc a [] = a"
| "be_acc a (b # bs) = be_acc (256 * a + unat b) bs"

definition SetBytes :: "bytes \<Rightarrow> nat" where
  "SetBytes bs = be_acc 0 bs"

fun FillBytes :: "nat \<Rightarrow> nat \<Rightarrow> bytes" where
  "FillBytes 0 n = []"
| "FillBytes (Suc l) n = FillBytes l (n div 256) @ [of_nat n]"

fun Bytes :: "nat \<Rightarrow> bytes" where
  "Bytes n = (if n = 0 then [] else Bytes (n div 256) @ [of_nat n])"

declare Bytes.simps [simp del]

lemma be_acc_append [simp]: "be_acc a (bs @ cs) = be_acc (be_acc a bs) cs"
  by (induction a bs rule: be_acc.induct) auto

lemma unat_low_byte: "unat (of_nat n :: byte) = n mod 256"
  by (simp add: unat_of_nat take_bit_eq_mod)

lemma SetBytes_Bytes [simp]: "SetBytes (Bytes n) = n"
proof (induction n rule: Bytes.induct)
  case (1 n)
  then show ?case
    by (subst Bytes.simps) (simp add: SetBytes_def unat_low_byte)
qed

lemma SetBytes_FillBytes: "n < 256 ^ l \<Longrightarrow> SetBytes (FillBytes l n) = n"
proof (induction l arbitrary: n)
  case 0
  then show ?case by (simp add: SetBytes_def)
next
  case (Suc l)
  then have "n div 256 < 256 ^ l" by (simp add: less_mult_imp_div_less mult.commute)
  with Suc.IH show ?case by (simp add: SetBytes_def unat_low_byte)
qed

lemma length_FillBytes [simp]: "length (FillBytes l n) = l"
  by (induction l arbitrary: n) auto

lemma Bytes_eq_Nil [simp]: "Bytes n = [] \<longleftrightarrow> n = 0"
  by (subst Bytes.simps) simp

section \<open>Curves and points\<close>

type_synonym point = "int \<times> int"

record curve =
  crv_P :: int
  crv_N :: int
  crv_B :: int
  crv_G :: point
  crv_ByteLen :: nat

abbreviation infinity :: point where
  "infinity \<equiv> (0, 0)"

definition IsOnCurve :: "curve \<Rightarrow> point \<Rightarrow> bool" where
  "IsOnCurve C p \<longleftrightarrow> (case p of (x, y) \<Rightarrow>
     p \<noteq> infinity \<and> 0 \<le> x \<and> x < crv_P C \<and> 0 \<le> y \<and> y < crv_P C
     \<and> (y * y) mod crv_P C = (x * x * x - 3 * x + crv_B C) mod crv_P C)"

definition valid_point :: "curve \<Rightarrow> point \<Rightarrow> bool" where
  "valid_point C p \<longleftrightarrow> p = infinity \<or> IsOnCurve C p"

text \<open>Powers and inverses modulo the field prime.\<close>

fun mod_pow :: "int \<Rightarrow> int \<Rightarrow> nat \<Rightarrow> int" where
  "mod_pow m b e =
     (if e = 0 then 1 mod m
      else let h = mod_pow m (b * b mod m) (e div 2) in if odd e then b * h mod m else h)"

declare mod_pow.simps [simp del]

definition mod_inv :: "int \<Rightarrow> int \<Rightarrow> int" where
  "mod_inv m a = mod_pow m (a mod m) (nat (m - 2))"

definition ec_add :: "curve \<Rightarrow> point \<Rightarrow> point \<Rightarrow> point" where
  "ec_add C p q =
     (if p = infinity then q
      else if q = infinity then p
      else
        let (x1, y1) = p; (x2, y2) = q; m = crv_P C in
        if x1 = x2 \<and> (y1 + y2) mod m = 0 then infinity
        else
          let l = (if x1 = x2 then (3 * x1 * x1 - 3) * mod_inv m (2 * y1) mod m
                   else (y2 - y1) * mod_inv m (x2 - x1) mod m);
              x3 = (l * l - x1 - x2) mod m in
          (x3, (l * (x1 - x3) - y1) mod m))"

fun ec_mult :: "curve \<Rightarrow> nat \<Rightarrow> point \<Rightarrow> point" where
  "ec_mult C k p =
     (if k = 0 then infinity
      else let h = ec_mult C (k div 2) (ec_add C p p) in if odd k then ec_add C p h else h)"

declare ec_mult.simps [simp del]

definition curve_Add :: "curve \<Rightarrow> point \<Rightarrow> point \<Rightarrow> spake_error + point" where
  "curve_Add C p q = (if valid_point C p \<and> valid_point C q then Inr (ec_add C p q) else Inl SpakePanic)"

definition curve_ScalarMult :: "curve \<Rightarrow> point \<Rightarrow> bytes \<Rightarrow> spake_error + point" where
  "curve_ScalarMult C p k = (if valid_point C p then Inr (ec_mult C (SetBytes k) p) else Inl SpakePanic)"

definition curve_ScalarBaseMult :: "curve \<Rightarrow> bytes \<Rightarrow> spake_error + point" where
  "curve_ScalarBaseMult C k = Inr (ec_mult C (SetBytes k) (crv_G C))"

definition elliptic_Marshal :: "curve \<Rightarrow> point \<Rightarrow> spake_error + bytes" where
  "elliptic_Marshal C p =
     (if valid_point C p then
        Inr ([4] @ FillBytes (crv_ByteLen C) (nat (fst p)) @ FillBytes (crv_ByteLen C) (nat (snd p)))
      else Inl SpakePanic)"

text \<open>\<^verbatim>\<open>elliptic.Unmarshal\<close>: \<open>None\<close> for a nil result.\<close>

definition elliptic_Unmarshal :: "curve \<Rightarrow> bytes \<Rightarrow> point option" where
  "elliptic_Unmarshal C data =
     (let l = crv_ByteLen C in
      if length data \<noteq> 1 + 2 * l \<or> data ! 0 \<noteq> 4 then None
      else
        let p = (int (SetBytes (take l (drop 1 data))), int (SetBytes (drop (1 + l) data))) in
        if IsOnCurve C p then Some p else None)"

text \<open>
  \<^verbatim>\<open>elliptic.UnmarshalCompressed\<close>: the square root is a power because the field prime of
  P-256 is 3 modulo 4.
\<close>

definition elliptic_UnmarshalCompressed :: "curve \<Rightarrow> bytes \<Rightarrow> point option" where
  "elliptic_UnmarshalCompressed C data =
     (let l = crv_ByteLen C; m = crv_P C in
      if length data \<noteq> 1 + l \<or> (data ! 0 \<noteq> 2 \<and> data ! 0 \<noteq> 3) then None
      else
        let x = int (SetBytes (drop 1 data));
            y = mod_pow m (x * x * x - 3 * x + crv_B C) (nat ((m + 1) div 4));
            y' = (if odd y \<longleftrightarrow> data ! 0 = 3 then y else (- y) mod m) in
        if x < m \<and> IsOnCurve C (x, y') then Some (x, y') else None)"

section \<open>What the curve provides\<close>

text \<open>
  The group of a curve of prime order: multiples of the base point, written \<open>pt k\<close>, are all
  the points there are, two multiples are equal exactly when they agree modulo the order, and
  addition adds them. For P-256 this is the standard's statement that the curve is cyclic of
  order N with cofactor 1.
\<close>

definition multiples :: "curve \<Rightarrow> (int \<Rightarrow> point) \<Rightarrow> bool" where
  "multiples C pt \<longleftrightarrow>
     pt 0 = infinity \<and> pt 1 = crv_G C
     \<and> (\<forall>k j. pt k = pt j \<longleftrightarrow> k mod crv_N C = j mod crv_N C)
     \<and> (\<forall>p. valid_point C p \<longleftrightarrow> p \<in> range pt)
     \<and> (\<forall>k j. ec_add C (pt k) (pt j) = pt (k + j))"

definition curve_lawful :: "curve \<Rightarrow> bool" where
  "curve_lawful C \<longleftrightarrow> 0 < crv_P C \<and> crv_P C \<le> 256 ^ crv_ByteLen C \<and> (\<exists>pt. multiples C pt)"

definition negate_point :: "curve \<Rightarrow> point \<Rightarrow> point" where
  "negate_point C p = (fst p, (- snd p) mod crv_P C)"

lemma ec_mult_multiples:
  assumes "multiples C pt"
  shows "ec_mult C k (pt j) = pt (int k * j)"
proof (induction k arbitrary: j rule: less_induct)
  case (less k)
  show ?case
  proof (cases "k = 0")
    case True
    then show ?thesis using assms by (subst ec_mult.simps) (simp add: multiples_def)
  next
    case False
    have add: "ec_add C (pt a) (pt b) = pt (a + b)" for a b using assms by (simp add: multiples_def)
    have h: "ec_mult C (k div 2) (pt (2 * j)) = pt (int (k div 2) * (2 * j))" using less False by simp
    have "k = 2 * (k div 2) + (if odd k then 1 else 0)" by simp
    then have "int k = int (2 * (k div 2) + (if odd k then 1 else 0))" by metis
    then have "int k = 2 * int (k div 2) + (if odd k then 1 else 0)" by simp
    then have e: "int k * j = int (k div 2) * (2 * j) + (if odd k then j else 0)"
      by (simp add: algebra_simps)
    show ?thesis unfolding e using False
      by (subst ec_mult.simps) (simp add: Let_def add h add.commute)
  qed
qed

lemma negate_valid:
  assumes "0 < crv_P C" "IsOnCurve C p"
  shows "valid_point C (negate_point C p)" "ec_add C p (negate_point C p) = infinity"
proof -
  obtain x y where p: "p = (x, y)" by force
  have sq: "(- y mod crv_P C) * (- y mod crv_P C) mod crv_P C = y * y mod crv_P C"
    by (simp add: mod_mult_eq)
  show "valid_point C (negate_point C p)"
    using assms by (auto simp: valid_point_def IsOnCurve_def negate_point_def p sq)
  have "(y + - y mod crv_P C) mod crv_P C = 0" by (simp add: mod_add_right_eq)
  then show "ec_add C p (negate_point C p) = infinity"
    using assms by (auto simp: ec_add_def negate_point_def p IsOnCurve_def dest: zdvd_imp_le)
qed

lemma negate_multiples:
  assumes "0 < crv_P C" "multiples C pt"
  shows "negate_point C (pt k) = pt (- k)"
proof (cases "pt k = infinity")
  case True
  then have "k mod crv_N C = 0 mod crv_N C" using assms(2) by (metis multiples_def)
  then have "- k mod crv_N C = 0 mod crv_N C" by (metis minus_zero mod_minus_eq)
  then have "pt (- k) = infinity" using assms(2) unfolding multiples_def by metis
  then show ?thesis using True by (simp add: negate_point_def)
next
  case False
  have "valid_point C (pt k)" using assms(2) unfolding multiples_def by (metis rangeI)
  then have on: "IsOnCurve C (pt k)" using False by (simp add: valid_point_def)
  from negate_valid [OF assms(1) on] assms(2) obtain j where
    j: "negate_point C (pt k) = pt j" "pt (k + j) = pt 0"
    unfolding multiples_def by (metis rangeE)
  then have "(k + j) mod crv_N C = 0 mod crv_N C" using assms(2) unfolding multiples_def by metis
  then have "j mod crv_N C = (- k) mod crv_N C"
    by (metis add.commute add_diff_cancel_left' diff_0 mod_diff_left_eq)
  then show ?thesis using j(1) assms(2) unfolding multiples_def by metis
qed
lemma multiples_valid: "multiples C pt \<Longrightarrow> valid_point C (pt k)"
  unfolding multiples_def by (metis rangeI)

lemma valid_multiple: "multiples C pt \<Longrightarrow> valid_point C p \<Longrightarrow> \<exists>k. p = pt k"
  unfolding multiples_def by (metis rangeE)

text \<open>The interface the key exchange uses, and the two identities it rests on.\<close>

locale cyclic_points =
  fixes lawful :: "'c \<Rightarrow> (int \<Rightarrow> 'p) \<Rightarrow> bool"
    and add :: "'c \<Rightarrow> 'p \<Rightarrow> 'p \<Rightarrow> 'p" and mult :: "'c \<Rightarrow> nat \<Rightarrow> 'p \<Rightarrow> 'p" and neg :: "'c \<Rightarrow> 'p \<Rightarrow> 'p"
  assumes add_pt: "lawful C pt \<Longrightarrow> add C (pt a) (pt b) = pt (a + b)"
    and mult_pt: "lawful C pt \<Longrightarrow> mult C k (pt a) = pt (int k * a)"
    and neg_pt: "lawful C pt \<Longrightarrow> neg C (pt a) = pt (- a)"
begin

lemma blinded_share:
  "lawful C pt \<Longrightarrow>
     mult C x (add C (add C (mult C y (pt g)) (mult C w (pt m))) (neg C (mult C w (pt m)))) = pt (int x * int y * g)"
  by (simp add: add_pt mult_pt neg_pt algebra_simps)

text \<open>
  Both sides remove the other's blinding and reach the same point, from the two ephemeral
  scalars (\<open>Z\<close>) and from the long-term scalar (\<open>V\<close>).
\<close>

lemma shared_Z:
  assumes "lawful C pt"
  shows "mult C x (add C (add C (mult C y (pt g)) (mult C w (pt n))) (neg C (mult C w (pt n))))
       = mult C y (add C (add C (mult C x (pt g)) (mult C w (pt m))) (neg C (mult C w (pt m))))"
  unfolding blinded_share [OF assms] by (simp add: mult.commute)

lemma shared_V:
  assumes "lawful C pt"
  shows "mult C w1 (add C (add C (mult C y (pt g)) (mult C w (pt n))) (neg C (mult C w (pt n))))
       = mult C y (mult C w1 (pt g))"
  unfolding blinded_share [OF assms] by (simp add: mult_pt [OF assms] algebra_simps)

end

definition prime_multiples :: "curve \<Rightarrow> (int \<Rightarrow> point) \<Rightarrow> bool" where
  "prime_multiples C pt \<longleftrightarrow> 0 < crv_P C \<and> multiples C pt"

interpretation ec: cyclic_points prime_multiples ec_add ec_mult negate_point
  by unfold_locales
    (auto simp: prime_multiples_def ec_mult_multiples negate_multiples, auto simp: multiples_def)

section \<open>Encodings of points\<close>

lemma Marshal_valid:
  assumes "valid_point C p"
  obtains bs where "elliptic_Marshal C p = Inr bs" "length bs = 1 + 2 * crv_ByteLen C"
  using assms by (simp add: elliptic_Marshal_def)

lemma Unmarshal_Marshal:
  assumes "crv_P C \<le> 256 ^ crv_ByteLen C" "IsOnCurve C p" "elliptic_Marshal C p = Inr bs"
  shows "elliptic_Unmarshal C bs = Some p"
proof -
  obtain x y where p: "p = (x, y)" by force
  have "nat z < 256 ^ crv_ByteLen C" if "0 \<le> z" "z < crv_P C" for z
    using that assms(1) by (simp add: nat_less_iff)
  then have xy: "SetBytes (FillBytes (crv_ByteLen C) (nat x)) = nat x"
    "SetBytes (FillBytes (crv_ByteLen C) (nat y)) = nat y" "0 \<le> x" "0 \<le> y"
    using assms(2) by (auto simp: IsOnCurve_def p intro!: SetBytes_FillBytes)
  have "bs = [4] @ FillBytes (crv_ByteLen C) (nat x) @ FillBytes (crv_ByteLen C) (nat y)"
    using assms(2,3) by (auto simp: elliptic_Marshal_def valid_point_def p)
  then show ?thesis using assms(2) xy
    by (simp add: elliptic_Unmarshal_def Let_def p)
qed

lemma Unmarshal_on_curve: "elliptic_Unmarshal C b = Some p \<Longrightarrow> IsOnCurve C p"
  by (auto simp: elliptic_Unmarshal_def Let_def split: if_splits)

lemma Unmarshal_infinity:
  assumes "elliptic_Marshal C infinity = Inr bs"
  shows "elliptic_Unmarshal C bs = None"
proof -
  have z: "SetBytes (FillBytes l 0) = 0" for l by (rule SetBytes_FillBytes) simp
  have "bs = [4] @ FillBytes (crv_ByteLen C) 0 @ FillBytes (crv_ByteLen C) 0"
    using assms by (simp add: elliptic_Marshal_def valid_point_def)
  then show ?thesis by (simp add: elliptic_Unmarshal_def Let_def z IsOnCurve_def)
qed

section \<open>P-256 and a small instance\<close>

definition P256 :: curve where
  "P256 = \<lparr>
     crv_P = 0xffffffff00000001000000000000000000000000ffffffffffffffffffffffff,
     crv_N = 0xffffffff00000000ffffffffffffffffbce6faada7179e84f3b9cac2fc632551,
     crv_B = 0x5ac635d8aa3a93e7b3ebbd55769886bc651d06b0cc53b0f63bce3c3e27d2604b,
     crv_G = (0x6b17d1f2e12c4247f8bce6e563a440f277037d812deb33a0f4a13945d898c296,
           0x4fe342e2fe1a7f9b8ee7eb4a7c0f9e162bce33576b315ececbb6406837bf51f5),
     crv_ByteLen = 32\<rparr>"

text \<open>
  \<open>y\<^sup>2 = x\<^sup>3 - 3 x + 1\<close> over the field of seven elements has five points and is cyclic. It
  shows that \<open>curve_lawful\<close> can hold.
\<close>

definition small_curve :: curve where
  "small_curve = \<lparr>crv_P = 7, crv_N = 5, crv_B = 1, crv_G = (0, 1), crv_ByteLen = 1\<rparr>"

definition small_pt :: "int \<Rightarrow> point" where
  "small_pt k = [(0, 0), (0, 1), (4, 5), (4, 2), (0, 6)] ! nat (k mod 5)"

lemma small_add_table:
  "list_all (\<lambda>a. list_all (\<lambda>b. ec_add small_curve (small_pt (int a)) (small_pt (int b)) = small_pt (int a + int b))
     [0..<5]) [0..<5]"
  by code_simp

lemma small_pt_mod: "small_pt (k mod 5) = small_pt k"
  by (simp add: small_pt_def)

lemma residue5: "\<exists>a \<in> set [0..<5]. k mod 5 = int a"
  by (rule bexI [of _ "nat (k mod 5)"]) (auto simp: nat_less_iff)

lemma small_on_curve_table:
  "list_all (\<lambda>x. list_all (\<lambda>y. IsOnCurve small_curve (int x, int y) \<longleftrightarrow> (int x, int y) \<in> {(0, 1), (4, 5), (4, 2), (0, 6)})
     [0..<7]) [0..<7]"
  by code_simp

lemma small_valid_point: "valid_point small_curve p \<longleftrightarrow> p \<in> {(0, 0), (0, 1), (4, 5), (4, 2), (0, 6)}"
proof -
  obtain x y where p: "p = (x, y)" by force
  show ?thesis
  proof (cases "0 \<le> x \<and> x < 7 \<and> 0 \<le> y \<and> y < 7")
    case True
    then have "nat x \<in> set [0..<7]" "nat y \<in> set [0..<7]" by auto
    then have "IsOnCurve small_curve (int (nat x), int (nat y)) \<longleftrightarrow>
        (int (nat x), int (nat y)) \<in> {(0, 1), (4, 5), (4, 2), (0, 6)}"
      using small_on_curve_table unfolding list_all_iff by blast
    then show ?thesis using True by (auto simp: valid_point_def p)
  next
    case False
    then show ?thesis by (auto simp: valid_point_def IsOnCurve_def p small_curve_def)
  qed
qed

lemma small_pt_values: "small_pt 0 = (0, 0)" "small_pt 1 = (0, 1)" "small_pt 2 = (4, 5)" "small_pt 3 = (4, 2)" "small_pt 4 = (0, 6)"
  by (simp_all add: small_pt_def)

lemma small_curve_multiples: "multiples small_curve small_pt"
  unfolding multiples_def
proof (intro conjI allI)
  show "small_pt 0 = infinity" "small_pt 1 = crv_G small_curve"
    by (simp_all add: small_pt_values small_curve_def)
  fix k j
  obtain a b where ab: "a \<in> set [0..<5]" "k mod 5 = int a" "b \<in> set [0..<5]" "j mod 5 = int b"
    using residue5 [of k] residue5 [of j] by blast
  have "ec_add small_curve (small_pt (int a)) (small_pt (int b)) = small_pt (int a + int b)"
    using small_add_table ab unfolding list_all_iff by blast
  then show "ec_add small_curve (small_pt k) (small_pt j) = small_pt (k + j)"
    unfolding ab(2,4) [symmetric] by (metis small_pt_mod mod_add_eq)
  have d: "distinct [(0, 0), (0, 1), (4, 5), (4, 2), (0, 6) :: point]" by simp
  have "nat (k mod 5) < 5" "nat (j mod 5) < 5" by (simp_all add: nat_less_iff)
  then have "small_pt k = small_pt j \<longleftrightarrow> nat (k mod 5) = nat (j mod 5)"
    using nth_eq_iff_index_eq [OF d] by (simp add: small_pt_def)
  then show "small_pt k = small_pt j \<longleftrightarrow> k mod crv_N small_curve = j mod crv_N small_curve"
    by (simp add: small_curve_def eq_nat_nat_iff)
next
  fix p
  have "range small_pt = {(0, 0), (0, 1), (4, 5), (4, 2), (0, 6)}"
  proof
    show "range small_pt \<subseteq> {(0, 0), (0, 1), (4, 5), (4, 2), (0, 6)}"
    proof
      fix q
      assume "q \<in> range small_pt"
      then obtain k where "q = small_pt k" by blast
      moreover have "nat (k mod 5) < length [(0, 0), (0, 1), (4, 5), (4, 2), (0, 6) :: point]" by (simp add: nat_less_iff)
      ultimately have "q \<in> set [(0, 0), (0, 1), (4, 5), (4, 2), (0, 6)]"
        unfolding small_pt_def using nth_mem by metis
      then show "q \<in> {(0, 0), (0, 1), (4, 5), (4, 2), (0, 6)}" by simp
    qed
    show "{(0, 0), (0, 1), (4, 5), (4, 2), (0, 6)} \<subseteq> range small_pt"
      using small_pt_values by (metis (no_types, lifting) empty_subsetI insert_subset rangeI)
  qed
  then show "valid_point small_curve p \<longleftrightarrow> p \<in> range small_pt" by (simp add: small_valid_point)
qed

lemma small_curve_lawful: "curve_lawful small_curve"
  using small_curve_multiples by (auto simp: curve_lawful_def) (simp_all add: small_curve_def)

end
