(* ===== verification/Spake2plus.thy ===== *)
theory Spake2plus
  imports Elliptic
begin

text \<open>
  \<^verbatim>\<open>crypto/spake2plus.go\<close> and \<^verbatim>\<open>crypto/pbkdf.go\<close>: password derivation and both sides of
  the SPAKE2+ exchange. A \<open>suite\<close> holds what the package takes from elsewhere: the hash, the
  MAC and PBKDF2 as functions, the curve, and the two points \<open>M\<close> and \<open>N\<close> that the package's
  \<^verbatim>\<open>init\<close> computes. A method takes the record it is called on and returns it afterwards,
  also when it fails; the source of random scalars is the list of bytes it will deliver. A
  field that Go leaves nil until it is set is an option.
\<close>

section \<open>The suite\<close>

record suite = primitives +
  sha256 :: "bytes \<Rightarrow> bytes"
  hmac_sha256 :: "bytes \<Rightarrow> bytes \<Rightarrow> bytes"
  pbkdf2_key :: "bytes \<Rightarrow> bytes \<Rightarrow> int \<Rightarrow> nat \<Rightarrow> bytes"
  spake2pCurve :: curve
  spakeM :: point
  spakeN :: point

text \<open>The digest and the MAC have 32 bytes, PBKDF2 delivers the length asked for.\<close>

definition hash_lawful :: "'x suite_scheme \<Rightarrow> bool" where
  "hash_lawful S \<longleftrightarrow> (\<forall>b. length (sha256 S b) = 32) \<and> (\<forall>k b. length (hmac_sha256 S k b) = 32)
     \<and> (\<forall>p s i n. 0 < i \<longrightarrow> length (pbkdf2_key S p s i n) = n)"

text \<open>
  \<^verbatim>\<open>init\<close>: both points come from their compressed form, and the package panics when one
  is not on the curve.
\<close>

definition spake_init_point :: "curve \<Rightarrow> bytes \<Rightarrow> spake_error + point \<times> bytes" where
  "spake_init_point C bin =
     (case elliptic_UnmarshalCompressed C bin of None \<Rightarrow> Inl SpakePanic
      | Some p \<Rightarrow>
          if \<not> IsOnCurve C p then Inl SpakePanic
          else case elliptic_Marshal C p of Inl e \<Rightarrow> Inl e | Inr bs \<Rightarrow> Inr (p, bs))"

definition spake_init :: "curve \<Rightarrow> bytes \<Rightarrow> bytes \<Rightarrow> spake_error + (point \<times> bytes) \<times> (point \<times> bytes)" where
  "spake_init C mBin nBin =
     (case spake_init_point C mBin of Inl e \<Rightarrow> Inl e
      | Inr m \<Rightarrow> (case spake_init_point C nBin of Inl e \<Rightarrow> Inl e | Inr n \<Rightarrow> Inr (m, n)))"

definition suite_lawful :: "'x suite_scheme \<Rightarrow> bool" where
  "suite_lawful S \<longleftrightarrow> hkdf_lawful S \<and> hash_lawful S \<and> curve_lawful (spake2pCurve S)
     \<and> IsOnCurve (spake2pCurve S) (spakeM S) \<and> IsOnCurve (spake2pCurve S) (spakeN S)"

definition spakeSha256Sum :: "'x suite_scheme \<Rightarrow> bytes \<Rightarrow> bytes" where
  "spakeSha256Sum S b = sha256 S b"

definition spakeHmacSha256 :: "'x suite_scheme \<Rightarrow> bytes \<Rightarrow> bytes \<Rightarrow> bytes" where
  "spakeHmacSha256 S key b = hmac_sha256 S key b"

definition spakeHkdfSha256 :: "'x suite_scheme \<Rightarrow> bytes \<Rightarrow> bytes \<Rightarrow> bytes \<Rightarrow> nat \<Rightarrow> spake_error + bytes" where
  "spakeHkdfSha256 S secret salt info n =
     (case hkdf_read S secret salt info n of None \<Rightarrow> Inl ErrHKDFExpand | Some out \<Rightarrow> Inr out)"

text \<open>A failed read drains the source.\<close>

definition spakeRandomScalar :: "bytes \<Rightarrow> (spake_error + nat) \<times> bytes" where
  "spakeRandomScalar rnd =
     (case ReadFull 32 rnd of Inl e \<Rightarrow> (Inl (ErrRandom e), [])
      | Inr (buf, rnd') \<Rightarrow> (Inr (SetBytes buf), rnd'))"

section \<open>Transcript and keys\<close>

definition spakeSerializeBytes :: "bytes \<Rightarrow> bytes" where
  "spakeSerializeBytes p = PutUint64 (of_nat (length p)) @ p"

definition point_bytes :: "curve \<Rightarrow> point \<Rightarrow> bytes" where
  "point_bytes C p = (case elliptic_Marshal C p of Inl e \<Rightarrow> [] | Inr bs \<Rightarrow> bs)"

definition spakeBuildTT :: "'x suite_scheme \<Rightarrow> bytes \<Rightarrow> bytes \<Rightarrow> bytes \<Rightarrow> bytes \<Rightarrow> bytes \<Rightarrow> bytes \<Rightarrow> bytes" where
  "spakeBuildTT S contextHash pA pB z v w0 =
     spakeSerializeBytes contextHash
     @ spakeSerializeBytes []
     @ spakeSerializeBytes []
     @ spakeSerializeBytes (point_bytes (spake2pCurve S) (spakeM S))
     @ spakeSerializeBytes (point_bytes (spake2pCurve S) (spakeN S))
     @ spakeSerializeBytes pA
     @ spakeSerializeBytes pB
     @ spakeSerializeBytes z
     @ spakeSerializeBytes v
     @ spakeSerializeBytes w0"

definition spakeFinalize ::
  "'x suite_scheme \<Rightarrow> bytes \<Rightarrow> bytes \<Rightarrow> bytes \<Rightarrow> bytes \<Rightarrow> bytes \<Rightarrow> bytes \<Rightarrow> spake_error + bytes \<times> bytes \<times> bytes" where
  "spakeFinalize S context pA pB z v w0 =
     (let contextHash = spakeSha256Sum S context;
          ttHash = spakeSha256Sum S (spakeBuildTT S contextHash pA pB z v w0);
          ka = take 16 ttHash;
          ke = take 16 (drop 16 ttHash) in
      case spakeHkdfSha256 S ka [] (str_bytes ''ConfirmationKeys'') 32 of Inl e \<Rightarrow> Inl e
      | Inr confirmKeys \<Rightarrow>
          Inr (ke, spakeHmacSha256 S (take 16 confirmKeys) pB, spakeHmacSha256 S (drop 16 confirmKeys) pA))"

definition spakeNegateY :: "'x suite_scheme \<Rightarrow> point \<Rightarrow> point" where
  "spakeNegateY S p = (case p of (x, y) \<Rightarrow> (x, (- y) mod crv_P (spake2pCurve S)))"

definition unmarshalP256Point :: "'x suite_scheme \<Rightarrow> bytes \<Rightarrow> spake_error + point" where
  "unmarshalP256Point S b =
     (case elliptic_Unmarshal (spake2pCurve S) b of None \<Rightarrow> Inl ErrInvalidPoint
      | Some p \<Rightarrow> if \<not> IsOnCurve (spake2pCurve S) p then Inl ErrInvalidPoint else Inr p)"

section \<open>Password derivation\<close>

definition PBKDF2HmacSha256 :: "'x suite_scheme \<Rightarrow> bytes \<Rightarrow> bytes \<Rightarrow> int \<Rightarrow> nat \<Rightarrow> bytes" where
  "PBKDF2HmacSha256 S password salt iterations dkLen = pbkdf2_key S password salt iterations dkLen"

definition Spake2pW0W1FromPasscode :: "'x suite_scheme \<Rightarrow> u32 \<Rightarrow> bytes \<Rightarrow> int \<Rightarrow> spake_error + bytes \<times> bytes" where
  "Spake2pW0W1FromPasscode S passcode salt iterations =
     (if iterations \<le> 0 then Inl ErrIterations
      else if length salt = 0 then Inl ErrSaltEmpty
      else
        let pwd = PutUint32 passcode;
            ws = PBKDF2HmacSha256 S pwd salt iterations 80;
            n = nat (crv_N (spake2pCurve S));
            w0 = SetBytes (take 40 ws) mod n;
            w1 = SetBytes (drop 40 ws) mod n in
        Inr (Bytes w0, Bytes w1))"

definition ComputeSPAKE2PVerifierData :: "'x suite_scheme \<Rightarrow> u32 \<Rightarrow> bytes \<Rightarrow> int \<Rightarrow> spake_error + bytes \<times> bytes" where
  "ComputeSPAKE2PVerifierData S passcode salt iterations =
     (case Spake2pW0W1FromPasscode S passcode salt iterations of Inl e \<Rightarrow> Inl e
      | Inr (w0, w1) \<Rightarrow>
          (case curve_ScalarBaseMult (spake2pCurve S) w1 of Inl e \<Rightarrow> Inl e
           | Inr l \<Rightarrow>
               (case elliptic_Marshal (spake2pCurve S) l of Inl e \<Rightarrow> Inl e
                | Inr lBytes \<Rightarrow> Inr (w0, lBytes))))"

section \<open>Prover\<close>

record prover =
  p_w0 :: bytes
  p_w1 :: bytes
  p_context :: bytes
  p_x :: "nat option"
  p_pA :: bytes
  p_pB :: bytes
  p_ke :: bytes
  p_cA :: bytes
  p_cB :: bytes
  p_finalized :: bool

definition NewSPAKE2PProver :: "bytes \<Rightarrow> bytes \<Rightarrow> bytes \<Rightarrow> spake_error + prover" where
  "NewSPAKE2PProver w0 w1 context =
     (if length w0 = 0 \<or> length w1 = 0 then Inl ErrScalarsEmpty
      else Inr \<lparr>p_w0 = w0, p_w1 = w1, p_context = context, p_x = None, p_pA = [], p_pB = [],
                p_ke = [], p_cA = [], p_cB = [], p_finalized = False\<rparr>)"

text \<open>\<open>x G + w0 M\<close>, the shape of both shares, with the panics of the curve operations.\<close>

definition blind :: "curve \<Rightarrow> point \<Rightarrow> bytes \<Rightarrow> bytes \<Rightarrow> spake_error + point" where
  "blind C m w0 x =
     (case curve_ScalarBaseMult C x of Inl e \<Rightarrow> Inl e
      | Inr t \<Rightarrow> (case curve_ScalarMult C m w0 of Inl e \<Rightarrow> Inl e | Inr wm \<Rightarrow> curve_Add C t wm))"

text \<open>\<open>p - w0 M\<close>.\<close>

definition unblind :: "'x suite_scheme \<Rightarrow> point \<Rightarrow> bytes \<Rightarrow> point \<Rightarrow> spake_error + point" where
  "unblind S m w0 p =
     (case curve_ScalarMult (spake2pCurve S) m w0 of Inl e \<Rightarrow> Inl e
      | Inr wm \<Rightarrow> curve_Add (spake2pCurve S) p (spakeNegateY S wm))"

text \<open>\<open>k p\<close>, marshalled.\<close>

definition mult_marshal :: "curve \<Rightarrow> point \<Rightarrow> bytes \<Rightarrow> spake_error + bytes" where
  "mult_marshal C p k = (case curve_ScalarMult C p k of Inl e \<Rightarrow> Inl e | Inr q \<Rightarrow> elliptic_Marshal C q)"

definition ComputePA :: "'x suite_scheme \<Rightarrow> prover \<Rightarrow> bytes \<Rightarrow> (spake_error + bytes) \<times> prover \<times> bytes" where
  "ComputePA S p rnd =
     (case spakeRandomScalar rnd of
        (Inl e, rnd') \<Rightarrow> (Inl e, p, rnd')
      | (Inr x, rnd') \<Rightarrow>
          let p1 = p\<lparr>p_x := Some x\<rparr> in
          (case blind (spake2pCurve S) (spakeM S) (p_w0 p1) (Bytes x) of
             Inl e \<Rightarrow> (Inl e, p1, rnd')
           | Inr q \<Rightarrow>
               (case elliptic_Marshal (spake2pCurve S) q of
                  Inl e \<Rightarrow> (Inl e, p1, rnd')
                | Inr pA \<Rightarrow> (Inr pA, p1\<lparr>p_pA := pA\<rparr>, rnd'))))"

definition Prover_Finalize :: "'x suite_scheme \<Rightarrow> prover \<Rightarrow> bytes \<Rightarrow> (spake_error + unit) \<times> prover" where
  "Prover_Finalize S p pB =
     (if p_finalized p then (Inl ErrAlreadyFinalized, p)
      else case p_x p of None \<Rightarrow> (Inl ErrComputePAFirst, p)
      | Some x \<Rightarrow>
          (case unmarshalP256Point S pB of Inl e \<Rightarrow> (Inl e, p)
           | Inr q \<Rightarrow>
               let p1 = p\<lparr>p_pB := pB\<rparr>; C = spake2pCurve S in
               (case unblind S (spakeN S) (p_w0 p1) q of Inl e \<Rightarrow> (Inl e, p1)
                | Inr d \<Rightarrow>
                    (case mult_marshal C d (Bytes x) of Inl e \<Rightarrow> (Inl e, p1)
                     | Inr z \<Rightarrow>
                         (case mult_marshal C d (p_w1 p1) of Inl e \<Rightarrow> (Inl e, p1)
                          | Inr v \<Rightarrow>
                              (case spakeFinalize S (p_context p1) (p_pA p1) (p_pB p1) z v (p_w0 p1) of
                                 Inl e \<Rightarrow> (Inl e, p1)
                               | Inr (ke, cA, cB) \<Rightarrow>
                                   (Inr (), p1\<lparr>p_ke := ke, p_cA := cA, p_cB := cB, p_finalized := True\<rparr>)))))))"

definition ConfirmationA :: "prover \<Rightarrow> spake_error + bytes" where
  "ConfirmationA p = (if \<not> p_finalized p then Inl ErrNotFinalized else Inr (p_cA p))"

definition VerifyConfirmationB :: "prover \<Rightarrow> bytes \<Rightarrow> spake_error + unit" where
  "VerifyConfirmationB p cB =
     (if \<not> p_finalized p then Inl ErrNotFinalized
      else if p_cB p \<noteq> cB then Inl ErrConfirmationMismatch else Inr ())"

definition Prover_SharedKey :: "prover \<Rightarrow> spake_error + bytes" where
  "Prover_SharedKey p = (if \<not> p_finalized p then Inl ErrNotFinalized else Inr (p_ke p))"

section \<open>Verifier\<close>

record verifier =
  v_w0 :: bytes
  v_lBytes :: bytes
  v_l :: point
  v_context :: bytes
  v_y :: "nat option"
  v_pA :: bytes
  v_pB :: bytes
  v_zV :: "bytes option"
  v_vV :: "bytes option"
  v_ke :: bytes
  v_cA :: bytes
  v_cB :: bytes
  v_finalized :: bool

definition NewSPAKE2PVerifier :: "'x suite_scheme \<Rightarrow> bytes \<Rightarrow> bytes \<Rightarrow> bytes \<Rightarrow> spake_error + verifier" where
  "NewSPAKE2PVerifier S w0 l context =
     (if length w0 = 0 then Inl ErrScalarsEmpty
      else case unmarshalP256Point S l of Inl e \<Rightarrow> Inl (ErrVerifierL e)
      | Inr lp \<Rightarrow>
          Inr \<lparr>v_w0 = w0, v_lBytes = l, v_l = lp, v_context = context, v_y = None, v_pA = [], v_pB = [],
               v_zV = None, v_vV = None, v_ke = [], v_cA = [], v_cB = [], v_finalized = False\<rparr>)"

definition ComputePB :: "'x suite_scheme \<Rightarrow> verifier \<Rightarrow> bytes \<Rightarrow> bytes \<Rightarrow> (spake_error + bytes) \<times> verifier \<times> bytes" where
  "ComputePB S v pA rnd =
     (case unmarshalP256Point S pA of Inl e \<Rightarrow> (Inl e, v, rnd)
      | Inr q \<Rightarrow>
          let v1 = v\<lparr>v_pA := pA\<rparr>; C = spake2pCurve S in
          (case spakeRandomScalar rnd of
             (Inl e, rnd') \<Rightarrow> (Inl e, v1, rnd')
           | (Inr y, rnd') \<Rightarrow>
               let v2 = v1\<lparr>v_y := Some y\<rparr> in
               (case blind C (spakeN S) (v_w0 v2) (Bytes y) of Inl e \<Rightarrow> (Inl e, v2, rnd')
                | Inr b \<Rightarrow>
                    (case elliptic_Marshal C b of Inl e \<Rightarrow> (Inl e, v2, rnd')
                     | Inr pB \<Rightarrow>
                         let v3 = v2\<lparr>v_pB := pB\<rparr> in
                         (case unblind S (spakeM S) (v_w0 v3) q of Inl e \<Rightarrow> (Inl e, v3, rnd')
                          | Inr d \<Rightarrow>
                              (case mult_marshal C d (Bytes y) of Inl e \<Rightarrow> (Inl e, v3, rnd')
                               | Inr z \<Rightarrow>
                                   (case mult_marshal C (v_l v3) (Bytes y) of
                                      Inl e \<Rightarrow> (Inl e, v3\<lparr>v_zV := Some z\<rparr>, rnd')
                                    | Inr vv \<Rightarrow>
                                        (Inr pB, v3\<lparr>v_zV := Some z, v_vV := Some vv\<rparr>, rnd'))))))))"

definition Verifier_Finalize :: "'x suite_scheme \<Rightarrow> verifier \<Rightarrow> (spake_error + unit) \<times> verifier" where
  "Verifier_Finalize S v =
     (if v_finalized v then (Inl ErrAlreadyFinalized, v)
      else case (v_zV v, v_vV v) of
        (Some z, Some vv) \<Rightarrow>
          (case spakeFinalize S (v_context v) (v_pA v) (v_pB v) z vv (v_w0 v) of
             Inl e \<Rightarrow> (Inl e, v)
           | Inr (ke, cA, cB) \<Rightarrow> (Inr (), v\<lparr>v_ke := ke, v_cA := cA, v_cB := cB, v_finalized := True\<rparr>))
      | _ \<Rightarrow> (Inl ErrComputePBFirst, v))"

definition ConfirmationB :: "verifier \<Rightarrow> spake_error + bytes" where
  "ConfirmationB v = (if \<not> v_finalized v then Inl ErrNotFinalized else Inr (v_cB v))"

definition VerifyConfirmationA :: "verifier \<Rightarrow> bytes \<Rightarrow> spake_error + unit" where
  "VerifyConfirmationA v cA =
     (if \<not> v_finalized v then Inl ErrNotFinalized
      else if v_cA v \<noteq> cA then Inl ErrConfirmationMismatch else Inr ())"

definition Verifier_SharedKey :: "verifier \<Rightarrow> spake_error + bytes" where
  "Verifier_SharedKey v = (if \<not> v_finalized v then Inl ErrNotFinalized else Inr (v_ke v))"

section \<open>The curve operations do not panic\<close>

text \<open>The shares, the unblinded points and the shared points as points of the curve.\<close>

abbreviation smult :: "curve \<Rightarrow> bytes \<Rightarrow> point \<Rightarrow> point" where
  "smult C k p \<equiv> ec_mult C (SetBytes k) p"

definition share :: "curve \<Rightarrow> point \<Rightarrow> bytes \<Rightarrow> nat \<Rightarrow> point" where
  "share C m w0 x = ec_add C (ec_mult C x (crv_G C)) (smult C w0 m)"

definition unshare :: "curve \<Rightarrow> point \<Rightarrow> bytes \<Rightarrow> point \<Rightarrow> point" where
  "unshare C m w0 p = ec_add C p (negate_point C (smult C w0 m))"

lemma suite_points:
  assumes "suite_lawful S"
  obtains pt m n where "prime_multiples (spake2pCurve S) pt" "spakeM S = pt m" "spakeN S = pt n"
    "crv_G (spake2pCurve S) = pt 1" "crv_P (spake2pCurve S) \<le> 256 ^ crv_ByteLen (spake2pCurve S)"
proof -
  from assms obtain pt where pt: "prime_multiples (spake2pCurve S) pt"
    "crv_P (spake2pCurve S) \<le> 256 ^ crv_ByteLen (spake2pCurve S)"
    by (auto simp: suite_lawful_def curve_lawful_def prime_multiples_def)
  then have mult: "multiples (spake2pCurve S) pt" by (simp add: prime_multiples_def)
  have "valid_point (spake2pCurve S) (spakeM S)" "valid_point (spake2pCurve S) (spakeN S)"
    using assms by (auto simp: suite_lawful_def valid_point_def)
  then obtain m n where "spakeM S = pt m" "spakeN S = pt n" using valid_multiple [OF mult] by metis
  moreover have "crv_G (spake2pCurve S) = pt 1" using mult by (simp add: multiples_def)
  ultimately show ?thesis using that pt by blast
qed

lemma lawful_closed:
  assumes "curve_lawful C" "valid_point C p" "valid_point C q"
  shows "valid_point C (ec_add C p q)" "valid_point C (ec_mult C k p)" "valid_point C (negate_point C p)"
    "valid_point C (crv_G C)"
proof -
  from assms(1) obtain pt where mult: "multiples C pt" and pm: "prime_multiples C pt"
    by (auto simp: curve_lawful_def prime_multiples_def)
  obtain a b where "p = pt a" "q = pt b" using valid_multiple [OF mult] assms(2,3) by metis
  then show "valid_point C (ec_add C p q)" "valid_point C (ec_mult C k p)" "valid_point C (negate_point C p)"
    using ec.add_pt [OF pm] ec.mult_pt [OF pm] ec.neg_pt [OF pm] multiples_valid [OF mult] by auto
  show "valid_point C (crv_G C)" using mult multiples_valid [OF mult, of 1] by (simp add: multiples_def)
qed

lemma suite_lawful_simps:
  "suite_lawful S \<Longrightarrow> curve_lawful (spake2pCurve S)"
  "suite_lawful S \<Longrightarrow> valid_point (spake2pCurve S) (spakeM S)"
  "suite_lawful S \<Longrightarrow> valid_point (spake2pCurve S) (spakeN S)"
  by (auto simp: suite_lawful_def valid_point_def)

lemma spakeNegateY_eq: "spakeNegateY S p = negate_point (spake2pCurve S) p"
  by (cases p) (simp add: spakeNegateY_def negate_point_def)

lemma blind_eq:
  assumes "curve_lawful C" "valid_point C m"
  shows "blind C m w0 x = Inr (share C m w0 (SetBytes x))" "valid_point C (share C m w0 k)"
  using assms lawful_closed [OF assms(1) assms(2) assms(2)] lawful_closed(2) [OF assms(1) lawful_closed(4) [OF assms(1,2,2)]]
    lawful_closed(1) [OF assms(1)]
  by (auto simp: blind_def curve_ScalarBaseMult_def curve_ScalarMult_def curve_Add_def share_def)

lemma unblind_eq:
  assumes "curve_lawful (spake2pCurve S)" "valid_point (spake2pCurve S) m" "valid_point (spake2pCurve S) p"
  shows "unblind S m w0 p = Inr (unshare (spake2pCurve S) m w0 p)"
    "valid_point (spake2pCurve S) (unshare (spake2pCurve S) m w0 p)"
proof -
  have "valid_point (spake2pCurve S) (negate_point (spake2pCurve S) (smult (spake2pCurve S) w0 m))"
    using lawful_closed(2,3) [OF assms(1)] assms(2) by blast
  then show "unblind S m w0 p = Inr (unshare (spake2pCurve S) m w0 p)"
    "valid_point (spake2pCurve S) (unshare (spake2pCurve S) m w0 p)"
    using assms lawful_closed(1) [OF assms(1)]
    by (auto simp: unblind_def curve_ScalarMult_def curve_Add_def unshare_def spakeNegateY_eq)
qed

lemma marshal_eq: "valid_point C p \<Longrightarrow> elliptic_Marshal C p = Inr (point_bytes C p)"
  by (auto simp: point_bytes_def elliptic_Marshal_def)

lemma mult_marshal_eq:
  assumes "curve_lawful C" "valid_point C p"
  shows "mult_marshal C p k = Inr (point_bytes C (smult C k p))"
  using assms lawful_closed(2) [OF assms(1,2,2)] by (simp add: mult_marshal_def curve_ScalarMult_def marshal_eq)

lemma unmarshal_valid: "unmarshalP256Point S b = Inr q \<Longrightarrow> valid_point (spake2pCurve S) q"
  by (auto simp: unmarshalP256Point_def valid_point_def split: option.splits if_splits)

lemma unmarshal_share:
  assumes "suite_lawful S" "IsOnCurve (spake2pCurve S) q"
  shows "unmarshalP256Point S (point_bytes (spake2pCurve S) q) = Inr q"
proof -
  have "elliptic_Marshal (spake2pCurve S) q = Inr (point_bytes (spake2pCurve S) q)"
    using assms(2) by (simp add: marshal_eq valid_point_def)
  then show ?thesis
    using Unmarshal_Marshal [of "spake2pCurve S" q] assms
    by (simp add: unmarshalP256Point_def suite_lawful_def curve_lawful_def)
qed

lemma unmarshal_share_infinity: "unmarshalP256Point S (point_bytes (spake2pCurve S) infinity) = Inl ErrInvalidPoint"
proof -
  have "elliptic_Marshal (spake2pCurve S) infinity = Inr (point_bytes (spake2pCurve S) infinity)"
    by (simp add: marshal_eq valid_point_def)
  from Unmarshal_infinity [OF this] show ?thesis by (simp add: unmarshalP256Point_def)
qed

section \<open>What each step computes\<close>

lemma spakeFinalize_ok:
  assumes "suite_lawful S"
  obtains ke cA cB where "spakeFinalize S context pA pB z v w0 = Inr (ke, cA, cB)" "length ke = 16" "length cA = 32" "length cB = 32"
proof -
  obtain ck where "hkdf_read S (take 16 (sha256 S (spakeBuildTT S (sha256 S context) pA pB z v w0))) []
      (str_bytes ''ConfirmationKeys'') 32 = Some ck"
    using hkdf_lawful_read [of S 32] assms unfolding suite_lawful_def by fastforce
  moreover have "length (sha256 S b) = 32" "length (hmac_sha256 S k b) = 32" for k b
    using assms by (simp_all add: suite_lawful_def hash_lawful_def)
  ultimately show ?thesis using that
    by (simp add: spakeFinalize_def spakeHkdfSha256_def spakeSha256Sum_def spakeHmacSha256_def Let_def)
qed

lemma ComputePA_eq:
  assumes "suite_lawful S" "spakeRandomScalar rnd = (Inr x, rnd')"
  shows "ComputePA S p rnd = (Inr (point_bytes (spake2pCurve S) (share (spake2pCurve S) (spakeM S) (p_w0 p) x)),
    p\<lparr>p_x := Some x, p_pA := point_bytes (spake2pCurve S) (share (spake2pCurve S) (spakeM S) (p_w0 p) x)\<rparr>, rnd')"
  using assms blind_eq [OF suite_lawful_simps(1,2) [OF assms(1)]]
  by (simp add: ComputePA_def marshal_eq)

lemma ComputePB_eq:
  assumes "suite_lawful S" "unmarshalP256Point S pA = Inr q" "spakeRandomScalar rnd = (Inr y, rnd')"
    and "valid_point (spake2pCurve S) (v_l v)"
  defines "C \<equiv> spake2pCurve S"
  defines "pB \<equiv> point_bytes C (share C (spakeN S) (v_w0 v) y)"
  shows "ComputePB S v pA rnd = (Inr pB, v\<lparr>v_pA := pA, v_y := Some y, v_pB := pB,
      v_zV := Some (point_bytes C (ec_mult C y (unshare C (spakeM S) (v_w0 v) q))),
      v_vV := Some (point_bytes C (ec_mult C y (v_l v)))\<rparr>, rnd')"
  using assms(2-4) blind_eq [OF suite_lawful_simps(1,3) [OF assms(1)]] unmarshal_valid [OF assms(2)]
    unblind_eq [OF suite_lawful_simps(1,2) [OF assms(1)]] mult_marshal_eq [OF suite_lawful_simps(1) [OF assms(1)]]
  by (simp add: ComputePB_def C_def pB_def marshal_eq Let_def)

lemma Prover_Finalize_eq:
  assumes "suite_lawful S" "\<not> p_finalized p" "p_x p = Some x" "unmarshalP256Point S pB = Inr q"
  defines "C \<equiv> spake2pCurve S"
  defines "d \<equiv> unshare C (spakeN S) (p_w0 p) q"
  shows "Prover_Finalize S p pB =
    (case spakeFinalize S (p_context p) (p_pA p) pB (point_bytes C (ec_mult C x d)) (point_bytes C (smult C (p_w1 p) d)) (p_w0 p) of
       Inl e \<Rightarrow> (Inl e, p\<lparr>p_pB := pB\<rparr>)
     | Inr (ke, cA, cB) \<Rightarrow>
         (Inr (), p\<lparr>p_pB := pB, p_ke := ke, p_cA := cA, p_cB := cB, p_finalized := True\<rparr>))"
  using assms(2-4) unmarshal_valid [OF assms(4)]
    unblind_eq [OF suite_lawful_simps(1,3) [OF assms(1)]] mult_marshal_eq [OF suite_lawful_simps(1) [OF assms(1)]]
  by (simp add: Prover_Finalize_def C_def d_def Let_def)

section \<open>Agreement\<close>

text \<open>
  The verifier's record \<open>L\<close> belongs to the prover's \<open>w1\<close>.
\<close>

definition verifier_record :: "'x suite_scheme \<Rightarrow> bytes \<Rightarrow> bytes \<Rightarrow> bool" where
  "verifier_record S w1 l \<longleftrightarrow> elliptic_Marshal (spake2pCurve S) (smult (spake2pCurve S) w1 (crv_G (spake2pCurve S))) = Inr l"

lemma verifier_record_point:
  assumes "suite_lawful S" "verifier_record S w1 l" "unmarshalP256Point S l = Inr lp"
  shows "lp = smult (spake2pCurve S) w1 (crv_G (spake2pCurve S))"
proof -
  let ?L = "smult (spake2pCurve S) w1 (crv_G (spake2pCurve S))"
  have l: "l = point_bytes (spake2pCurve S) ?L" using assms(2) by (simp add: verifier_record_def point_bytes_def)
  have v: "valid_point (spake2pCurve S) ?L" using assms(2)
    by (auto simp: verifier_record_def elliptic_Marshal_def split: if_splits)
  show ?thesis
  proof (cases "?L = infinity")
    case True
    then show ?thesis using assms(3) unmarshal_share_infinity [of S] by (simp add: l)
  next
    case False
    then have "unmarshalP256Point S l = Inr ?L" unfolding l
      using v by (intro unmarshal_share assms(1)) (simp add: valid_point_def)
    with assms(3) show ?thesis by simp
  qed
qed

text \<open>Both sides feed the same transcript into the key derivation.\<close>

lemma shared_points:
  assumes "suite_lawful S"
  defines "C \<equiv> spake2pCurve S"
  shows "ec_mult C x (unshare C (spakeN S) w0 (share C (spakeN S) w0 y))
         = ec_mult C y (unshare C (spakeM S) w0 (share C (spakeM S) w0 x))"
    and "smult C w1 (unshare C (spakeN S) w0 (share C (spakeN S) w0 y)) = ec_mult C y (smult C w1 (crv_G C))"
proof -
  obtain pt m n where pt: "prime_multiples C pt" "spakeM S = pt m" "spakeN S = pt n" "crv_G C = pt 1"
    using suite_points [OF assms(1)] unfolding C_def by metis
  show "ec_mult C x (unshare C (spakeN S) w0 (share C (spakeN S) w0 y))
      = ec_mult C y (unshare C (spakeM S) w0 (share C (spakeM S) w0 x))"
    unfolding unshare_def share_def pt(2-4) by (rule ec.shared_Z [OF pt(1)])
  show "smult C w1 (unshare C (spakeN S) w0 (share C (spakeN S) w0 y)) = ec_mult C y (smult C w1 (crv_G C))"
    unfolding unshare_def share_def pt(2-4) by (rule ec.shared_V [OF pt(1)])
qed

lemma unmarshal_point_bytes:
  assumes "suite_lawful S" "valid_point (spake2pCurve S) p"
    and "unmarshalP256Point S (point_bytes (spake2pCurve S) p) = Inr q"
  shows "q = p"
  using assms unmarshal_share [OF assms(1), of p] unmarshal_share_infinity [of S]
  by (cases "p = infinity") (auto simp: valid_point_def)

text \<open>What the two ends of an exchange hold when both shares are out.\<close>

lemma exchange_shapes:
  assumes "suite_lawful S" "verifier_record S w1 l"
    and "NewSPAKE2PProver w0 w1 ctx = Inr p0" "NewSPAKE2PVerifier S w0 l ctx = Inr v0"
    and "ComputePA S p0 rndA = (Inr pA, p1, rndA')" "ComputePB S v0 pA rndB = (Inr pB, v1, rndB')"
    and "unmarshalP256Point S pB = Inr q"
  defines "C \<equiv> spake2pCurve S"
  obtains x where "p1 = p0\<lparr>p_x := Some x, p_pA := pA\<rparr>" "p_w0 p0 = w0" "p_w1 p0 = w1" "p_context p0 = ctx" "\<not> p_finalized p0"
    "v_w0 v1 = w0" "v_context v1 = ctx" "\<not> v_finalized v1" "v_pA v1 = pA" "v_pB v1 = pB"
    "v_zV v1 = Some (point_bytes C (ec_mult C x (unshare C (spakeN S) w0 q)))"
    "v_vV v1 = Some (point_bytes C (smult C w1 (unshare C (spakeN S) w0 q)))"
proof -
  obtain x rA where x: "spakeRandomScalar rndA = (Inr x, rA)"
    using assms(5) by (auto simp: ComputePA_def split: prod.splits sum.splits)
  obtain qa where qa: "unmarshalP256Point S pA = Inr qa"
    using assms(6) by (auto simp: ComputePB_def split: sum.splits)
  obtain y rB where y: "spakeRandomScalar rndB = (Inr y, rB)"
    using assms(6) qa by (auto simp: ComputePB_def Let_def split: prod.splits sum.splits)
  obtain lp where lp: "unmarshalP256Point S l = Inr lp" "v_l v0 = lp" "v_w0 v0 = w0" "v_context v0 = ctx" "\<not> v_finalized v0"
    using assms(4) by (auto simp: NewSPAKE2PVerifier_def split: if_splits sum.splits)
  have p0: "p_w0 p0 = w0" "p_w1 p0 = w1" "p_context p0 = ctx" "\<not> p_finalized p0"
    using assms(3) by (auto simp: NewSPAKE2PProver_def split: if_splits)
  have L: "v_l v0 = smult C w1 (crv_G C)" using verifier_record_point [OF assms(1,2) lp(1)] lp(2) by (simp add: C_def)
  then have vl: "valid_point (spake2pCurve S) (v_l v0)" using lp unmarshal_valid by simp
  have pA: "pA = point_bytes C (share C (spakeM S) w0 x)" "p1 = p0\<lparr>p_x := Some x, p_pA := pA\<rparr>"
    using ComputePA_eq [OF assms(1) x, of p0] assms(5) p0 by (auto simp: C_def)
  note B = ComputePB_eq [OF assms(1) qa y vl]
  have pB: "pB = point_bytes C (share C (spakeN S) w0 y)"
    "v1 = v0\<lparr>v_pA := pA, v_y := Some y, v_pB := pB,
      v_zV := Some (point_bytes C (ec_mult C y (unshare C (spakeM S) w0 qa))), v_vV := Some (point_bytes C (ec_mult C y (v_l v0)))\<rparr>"
    using B assms(6) lp(3) by (auto simp: C_def)
  have qs: "qa = share C (spakeM S) w0 x" "q = share C (spakeN S) w0 y"
    using unmarshal_point_bytes [OF assms(1)] blind_eq(2) [OF suite_lawful_simps(1,2) [OF assms(1)]]
      blind_eq(2) [OF suite_lawful_simps(1,3) [OF assms(1)]] qa assms(7) pA(1) pB(1) unfolding C_def by metis+
  note same = shared_points [OF assms(1), folded C_def]
  show ?thesis
    by (rule that [OF pA(2) p0]) (simp_all add: pB(2) lp(3-5) qs L same(1) [of x w0 y] same(2))
qed

lemma exchange_agrees:
  assumes "suite_lawful S" "verifier_record S w1 l"
    and "NewSPAKE2PProver w0 w1 ctx = Inr p0" "NewSPAKE2PVerifier S w0 l ctx = Inr v0"
    and "ComputePA S p0 rndA = (Inr pA, p1, rndA')" "ComputePB S v0 pA rndB = (Inr pB, v1, rndB')"
    and "unmarshalP256Point S pB = Inr q"
  obtains ke cA cB where "length ke = 16" "length cA = 32" "length cB = 32"
    "Prover_Finalize S p1 pB = (Inr (), p1\<lparr>p_pB := pB, p_ke := ke, p_cA := cA, p_cB := cB, p_finalized := True\<rparr>)"
    "Verifier_Finalize S v1 = (Inr (), v1\<lparr>v_ke := ke, v_cA := cA, v_cB := cB, v_finalized := True\<rparr>)"
proof -
  let ?C = "spake2pCurve S" let ?d = "unshare ?C (spakeN S) w0 q"
  obtain x where p: "p1 = p0\<lparr>p_x := Some x, p_pA := pA\<rparr>" "p_w0 p0 = w0" "p_w1 p0 = w1" "p_context p0 = ctx" "\<not> p_finalized p0"
    and v: "v_w0 v1 = w0" "v_context v1 = ctx" "\<not> v_finalized v1" "v_pA v1 = pA" "v_pB v1 = pB"
      "v_zV v1 = Some (point_bytes ?C (ec_mult ?C x ?d))" "v_vV v1 = Some (point_bytes ?C (smult ?C w1 ?d))"
    by (rule exchange_shapes [OF assms])
  obtain ke cA cB where f: "spakeFinalize S ctx pA pB (point_bytes ?C (ec_mult ?C x ?d)) (point_bytes ?C (smult ?C w1 ?d)) w0 = Inr (ke, cA, cB)"
    "length ke = 16" "length cA = 32" "length cB = 32"
    by (rule spakeFinalize_ok [OF assms(1)])
  have "Prover_Finalize S p1 pB = (Inr (), p1\<lparr>p_pB := pB, p_ke := ke, p_cA := cA, p_cB := cB, p_finalized := True\<rparr>)"
    using Prover_Finalize_eq [OF assms(1) _ _ assms(7), of p1 x] f(1) p by simp
  moreover have "Verifier_Finalize S v1 = (Inr (), v1\<lparr>v_ke := ke, v_cA := cA, v_cB := cB, v_finalized := True\<rparr>)"
    using f(1) v by (simp add: Verifier_Finalize_def)
  ultimately show ?thesis using that f(2-4) by blast
qed

section \<open>A small suite\<close>

definition sum_pbkdf2 :: "bytes \<Rightarrow> bytes \<Rightarrow> int \<Rightarrow> nat \<Rightarrow> bytes" where
  "sum_pbkdf2 p s i n = map (\<lambda>j. if j mod 40 = 39 then byte_sum p else 0) [0..<n]"

definition small_suite :: suite where
  "small_suite = \<lparr>ccm_seal = sum_seal, ccm_open = sum_open, hkdf_read = sum_hkdf,
     sha256 = (\<lambda>b. replicate 32 (byte_sum b)), hmac_sha256 = (\<lambda>k b. replicate 32 (byte_sum (k @ b))),
     pbkdf2_key = sum_pbkdf2, spake2pCurve = small_curve, spakeM = (4, 5), spakeN = (4, 2)\<rparr>"

lemma small_suite_lawful: "suite_lawful small_suite"
proof -
  have "hkdf_lawful small_suite" by (simp add: hkdf_lawful_def small_suite_def sum_hkdf_def)
  moreover have "hash_lawful small_suite" by (simp add: hash_lawful_def small_suite_def sum_pbkdf2_def)
  moreover have "IsOnCurve small_curve (4, 5)" "IsOnCurve small_curve (4, 2)"
    by (simp_all add: IsOnCurve_def small_curve_def)
  ultimately show ?thesis
    using small_curve_lawful by (simp add: suite_lawful_def) (simp add: small_suite_def)
qed

lemma small_derivation:
  "Spake2pW0W1FromPasscode small_suite 2 [1] 1 = Inr ([2], [2])"
  by code_simp

definition small_prover :: prover where
  "small_prover = \<lparr>p_w0 = [2], p_w1 = [2], p_context = [9], p_x = None, p_pA = [], p_pB = [],
     p_ke = [], p_cA = [], p_cB = [], p_finalized = False\<rparr>"

definition small_verifier :: verifier where
  "small_verifier = \<lparr>v_w0 = [2], v_lBytes = [4, 4, 5], v_l = (4, 5), v_context = [9], v_y = None, v_pA = [], v_pB = [],
     v_zV = None, v_vV = None, v_ke = [], v_cA = [], v_cB = [], v_finalized = False\<rparr>"

lemma small_exchange:
  "ComputeSPAKE2PVerifierData small_suite 2 [1] 1 = Inr ([2], [4, 4, 5])"
  "NewSPAKE2PVerifier small_suite [2] [4, 4, 5] [9] = Inr small_verifier"
  "NewSPAKE2PProver [2] [2] [9] = Inr small_prover"
  by code_simp+

lemma small_shares:
  "ComputePA small_suite small_prover (replicate 31 0 @ [2]) =
     (Inr [4, 0, 1], small_prover\<lparr>p_x := Some 2, p_pA := [4, 0, 1]\<rparr>, [])"
  "\<exists>v1. ComputePB small_suite small_verifier [4, 0, 1] (replicate 31 0 @ [1]) = (Inr [4, 4, 5], v1, [])"
  "unmarshalP256Point small_suite [4, 4, 5] = Inr (4, 5)"
proof -
  have "fst (ComputePB small_suite small_verifier [4, 0, 1] (replicate 31 0 @ [1])) = Inr [4, 4, 5]"
    "snd (snd (ComputePB small_suite small_verifier [4, 0, 1] (replicate 31 0 @ [1]))) = []"
    by code_simp+
  then show "\<exists>v1. ComputePB small_suite small_verifier [4, 0, 1] (replicate 31 0 @ [1]) = (Inr [4, 4, 5], v1, [])"
    by (metis prod.collapse)
qed code_simp+

lemma verifier_data_record:
  "ComputeSPAKE2PVerifierData S pc salt i = Inr (w0', l) \<Longrightarrow> Spake2pW0W1FromPasscode S pc salt i = Inr (w0, w1) \<Longrightarrow>
     w0' = w0 \<and> verifier_record S w1 l"
  by (auto simp: ComputeSPAKE2PVerifierData_def verifier_record_def curve_ScalarBaseMult_def split: sum.splits)

section \<open>Properties\<close>

text \<open>
  C3: both sides of SPAKE2+ reach the same key. A prover that knows the passcode and a
  verifier that holds the record derived from the same passcode, salt and iteration count,
  with the same context, finalize without error once they have exchanged their shares: they
  hold the same 16 byte key, and each accepts the confirmation of the other.
\<close>

theorem spake_same_passcode_same_key:
  assumes "suite_lawful S"
    and "Spake2pW0W1FromPasscode S passcode salt iterations = Inr (w0, w1)"
    and "ComputeSPAKE2PVerifierData S passcode salt iterations = Inr (w0', l)"
    and "NewSPAKE2PProver w0 w1 ctx = Inr p0" "NewSPAKE2PVerifier S w0' l ctx = Inr v0"
    and "ComputePA S p0 rndA = (Inr pA, p1, rndA')" "ComputePB S v0 pA rndB = (Inr pB, v1, rndB')"
    and "unmarshalP256Point S pB = Inr q"
  shows "\<exists>p2 v2 ke cA cB. Prover_Finalize S p1 pB = (Inr (), p2) \<and> Verifier_Finalize S v1 = (Inr (), v2)
    \<and> Prover_SharedKey p2 = Inr ke \<and> Verifier_SharedKey v2 = Inr ke \<and> length ke = 16
    \<and> ConfirmationB v2 = Inr cB \<and> VerifyConfirmationB p2 cB = Inr ()
    \<and> ConfirmationA p2 = Inr cA \<and> VerifyConfirmationA v2 cA = Inr ()"
proof -
  have r: "verifier_record S w1 l" "w0' = w0" using verifier_data_record [OF assms(3,2)] by auto
  obtain ke cA cB where "length ke = 16" "length cA = 32" "length cB = 32"
    "Prover_Finalize S p1 pB = (Inr (), p1\<lparr>p_pB := pB, p_ke := ke, p_cA := cA, p_cB := cB, p_finalized := True\<rparr>)"
    "Verifier_Finalize S v1 = (Inr (), v1\<lparr>v_ke := ke, v_cA := cA, v_cB := cB, v_finalized := True\<rparr>)"
    by (rule exchange_agrees [OF assms(1) r(1) assms(4) assms(5) [unfolded r(2)] assms(6-8)])
  then show ?thesis
    by (simp add: Prover_SharedKey_def Verifier_SharedKey_def ConfirmationA_def ConfirmationB_def
        VerifyConfirmationA_def VerifyConfirmationB_def)
qed

theorem spake_same_passcode_same_key_witness:
  "\<exists>p1 v1 p2 v2 ke cA cB.
      Prover_Finalize small_suite p1 [4, 4, 5] = (Inr (), p2) \<and> Verifier_Finalize small_suite v1 = (Inr (), v2)
    \<and> Prover_SharedKey p2 = Inr ke \<and> Verifier_SharedKey v2 = Inr ke \<and> length ke = 16
    \<and> ConfirmationB v2 = Inr cB \<and> VerifyConfirmationB p2 cB = Inr ()
    \<and> ConfirmationA p2 = Inr cA \<and> VerifyConfirmationA v2 cA = Inr ()"
proof -
  obtain v1 where b: "ComputePB small_suite small_verifier [4, 0, 1] (replicate 31 0 @ [1]) = (Inr [4, 4, 5], v1, [])"
    using small_shares(2) by blast
  show ?thesis
    using spake_same_passcode_same_key [OF small_suite_lawful small_derivation small_exchange(1,3,2) small_shares(1) b
        small_shares(3)] by blast
qed

text \<open>
  C26: no run can panic. Given the curve's laws, no input from the peer, however malformed,
  and no random scalar makes a method of prover or verifier panic: a share that is not a point
  of the curve, the point at infinity included, is answered with an error value.
\<close>

theorem spake_never_panics:
  assumes "suite_lawful S" "valid_point (spake2pCurve S) (v_l v)"
  shows "fst (ComputePA S p rnd) \<noteq> Inl SpakePanic \<and> fst (Prover_Finalize S p b) \<noteq> Inl SpakePanic
    \<and> fst (ComputePB S v b rnd) \<noteq> Inl SpakePanic \<and> fst (Verifier_Finalize S v) \<noteq> Inl SpakePanic"
proof (intro conjI)
  have F: "spakeFinalize S c a b' z w k \<noteq> Inl e" for c a b' z w k e
    by (rule spakeFinalize_ok [OF assms(1), of c a b' z w k]) simp
  have R: "spakeRandomScalar rnd = (Inl e, r) \<Longrightarrow> e \<noteq> SpakePanic" for e r
    by (auto simp: spakeRandomScalar_def split: sum.splits prod.splits)
  have U: "unmarshalP256Point S b = Inl e \<Longrightarrow> e \<noteq> SpakePanic" for e
    by (auto simp: unmarshalP256Point_def split: option.splits if_splits)
  show "fst (ComputePA S p rnd) \<noteq> Inl SpakePanic"
  proof (cases "spakeRandomScalar rnd")
    case (Pair r rnd')
    then show ?thesis using ComputePA_eq [OF assms(1), of rnd _ rnd' p] R
      by (cases r) (auto simp: ComputePA_def)
  qed
  show "fst (Prover_Finalize S p b) \<noteq> Inl SpakePanic"
  proof (cases "\<not> p_finalized p \<and> (\<exists>x. p_x p = Some x) \<and> (\<exists>q. unmarshalP256Point S b = Inr q)")
    case True
    then obtain x q where "\<not> p_finalized p" "p_x p = Some x" "unmarshalP256Point S b = Inr q" by blast
    from Prover_Finalize_eq [OF assms(1) this] F show ?thesis by (auto split: sum.splits)
  next
    case False
    then show ?thesis using U by (auto simp: Prover_Finalize_def split: sum.splits option.splits)
  qed
  show "fst (ComputePB S v b rnd) \<noteq> Inl SpakePanic"
  proof (cases "unmarshalP256Point S b")
    case (Inl e)
    then show ?thesis using U by (simp add: ComputePB_def)
  next
    case (Inr q)
    obtain r rnd' where "spakeRandomScalar rnd = (r, rnd')" by force
    then show ?thesis using ComputePB_eq [OF assms(1) Inr _ assms(2), of rnd _ rnd'] R Inr
      by (cases r) (auto simp: ComputePB_def Let_def)
  qed
  show "fst (Verifier_Finalize S v) \<noteq> Inl SpakePanic"
    using F by (auto simp: Verifier_Finalize_def split: option.splits sum.splits)
qed


theorem spake_never_panics_witness:
  "fst (ComputePA small_suite small_prover []) \<noteq> Inl SpakePanic
    \<and> fst (Prover_Finalize small_suite small_prover [4, 0, 0]) \<noteq> Inl SpakePanic
    \<and> fst (ComputePB small_suite small_verifier [4, 0, 0] []) \<noteq> Inl SpakePanic
    \<and> fst (Verifier_Finalize small_suite small_verifier) \<noteq> Inl SpakePanic"
proof (rule spake_never_panics [OF small_suite_lawful])
  show "valid_point (spake2pCurve small_suite) (v_l small_verifier)" by code_simp
qed

lemma serialize_inj:
  assumes "length p < 2 ^ 64" "length q < 2 ^ 64"
  shows "spakeSerializeBytes p @ r = spakeSerializeBytes q @ s \<longleftrightarrow> p = q \<and> r = s"
proof
  assume eq: "spakeSerializeBytes p @ r = spakeSerializeBytes q @ s"
  then have "PutUint64 (of_nat (length p)) = PutUint64 (of_nat (length q))" and rest: "p @ r = q @ s"
    by (simp_all add: spakeSerializeBytes_def)
  then have "(of_nat (length p) :: u64) = of_nat (length q)" by simp
  then have "length p = length q"
    using assms by (simp add: word_unat_eq_iff unat_of_nat take_bit_nat_eq_self)
  with rest show "p = q \<and> r = s" by simp
qed simp

text \<open>
  The transcript determines everything in it: each part is preceded by its length, so no bytes
  can move from one part to the next.
\<close>

lemma transcript_inj:
  assumes "\<forall>b \<in> {c, pA, pB, z, v, w0, c', pA', pB', z', v', w0'}. length b < 2 ^ 64"
    and "length (point_bytes (spake2pCurve S) (spakeM S)) < 2 ^ 64"
    and "length (point_bytes (spake2pCurve S) (spakeN S)) < 2 ^ 64"
  shows "spakeBuildTT S c pA pB z v w0 = spakeBuildTT S c' pA' pB' z' v' w0' \<longleftrightarrow>
    (c, pA, pB, z, v, w0) = (c', pA', pB', z', v', w0')"
  using assms serialize_inj [of w0 w0' "[]" "[]"]
  by (simp add: spakeBuildTT_def serialize_inj)

section \<open>Life of a prover and a verifier\<close>

text \<open>Any call, in any order, with any argument.\<close>

inductive prover_step :: "'x suite_scheme \<Rightarrow> prover \<Rightarrow> prover \<Rightarrow> bool" for S where
  pa: "ComputePA S p rnd = (r, p', rnd') \<Longrightarrow> prover_step S p p'"
| fin: "Prover_Finalize S p b = (r, p') \<Longrightarrow> prover_step S p p'"

inductive verifier_step :: "'x suite_scheme \<Rightarrow> verifier \<Rightarrow> verifier \<Rightarrow> bool" for S where
  pb: "ComputePB S v b rnd = (r, v', rnd') \<Longrightarrow> verifier_step S v v'"
| fin: "Verifier_Finalize S v = (r, v') \<Longrightarrow> verifier_step S v v'"

lemma prover_step_keys:
  assumes "prover_step S p p'" "p_finalized p"
  shows "p_finalized p' \<and> p_ke p' = p_ke p \<and> p_cA p' = p_cA p \<and> p_cB p' = p_cB p"
  using assms
  by (cases rule: prover_step.cases)
    (auto simp: ComputePA_def Prover_Finalize_def Let_def split: prod.splits sum.splits)

lemma verifier_step_keys:
  assumes "verifier_step S v v'" "v_finalized v"
  shows "v_finalized v' \<and> v_ke v' = v_ke v \<and> v_cA v' = v_cA v \<and> v_cB v' = v_cB v"
  using assms
  by (cases rule: verifier_step.cases)
    (auto simp: ComputePB_def Verifier_Finalize_def Let_def split: prod.splits sum.splits)

text \<open>
  C27: keys are settled once. After a prover or verifier has finalized, no sequence of
  further calls, with whatever arguments and random bytes, changes the key or the confirmation
  value it gives out, nor which confirmations of the peer it accepts.
\<close>

theorem spake_keys_settled_once:
  assumes "(prover_step S)\<^sup>*\<^sup>* p p'" "(verifier_step S)\<^sup>*\<^sup>* v v'" "p_finalized p" "v_finalized v"
  shows "Prover_SharedKey p' = Prover_SharedKey p \<and> ConfirmationA p' = ConfirmationA p
    \<and> VerifyConfirmationB p' = VerifyConfirmationB p
    \<and> Verifier_SharedKey v' = Verifier_SharedKey v \<and> ConfirmationB v' = ConfirmationB v
    \<and> VerifyConfirmationA v' = VerifyConfirmationA v"
proof -
  have "p_finalized p' \<and> p_ke p' = p_ke p \<and> p_cA p' = p_cA p \<and> p_cB p' = p_cB p"
    using assms(1,3) by (induction rule: rtranclp_induct) (auto dest: prover_step_keys)
  moreover have "v_finalized v' \<and> v_ke v' = v_ke v \<and> v_cA v' = v_cA v \<and> v_cB v' = v_cB v"
    using assms(2,4) by (induction rule: rtranclp_induct) (auto dest: verifier_step_keys)
  ultimately show ?thesis using assms(3,4)
    by (auto simp: fun_eq_iff Prover_SharedKey_def ConfirmationA_def VerifyConfirmationB_def
        Verifier_SharedKey_def ConfirmationB_def VerifyConfirmationA_def)
qed

theorem spake_keys_settled_once_witness:
  "\<exists>p p' v v'. prover_step small_suite p p' \<and> p' \<noteq> p \<and> verifier_step small_suite v v' \<and> p_finalized p \<and> v_finalized v
    \<and> Prover_SharedKey p' = Prover_SharedKey p \<and> ConfirmationA p' = ConfirmationA p
    \<and> VerifyConfirmationB p' = VerifyConfirmationB p
    \<and> Verifier_SharedKey v' = Verifier_SharedKey v \<and> ConfirmationB v' = ConfirmationB v
    \<and> VerifyConfirmationA v' = VerifyConfirmationA v"
proof -
  let ?p = "small_prover\<lparr>p_finalized := True\<rparr>" and ?v = "small_verifier\<lparr>v_finalized := True\<rparr>"
  let ?p' = "?p\<lparr>p_x := Some 2, p_pA := [4, 0, 1]\<rparr>"
  have "ComputePA small_suite ?p (replicate 31 0 @ [2]) = (Inr [4, 0, 1], ?p', [])" by code_simp
  then have p: "prover_step small_suite ?p ?p'" by (rule prover_step.pa)
  have v: "verifier_step small_suite ?v ?v"
    by (rule verifier_step.fin [where r = "Inl ErrAlreadyFinalized"]) (simp add: Verifier_Finalize_def)
  have "?p' \<noteq> ?p" by (simp add: small_prover_def)
  then show ?thesis
    using p v spake_keys_settled_once [OF r_into_rtranclp [where r = "prover_step small_suite", OF p]
        r_into_rtranclp [where r = "verifier_step small_suite", OF v]]
    by (intro exI [of _ ?p] exI [of _ ?p'] exI [of _ ?v]) simp
qed

end
