(* ===== verification/Commissioning.thy ===== *)
theory Commissioning
  imports Pase_Messages Spake2plus Session Transport
begin

text \<open>
  \<^verbatim>\<open>commissioning/commissioning.go\<close>, \<^verbatim>\<open>commissionee.go\<close> and \<^verbatim>\<open>commissioner.go\<close>:
  the two ends of the PASE handshake. A handler is an action on the pair of a party and its
  surroundings: the bytes the random source will deliver and the frames handed to the
  messenger so far. An action returns an error or a value, and the state it leaves behind in
  either case. The session manager a party points to is a field of its record. A messenger is
  nil or a function that says which error, if any, sending a frame gives; the two send
  errors are those of the messengers in \<^verbatim>\<open>samples/\<close>.
\<close>

datatype commissioning_state =
    StateIdle
  | StatePASE_PBKDFParamResponse
  | StatePASE_Pake1
  | StatePASE_Pake2
  | StatePASE_Pake3
  | StateCASE
  | StateComplete
  | StateError

datatype comm_error =
    ErrNilSessionManager
  | PanicNilSessionManager
  | ErrRandRead io_error
  | ErrDecode tlv_error
  | ErrWrongInitiatorRandom
  | ErrMissingParameters
  | ErrPake2BeforePake1
  | ErrPake3BeforePake1
  | ErrSpake spake_error
  | ErrSessionKeys crypto_error
  | ErrBuild builder_error
  | ErrSend transport_error
  | ErrNoKnownPeer
  | ErrUnexpectedOpcode u8

type_synonym messenger = "(frame \<Rightarrow> comm_error option) option"

record env =
  e_rnd :: bytes
  e_sent :: "frame list"

section \<open>Actions\<close>

type_synonym ('s, 'a) act = "'s \<Rightarrow> (comm_error + 'a) \<times> 's"

definition ok :: "'a \<Rightarrow> ('s, 'a) act" where
  "ok x = (\<lambda>s. (Inr x, s))"

definition err :: "comm_error \<Rightarrow> ('s, 'a) act" where
  "err e = (\<lambda>s. (Inl e, s))"

definition bnd :: "('s, 'a) act \<Rightarrow> ('a \<Rightarrow> ('s, 'b) act) \<Rightarrow> ('s, 'b) act" where
  "bnd m f = (\<lambda>s. case m s of (Inl e, s') \<Rightarrow> (Inl e, s') | (Inr x, s') \<Rightarrow> f x s')"

definition upd :: "('p \<Rightarrow> 'p) \<Rightarrow> ('p \<times> env, unit) act" where
  "upd g = (\<lambda>(p, e). (Inr (), (g p, e)))"

definition ask :: "('p \<Rightarrow> 'a) \<Rightarrow> ('p \<times> env, 'a) act" where
  "ask f = (\<lambda>(p, e). (Inr (f p), (p, e)))"

definition try_or :: "('e \<Rightarrow> comm_error) \<Rightarrow> 'e + 'a \<Rightarrow> ('s, 'a) act" where
  "try_or h r = (case r of Inl e \<Rightarrow> err (h e) | Inr x \<Rightarrow> ok x)"

text \<open>A call that draws scalars from the random source.\<close>

definition with_rnd :: "(bytes \<Rightarrow> ('e + 'a) \<times> 'b \<times> bytes) \<Rightarrow> ('p \<times> env, ('e + 'a) \<times> 'b) act" where
  "with_rnd f = (\<lambda>(p, e). case f (e_rnd e) of (r, b, rnd) \<Rightarrow> (Inr (r, b), (p, e\<lparr>e_rnd := rnd\<rparr>)))"

text \<open>\<^verbatim>\<open>rand.Read\<close> into a buffer of \<open>n\<close> bytes; the first component is the buffer afterwards.\<close>

definition rand_Read :: "nat \<Rightarrow> ('p \<times> env, bytes \<times> io_error option) act" where
  "rand_Read n = (\<lambda>(p, e).
     case ReadFull n (e_rnd e) of
       Inl er \<Rightarrow> (Inr (take n (e_rnd e @ replicate n 0), Some er), (p, e\<lparr>e_rnd := []\<rparr>))
     | Inr (b, rnd) \<Rightarrow> (Inr (b, None), (p, e\<lparr>e_rnd := rnd\<rparr>)))"

definition rand_check :: "io_error option \<Rightarrow> ('s, unit) act" where
  "rand_check r = (case r of None \<Rightarrow> ok () | Some e \<Rightarrow> err (ErrRandRead e))"

definition comm_send :: "messenger \<Rightarrow> frame \<Rightarrow> ('p \<times> env, unit) act" where
  "comm_send Ms f = (\<lambda>(p, e).
     case Ms of None \<Rightarrow> (Inr (), (p, e))
     | Some snd_msg \<Rightarrow>
         (case snd_msg f of None \<Rightarrow> Inr () | Some er \<Rightarrow> Inl er, (p, e\<lparr>e_sent := e_sent e @ [f]\<rparr>)))"

section \<open>Shared helpers\<close>

definition paseContextPrefix :: string where
  "paseContextPrefix = ''CHIP PAKE V1 Commissioning''"

definition paseContext :: "bytes \<Rightarrow> bytes \<Rightarrow> bytes" where
  "paseContext req resp = str_bytes paseContextPrefix @ req @ resp"

definition bumpCounter :: "u32 \<Rightarrow> ('p \<times> env, u32) act" where
  "bumpCounter ctr =
     (if ctr = 0 then
        bnd (rand_Read 4) (\<lambda>(b, r). bnd (rand_check r) (\<lambda>_. ok (Uint32 b)))
      else ok (ctr + 1))"

definition installPASESession ::
  "'x suite_scheme \<Rightarrow> session_manager \<Rightarrow> u16 \<Rightarrow> bytes \<Rightarrow> role \<Rightarrow> crypto_error + session_manager" where
  "installPASESession S sm i ke role =
     (case DeriveSessionKeysFromKe S ke of Inl e \<Rightarrow> Inl e
      | Inr keys \<Rightarrow> Inr (InstallSecureSession sm i UnspecifiedNodeID UnspecifiedNodeID keys role))"

text \<open>
  The frame both \<^verbatim>\<open>buildFrame\<close> methods assemble; the initiator also sets its flag.
\<close>

definition pase_builder :: "bool \<Rightarrow> u8 \<Rightarrow> u16 \<Rightarrow> u32 \<Rightarrow> u32 \<Rightarrow> goval \<Rightarrow> builder" where
  "pase_builder initiator opcode exchange counter ackMC payload =
     (let b0 = b_MessageCounter counter (b_ExchangeID exchange (b_Opcode opcode
                 (b_Protocol ProtocolSecureChannel (b_Unsecured NewBuilder))));
          b1 = b_Payload (PValue payload) (b_RequestAck (if initiator then b_Initiator b0 else b0)) in
      if ackMC \<noteq> 0 then b_AckCounter ackMC b1 else b1)"

section \<open>Commissionee\<close>

record commissionee =
  ce_State :: commissioning_state
  ce_Salt :: bytes
  ce_Iterations :: u32
  ce_W0 :: bytes
  ce_L :: bytes
  ce_Random :: bytes
  ce_sessionManager :: session_manager
  ce_SessionID :: u16
  ce_MessageCounter :: u32
  ce_InitiatorRandom :: bytes
  ce_InitiatorSessionID :: u16
  ce_ExchangeID :: u16
  ce_RequestPayload :: bytes
  ce_ResponsePayload :: bytes
  ce_Ke :: bytes
  ce_verifier :: "verifier option"

definition NewCommissionee ::
  "'x suite_scheme \<Rightarrow> u32 \<Rightarrow> bytes \<Rightarrow> int \<Rightarrow> session_manager option \<Rightarrow> comm_error + commissionee" where
  "NewCommissionee S passcode salt iterations sm =
     (case sm of None \<Rightarrow> Inl ErrNilSessionManager
      | Some m \<Rightarrow>
          (case ComputeSPAKE2PVerifierData S passcode salt iterations of Inl e \<Rightarrow> Inl (ErrSpake e)
           | Inr (w0, l) \<Rightarrow>
               Inr \<lparr>ce_State = StateIdle, ce_Salt = salt, ce_Iterations = word_of_int iterations, ce_W0 = w0, ce_L = l,
                    ce_Random = [], ce_sessionManager = m, ce_SessionID = 0, ce_MessageCounter = 0,
                    ce_InitiatorRandom = [], ce_InitiatorSessionID = 0, ce_ExchangeID = 0,
                    ce_RequestPayload = [], ce_ResponsePayload = [], ce_Ke = [], ce_verifier = None\<rparr>))"

definition ce_buildFrame :: "u8 \<Rightarrow> u32 \<Rightarrow> goval \<Rightarrow> (commissionee \<times> env, frame) act" where
  "ce_buildFrame opcode ackMC payload =
     bnd (ask ce_MessageCounter) (\<lambda>ctr.
     bnd (bumpCounter ctr) (\<lambda>ctr'.
     bnd (upd (\<lambda>c. c\<lparr>ce_MessageCounter := ctr'\<rparr>)) (\<lambda>_.
     bnd (ask ce_ExchangeID) (\<lambda>ex.
     try_or ErrBuild (b_Build (pase_builder False opcode ex ctr' ackMC payload))))))"

definition handlePBKDFParamRequest :: "messenger \<Rightarrow> frame \<Rightarrow> (commissionee \<times> env, unit) act" where
  "handlePBKDFParamRequest Ms frame =
     bnd (try_or ErrDecode (decode_message request_type request_of (f_Payload frame))) (\<lambda>req.
     bnd (upd (\<lambda>c. c\<lparr>ce_InitiatorRandom := req_InitiatorRandom req,
                     ce_InitiatorSessionID := req_InitiatorSessionID req,
                     ce_ExchangeID := ph_ExchangeID (f_PayloadHeader frame),
                     ce_RequestPayload := f_Payload frame\<rparr>)) (\<lambda>_.
     bnd (rand_Read 32) (\<lambda>(b, r).
     bnd (upd (\<lambda>c. c\<lparr>ce_Random := b\<rparr>)) (\<lambda>_.
     bnd (rand_check r) (\<lambda>_.
     bnd (upd (\<lambda>c. if ce_SessionID c = 0 then c\<lparr>ce_SessionID := 23456\<rparr> else c)) (\<lambda>_.
     bnd (ask (\<lambda>c. \<lparr>resp_InitiatorRandom = ce_InitiatorRandom c, resp_ResponderRandom = ce_Random c,
                    resp_ResponderSessionID = ce_SessionID c,
                    resp_Params = (if \<not> req_HasPBKDFParameters req
                      then Some \<lparr>ps_Iterations = ce_Iterations c, ps_Salt = ce_Salt c\<rparr> else None)\<rparr>)) (\<lambda>resp.
     bnd (ce_buildFrame OpcodePBKDFParamResponse (h_MessageCounter (f_Header frame))
            (VPtr response_type (Some (response_val resp)))) (\<lambda>out.
     bnd (upd (\<lambda>c. c\<lparr>ce_ResponsePayload := f_Payload out, ce_State := StatePASE_Pake1\<rparr>)) (\<lambda>_.
     comm_send Ms out)))))))))"

definition handlePake1 :: "'x suite_scheme \<Rightarrow> messenger \<Rightarrow> frame \<Rightarrow> (commissionee \<times> env, unit) act" where
  "handlePake1 S Ms frame =
     bnd (try_or ErrDecode (decode_message pake1_type pake1_of (f_Payload frame))) (\<lambda>p1.
     bnd (ask (\<lambda>c. NewSPAKE2PVerifier S (ce_W0 c) (ce_L c) (paseContext (ce_RequestPayload c) (ce_ResponsePayload c)))) (\<lambda>r.
     bnd (try_or ErrSpake r) (\<lambda>v0.
     bnd (with_rnd (ComputePB S v0 (pk1_PA p1))) (\<lambda>(r, v1).
     bnd (try_or ErrSpake r) (\<lambda>pB.
     (case Verifier_Finalize S v1 of (r, v2) \<Rightarrow>
     bnd (try_or ErrSpake r) (\<lambda>_.
     bnd (try_or ErrSpake (ConfirmationB v2)) (\<lambda>cB.
     bnd (upd (\<lambda>c. c\<lparr>ce_verifier := Some v2\<rparr>)) (\<lambda>_.
     bnd (ce_buildFrame OpcodePASEPake2 (h_MessageCounter (f_Header frame))
            (VPtr pake2_type (Some (pake2_val \<lparr>pk2_PB = pB, pk2_CB = cB\<rparr>)))) (\<lambda>out.
     bnd (upd (\<lambda>c. c\<lparr>ce_State := StatePASE_Pake3\<rparr>)) (\<lambda>_.
     comm_send Ms out)))))))))))"

definition handlePake3 :: "'x suite_scheme \<Rightarrow> frame \<Rightarrow> (commissionee \<times> env, unit) act" where
  "handlePake3 S frame =
     bnd (ask ce_verifier) (\<lambda>ov.
     (case ov of None \<Rightarrow> err ErrPake3BeforePake1
      | Some v \<Rightarrow>
          bnd (try_or ErrDecode (decode_message pake3_type pake3_of (f_Payload frame))) (\<lambda>p3.
          bnd (try_or ErrSpake (VerifyConfirmationA v (pk3_CA p3))) (\<lambda>_.
          bnd (try_or ErrSpake (Verifier_SharedKey v)) (\<lambda>ke.
          bnd (upd (\<lambda>c. c\<lparr>ce_Ke := ke\<rparr>)) (\<lambda>_.
          bnd (ask (\<lambda>c. installPASESession S (ce_sessionManager c) (ce_SessionID c) (ce_Ke c) RoleResponder)) (\<lambda>r.
          bnd (try_or ErrSessionKeys r) (\<lambda>sm.
          upd (\<lambda>c. c\<lparr>ce_sessionManager := sm, ce_State := StateComplete\<rparr>)))))))))"

definition Commissionee_HandleMessage :: "'x suite_scheme \<Rightarrow> messenger \<Rightarrow> frame \<Rightarrow> (commissionee \<times> env, unit) act" where
  "Commissionee_HandleMessage S Ms frame =
     (let op = ph_Opcode (f_PayloadHeader frame) in
      if op = OpcodePBKDFParamRequest then handlePBKDFParamRequest Ms frame
      else if op = OpcodePASEPake1 then handlePake1 S Ms frame
      else if op = OpcodePASEPake3 then handlePake3 S frame
      else err (ErrUnexpectedOpcode op))"

section \<open>Commissioner\<close>

record commissioner =
  cr_State :: commissioning_state
  cr_sessionManager :: session_manager
  cr_Passcode :: u32
  cr_Random :: bytes
  cr_SessionID :: u16
  cr_ExchangeID :: u16
  cr_MessageCounter :: u32
  cr_RequestPayload :: bytes
  cr_ResponsePayload :: bytes
  cr_ResponderRandom :: bytes
  cr_ResponderSessionID :: u16
  cr_Salt :: bytes
  cr_Iterations :: u32
  cr_Ke :: bytes
  cr_prover :: "prover option"

text \<open>
  Without a session manager \<^verbatim>\<open>NewCommissionee\<close> returns an error, \<^verbatim>\<open>NewCommissioner\<close>
  panics; the panic is \<open>PanicNilSessionManager\<close> and nothing else is that value.
\<close>

definition NewCommissioner :: "session_manager option \<Rightarrow> comm_error + commissioner" where
  "NewCommissioner sm =
     (case sm of None \<Rightarrow> Inl PanicNilSessionManager
      | Some m \<Rightarrow>
          Inr \<lparr>cr_State = StateIdle, cr_sessionManager = m, cr_Passcode = 0, cr_Random = [], cr_SessionID = 0,
               cr_ExchangeID = 0, cr_MessageCounter = 0, cr_RequestPayload = [], cr_ResponsePayload = [],
               cr_ResponderRandom = [], cr_ResponderSessionID = 0, cr_Salt = [], cr_Iterations = 0,
               cr_Ke = [], cr_prover = None\<rparr>)"

definition cr_buildFrame :: "u8 \<Rightarrow> u32 \<Rightarrow> goval \<Rightarrow> (commissioner \<times> env, frame) act" where
  "cr_buildFrame opcode ackMC payload =
     bnd (ask cr_MessageCounter) (\<lambda>ctr.
     bnd (bumpCounter ctr) (\<lambda>ctr'.
     bnd (upd (\<lambda>c. c\<lparr>cr_MessageCounter := ctr'\<rparr>)) (\<lambda>_.
     bnd (ask cr_ExchangeID) (\<lambda>ex.
     try_or ErrBuild (b_Build (pase_builder True opcode ex ctr' ackMC payload))))))"

definition StartPASE :: "messenger \<Rightarrow> u32 \<Rightarrow> (commissioner \<times> env, unit) act" where
  "StartPASE Ms passcode =
     bnd (upd (\<lambda>c. c\<lparr>cr_Passcode := passcode\<rparr>)) (\<lambda>_.
     bnd (rand_Read 32) (\<lambda>(b, r).
     bnd (upd (\<lambda>c. c\<lparr>cr_Random := b\<rparr>)) (\<lambda>_.
     bnd (rand_check r) (\<lambda>_.
     bnd (upd (\<lambda>c. if cr_SessionID c = 0 then c\<lparr>cr_SessionID := 12345\<rparr> else c)) (\<lambda>_.
     bnd (upd (\<lambda>c. if cr_ExchangeID c = 0 then c\<lparr>cr_ExchangeID := 1\<rparr> else c)) (\<lambda>_.
     bnd (ask (\<lambda>c. \<lparr>req_InitiatorRandom = cr_Random c, req_InitiatorSessionID = cr_SessionID c,
                    req_PasscodeID = 0, req_HasPBKDFParameters = False, req_InitiatorNodeID = 0\<rparr>)) (\<lambda>req.
     bnd (cr_buildFrame OpcodePBKDFParamRequest 0 (VPtr request_type (Some (request_val req)))) (\<lambda>frame.
     bnd (upd (\<lambda>c. c\<lparr>cr_RequestPayload := f_Payload frame, cr_State := StatePASE_PBKDFParamResponse\<rparr>)) (\<lambda>_.
     comm_send Ms frame)))))))))"

definition sendPake1 :: "'x suite_scheme \<Rightarrow> messenger \<Rightarrow> u32 \<Rightarrow> (commissioner \<times> env, unit) act" where
  "sendPake1 S Ms ackMC =
     bnd (ask (\<lambda>c. Spake2pW0W1FromPasscode S (cr_Passcode c) (cr_Salt c) (uint (cr_Iterations c)))) (\<lambda>r.
     bnd (try_or ErrSpake r) (\<lambda>(w0, w1).
     bnd (ask (\<lambda>c. NewSPAKE2PProver w0 w1 (paseContext (cr_RequestPayload c) (cr_ResponsePayload c)))) (\<lambda>r.
     bnd (upd (\<lambda>c. c\<lparr>cr_prover := (case r of Inl e \<Rightarrow> None | Inr p \<Rightarrow> Some p)\<rparr>)) (\<lambda>_.
     bnd (try_or ErrSpake r) (\<lambda>p0.
     bnd (with_rnd (ComputePA S p0)) (\<lambda>(r, p1).
     bnd (upd (\<lambda>c. c\<lparr>cr_prover := Some p1\<rparr>)) (\<lambda>_.
     bnd (try_or ErrSpake r) (\<lambda>pA.
     bnd (cr_buildFrame OpcodePASEPake1 ackMC (VPtr pake1_type (Some (pake1_val \<lparr>pk1_PA = pA\<rparr>)))) (\<lambda>frame.
     bnd (upd (\<lambda>c. c\<lparr>cr_State := StatePASE_Pake2\<rparr>)) (\<lambda>_.
     comm_send Ms frame))))))))))"

definition handlePBKDFParamResponse :: "'x suite_scheme \<Rightarrow> messenger \<Rightarrow> frame \<Rightarrow> (commissioner \<times> env, unit) act" where
  "handlePBKDFParamResponse S Ms frame =
     bnd (try_or ErrDecode (decode_message response_type response_of (f_Payload frame))) (\<lambda>resp.
     bnd (ask cr_Random) (\<lambda>rnd.
     if resp_InitiatorRandom resp \<noteq> rnd then err ErrWrongInitiatorRandom
     else case resp_Params resp of None \<Rightarrow> err ErrMissingParameters
     | Some ps \<Rightarrow>
         bnd (upd (\<lambda>c. c\<lparr>cr_ResponderRandom := resp_ResponderRandom resp,
                         cr_ResponderSessionID := resp_ResponderSessionID resp,
                         cr_Salt := ps_Salt ps, cr_Iterations := ps_Iterations ps,
                         cr_ResponsePayload := f_Payload frame\<rparr>)) (\<lambda>_.
         sendPake1 S Ms (h_MessageCounter (f_Header frame)))))"

definition handlePake2 :: "'x suite_scheme \<Rightarrow> messenger \<Rightarrow> frame \<Rightarrow> (commissioner \<times> env, unit) act" where
  "handlePake2 S Ms frame =
     bnd (ask cr_prover) (\<lambda>op.
     (case op of None \<Rightarrow> err ErrPake2BeforePake1
      | Some p \<Rightarrow>
          bnd (try_or ErrDecode (decode_message pake2_type pake2_of (f_Payload frame))) (\<lambda>p2.
          (case Prover_Finalize S p (pk2_PB p2) of (r, p') \<Rightarrow>
          bnd (upd (\<lambda>c. c\<lparr>cr_prover := Some p'\<rparr>)) (\<lambda>_.
          bnd (try_or ErrSpake r) (\<lambda>_.
          bnd (try_or ErrSpake (VerifyConfirmationB p' (pk2_CB p2))) (\<lambda>_.
          bnd (try_or ErrSpake (ConfirmationA p')) (\<lambda>cA.
          bnd (try_or ErrSpake (Prover_SharedKey p')) (\<lambda>ke.
          bnd (upd (\<lambda>c. c\<lparr>cr_Ke := ke\<rparr>)) (\<lambda>_.
          bnd (ask (\<lambda>c. installPASESession S (cr_sessionManager c) (cr_SessionID c) (cr_Ke c) RoleInitiator)) (\<lambda>r.
          bnd (try_or ErrSessionKeys r) (\<lambda>sm.
          bnd (upd (\<lambda>c. c\<lparr>cr_sessionManager := sm\<rparr>)) (\<lambda>_.
          bnd (cr_buildFrame OpcodePASEPake3 (h_MessageCounter (f_Header frame))
                 (VPtr pake3_type (Some (pake3_val \<lparr>pk3_CA = cA\<rparr>)))) (\<lambda>out.
          bnd (upd (\<lambda>c. c\<lparr>cr_State := StateComplete\<rparr>)) (\<lambda>_.
          comm_send Ms out)))))))))))))))"

definition Commissioner_HandleMessage :: "'x suite_scheme \<Rightarrow> messenger \<Rightarrow> frame \<Rightarrow> (commissioner \<times> env, unit) act" where
  "Commissioner_HandleMessage S Ms frame =
     (let op = ph_Opcode (f_PayloadHeader frame) in
      if op = OpcodePBKDFParamResponse then handlePBKDFParamResponse S Ms frame
      else if op = OpcodePASEPake2 then handlePake2 S Ms frame
      else err (ErrUnexpectedOpcode op))"

definition StartCASE :: "u64 \<Rightarrow> (commissioner \<times> env, unit) act" where
  "StartCASE nodeID = upd (\<lambda>c. c\<lparr>cr_State := StateCASE\<rparr>)"

end
