(* ===== verification/Pase_Safety.thy ===== *)
theory Pase_Safety
  imports Commissioning
begin

text \<open>
  What the handlers of both parties may and may not do, for every frame and in every state:
  a session is installed only after the peer's confirmation has been verified, a failing
  handler leaves the session table alone; and what the missing state checks allow.
\<close>

section \<open>Actions that leave a part of the party alone\<close>

definition keeps :: "('p \<Rightarrow> 'b) \<Rightarrow> ('p \<times> env, 'a) act \<Rightarrow> bool" where
  "keeps g m \<longleftrightarrow> (\<forall>s. g (fst (snd (m s))) = g (fst s))"

lemma keeps_bnd [intro!]: "keeps g m \<Longrightarrow> (\<And>x. keeps g (f x)) \<Longrightarrow> keeps g (bnd m f)"
  by (auto simp: keeps_def bnd_def split: prod.splits sum.splits) (metis fst_conv snd_conv)+

lemma keeps_basic [intro!]:
  "keeps g (ok x)" "keeps g (err e)" "keeps g (ask f)" "keeps g (rand_Read n)" "keeps g (rand_check r)"
  "keeps g (comm_send Ms fr)" "keeps g (with_rnd h)" "keeps g (try_or k y)"
  by (auto simp: keeps_def ok_def err_def ask_def rand_Read_def rand_check_def comm_send_def with_rnd_def try_or_def
      split: prod.splits sum.splits option.splits)

lemma keeps_upd: "(\<And>p. g (h p) = g p) \<Longrightarrow> keeps g (upd h)"
  by (auto simp: keeps_def upd_def)

lemma keeps_bump [intro!]: "keeps g (bumpCounter ctr)"
  by (auto simp: bumpCounter_def split: prod.splits)

lemma keeps_if [intro!]: "keeps g a \<Longrightarrow> keeps g b \<Longrightarrow> keeps g (if c then a else b)"
  by simp

lemma keeps_split [intro!]:
  "(\<And>x y. keeps g (f x y)) \<Longrightarrow> keeps g (case z of (x, y) \<Rightarrow> f x y)"
  "keeps g a \<Longrightarrow> (\<And>x. keeps g (b x)) \<Longrightarrow> keeps g (case w of None \<Rightarrow> a | Some x \<Rightarrow> b x)"
  by (auto split: prod.splits option.splits)

lemma keeps_ce_buildFrame [intro!]:
  "keeps ce_sessionManager (ce_buildFrame op ack v)" "keeps ce_verifier (ce_buildFrame op ack v)"
  "keeps ce_State (ce_buildFrame op ack v)"
  unfolding ce_buildFrame_def by (auto intro!: keeps_upd)

lemma keeps_cr_buildFrame [intro!]:
  "keeps cr_sessionManager (cr_buildFrame op ack v)" "keeps cr_prover (cr_buildFrame op ack v)"
  "keeps cr_State (cr_buildFrame op ack v)"
  unfolding cr_buildFrame_def by (auto intro!: keeps_upd)

lemma keeps_ce_handlers:
  "keeps ce_sessionManager (handlePBKDFParamRequest Ms f)" "keeps ce_sessionManager (handlePake1 S Ms f)"
  unfolding handlePBKDFParamRequest_def handlePake1_def by (auto intro!: keeps_upd)

lemma keeps_cr_handlers:
  "keeps cr_sessionManager (StartPASE Ms pc)" "keeps cr_sessionManager (sendPake1 S Ms ack)"
  unfolding StartPASE_def sendPake1_def by (auto intro!: keeps_upd)

lemma keeps_cr_response: "keeps cr_sessionManager (handlePBKDFParamResponse S Ms f)"
  unfolding handlePBKDFParamResponse_def by (auto intro!: keeps_upd keeps_cr_handlers)

lemma keepsD: "keeps g m \<Longrightarrow> m (c, e) = (r, (c', e')) \<Longrightarrow> g c' = g c"
  unfolding keeps_def by (metis fst_conv snd_conv)

lemmas act_defs = bnd_def ok_def err_def upd_def ask_def try_or_def

text \<open>Running the first step of an action.\<close>

lemma act_ask: "bnd (ask f) k (p, e) = k (f p) (p, e)"
  by (simp add: act_defs)

lemma act_upd: "bnd (upd g) k (p, e) = k () (g p, e)" "upd g (p, e) = (Inr (), (g p, e))"
  by (simp_all add: act_defs)

lemma act_try: "bnd (try_or h (Inr x)) k s = k x s" "bnd (try_or h (Inl y)) k s = (Inl (h y), s)"
  by (simp_all add: act_defs)

lemma act_ret: "bnd (ok x) k s = k x s" "ok x s = (Inr x, s)"
  by (simp_all add: act_defs)

lemma act_err: "bnd (err z) k s = (Inl z, s)" "err z s = (Inl z, s)"
  by (simp_all add: act_defs)

lemmas act_simps = act_ask act_upd act_try act_ret act_err

section \<open>A device and a controller in mid-handshake\<close>

definition demo_env :: env where
  "demo_env = \<lparr>e_rnd = [1, 2, 3, 4], e_sent = []\<rparr>"

definition demo_device :: commissionee where
  "demo_device = \<lparr>ce_State = StatePASE_Pake3, ce_Salt = [1], ce_Iterations = 1, ce_W0 = [2], ce_L = [4, 4, 5], ce_Random = [],
     ce_sessionManager = NewSessionManager, ce_SessionID = 23456, ce_MessageCounter = 5, ce_InitiatorRandom = [],
     ce_InitiatorSessionID = 12345, ce_ExchangeID = 1, ce_RequestPayload = [], ce_ResponsePayload = [], ce_Ke = [],
     ce_verifier = Some (small_verifier\<lparr>v_ke := [7], v_cA := [1, 2], v_finalized := True\<rparr>)\<rparr>"

definition pake3_frame :: frame where
  "pake3_frame = \<lparr>f_Header = zero_header, f_PayloadHeader = zero_payload_header\<lparr>ph_Opcode := OpcodePASEPake3\<rparr>,
     f_Payload = [0x15, 0x30, 0x01, 0x02, 0x01, 0x02, 0x18]\<rparr>"

definition demo_controller :: commissioner where
  "demo_controller = \<lparr>cr_State = StatePASE_Pake2, cr_sessionManager = NewSessionManager, cr_Passcode = 2, cr_Random = [],
     cr_SessionID = 12345, cr_ExchangeID = 1, cr_MessageCounter = 5, cr_RequestPayload = [], cr_ResponsePayload = [],
     cr_ResponderRandom = [], cr_ResponderSessionID = 23456, cr_Salt = [1], cr_Iterations = 1, cr_Ke = [],
     cr_prover = Some (small_prover\<lparr>p_x := Some 2, p_pA := [4, 0, 1]\<rparr>)\<rparr>"

definition pake2_frame :: frame where
  "pake2_frame = \<lparr>f_Header = zero_header, f_PayloadHeader = zero_payload_header\<lparr>ph_Opcode := OpcodePASEPake2\<rparr>,
     f_Payload = [0x15, 0x30, 0x01, 0x03, 0x04, 0x04, 0x05, 0x30, 0x02, 0x20] @ replicate 32 205 @ [0x18]\<rparr>"

lemma pake3_frame_decodes: "decode_message pake3_type pake3_of (f_Payload pake3_frame) = Inr \<lparr>pk3_CA = [1, 2]\<rparr>"
  by code_simp

lemma demo_device_completes:
  obtains c' where "Commissionee_HandleMessage small_suite None pake3_frame (demo_device, demo_env) = (Inr (), (c', demo_env))"
    "ce_SessionID c' = 23456" "\<exists>s. ce_sessionManager c' 23456 = Some s"
proof -
  obtain keys where "DeriveSessionKeysFromKe small_suite [7] = Inr keys"
    by (rule DeriveSessionKeys_lengths [of small_suite "[7]"])
      (use small_suite_lawful in \<open>auto simp: suite_lawful_def\<close>)
  then have "handlePake3 small_suite pake3_frame (demo_device, demo_env) =
     (Inr (), (demo_device\<lparr>ce_Ke := [7], ce_sessionManager := InstallSecureSession NewSessionManager 23456 0 0 keys RoleResponder,
        ce_State := StateComplete\<rparr>, demo_env))"
    using pake3_frame_decodes
    by (simp add: handlePake3_def act_simps VerifyConfirmationA_def Verifier_SharedKey_def installPASESession_def demo_device_def)
  moreover have "Commissionee_HandleMessage small_suite None pake3_frame = handlePake3 small_suite pake3_frame"
    by (simp add: Commissionee_HandleMessage_def) (simp add: pake3_frame_def)
  ultimately show ?thesis
    by (intro that) (auto simp: demo_device_def InstallSecureSession_def)
qed

section \<open>Sessions are installed only after confirmation\<close>

lemma handlePake3_cases:
  assumes "handlePake3 S f (c, e) = (r, (c', e'))"
  shows "ce_sessionManager c' = ce_sessionManager c \<and> r \<noteq> Inr () \<or>
    (\<exists>v p3 keys. r = Inr () \<and> e' = e \<and> ce_verifier c = Some v \<and> v_finalized v
      \<and> decode_message pake3_type pake3_of (f_Payload f) = Inr p3 \<and> pk3_CA p3 = v_cA v
      \<and> DeriveSessionKeysFromKe S (v_ke v) = Inr keys
      \<and> c' = c\<lparr>ce_Ke := v_ke v, ce_sessionManager := InstallSecureSession (ce_sessionManager c) (ce_SessionID c) 0 0 keys RoleResponder,
               ce_State := StateComplete\<rparr>)"
  using assms
  by (auto simp: handlePake3_def act_defs VerifyConfirmationA_def Verifier_SharedKey_def installPASESession_def
      split: option.splits sum.splits if_splits)

lemma commissionee_install:
  assumes "Commissionee_HandleMessage S Ms f (c, e) = (r, (c', e'))" "ce_sessionManager c' \<noteq> ce_sessionManager c"
  shows "ph_Opcode (f_PayloadHeader f) = OpcodePASEPake3 \<and> handlePake3 S f (c, e) = (r, (c', e'))"
  using assms
  by (auto simp: Commissionee_HandleMessage_def Let_def err_def split: if_splits
      dest: keepsD [OF keeps_ce_handlers(1)] keepsD [OF keeps_ce_handlers(2)])

text \<open>
  C9: a device opens a session only for a peer that proved knowledge of the passcode. In
  whatever state it is and whatever frame arrives, handling it either leaves the session table
  as it was, or the frame was a Pake3 whose confirmation equals the one the device computed in
  a finished exchange, and then exactly one session is installed, in the responder role, with
  the keys derived from that exchange's shared secret.
\<close>

theorem device_session_needs_confirmation:
  assumes "Commissionee_HandleMessage S Ms f (c, e) = (r, (c', e'))"
  shows "ce_sessionManager c' = ce_sessionManager c \<or>
    (\<exists>v p3 keys. r = Inr () \<and> ce_verifier c = Some v \<and> v_finalized v
      \<and> decode_message pake3_type pake3_of (f_Payload f) = Inr p3 \<and> pk3_CA p3 = v_cA v
      \<and> DeriveSessionKeysFromKe S (v_ke v) = Inr keys \<and> ce_Ke c' = v_ke v \<and> ce_State c' = StateComplete
      \<and> ce_sessionManager c' = InstallSecureSession (ce_sessionManager c) (ce_SessionID c) 0 0 keys RoleResponder)"
proof (cases "ce_sessionManager c' = ce_sessionManager c")
  case False
  from handlePake3_cases [OF conjunct2 [OF commissionee_install [OF assms False]]] False
  show ?thesis by auto
qed simp

theorem device_session_needs_confirmation_witness:
  "\<exists>c'. Commissionee_HandleMessage small_suite None pake3_frame (demo_device, demo_env) = (Inr (), (c', demo_env))
    \<and> (ce_sessionManager c' = ce_sessionManager demo_device \<or>
    (\<exists>v p3 keys. (Inr () :: comm_error + unit) = Inr () \<and> ce_verifier demo_device = Some v \<and> v_finalized v
      \<and> decode_message pake3_type pake3_of (f_Payload pake3_frame) = Inr p3 \<and> pk3_CA p3 = v_cA v
      \<and> DeriveSessionKeysFromKe small_suite (v_ke v) = Inr keys \<and> ce_Ke c' = v_ke v \<and> ce_State c' = StateComplete
      \<and> ce_sessionManager c'
          = InstallSecureSession (ce_sessionManager demo_device) (ce_SessionID demo_device) 0 0 keys RoleResponder))"
proof -
  obtain c' where c': "Commissionee_HandleMessage small_suite None pake3_frame (demo_device, demo_env) = (Inr (), (c', demo_env))"
    by (rule demo_device_completes)
  from device_session_needs_confirmation [OF c'] c' show ?thesis by (intro exI [of _ c'] conjI)
qed

text \<open>What is left to do for the controller when the confirmation is right.\<close>

definition pake2_reply :: "messenger \<Rightarrow> frame \<Rightarrow> bytes \<Rightarrow> (commissioner \<times> env, unit) act" where
  "pake2_reply Ms f cA =
     bnd (cr_buildFrame OpcodePASEPake3 (h_MessageCounter (f_Header f)) (VPtr pake3_type (Some (pake3_val \<lparr>pk3_CA = cA\<rparr>)))) (\<lambda>out.
     bnd (upd (\<lambda>c. c\<lparr>cr_State := StateComplete\<rparr>)) (\<lambda>_. comm_send Ms out))"

lemma handlePake2_accept:
  assumes "cr_prover c = Some p" "decode_message pake2_type pake2_of (f_Payload f) = Inr p2"
    and "Prover_Finalize S p (pk2_PB p2) = (Inr (), p')" "p_finalized p'" "pk2_CB p2 = p_cB p'"
    and "DeriveSessionKeysFromKe S (p_ke p') = Inr keys"
  shows "handlePake2 S Ms f (c, e) = pake2_reply Ms f (p_cA p') (c\<lparr>cr_prover := Some p', cr_Ke := p_ke p',
    cr_sessionManager := InstallSecureSession (cr_sessionManager c) (cr_SessionID c) 0 0 keys RoleInitiator\<rparr>, e)"
  using assms
  by (simp add: handlePake2_def pake2_reply_def act_simps VerifyConfirmationB_def ConfirmationA_def Prover_SharedKey_def
      installPASESession_def)

lemma handlePake2_cases:
  assumes "handlePake2 S Ms f (c, e) = (r, (c', e'))"
  shows "cr_sessionManager c' = cr_sessionManager c \<or>
    (\<exists>p p' p2 keys. cr_prover c = Some p \<and> decode_message pake2_type pake2_of (f_Payload f) = Inr p2
      \<and> Prover_Finalize S p (pk2_PB p2) = (Inr (), p') \<and> p_finalized p' \<and> pk2_CB p2 = p_cB p'
      \<and> DeriveSessionKeysFromKe S (p_ke p') = Inr keys
      \<and> cr_sessionManager c' = InstallSecureSession (cr_sessionManager c) (cr_SessionID c) 0 0 keys RoleInitiator)"
proof (cases "cr_prover c")
  case None
  then show ?thesis using assms by (simp add: handlePake2_def act_defs)
next
  case (Some p)
  show ?thesis
  proof (cases "decode_message pake2_type pake2_of (f_Payload f)")
    case (Inl x)
    then show ?thesis using assms Some by (simp add: handlePake2_def act_defs)
  next
    case (Inr p2)
    obtain fr p' where fin: "Prover_Finalize S p (pk2_PB p2) = (fr, p')" by force
    show ?thesis
    proof (cases "fr = Inr () \<and> p_finalized p' \<and> pk2_CB p2 = p_cB p' \<and> (\<exists>keys. DeriveSessionKeysFromKe S (p_ke p') = Inr keys)")
      case True
      then obtain keys where k: "fr = Inr ()" "p_finalized p'" "pk2_CB p2 = p_cB p'" "DeriveSessionKeysFromKe S (p_ke p') = Inr keys"
        by blast
      have "keeps cr_sessionManager (pake2_reply Ms f (p_cA p'))" unfolding pake2_reply_def by (auto intro!: keeps_upd)
      from keepsD [OF this assms [unfolded handlePake2_accept [OF Some Inr fin [unfolded k(1)] k(2-4)]]]
      show ?thesis using Some Inr fin k by auto
    next
      case False
      then show ?thesis using assms Some Inr fin
        by (cases fr; cases "DeriveSessionKeysFromKe S (p_ke p')")
          (auto simp: handlePake2_def act_simps VerifyConfirmationB_def ConfirmationA_def Prover_SharedKey_def
            installPASESession_def split: if_splits)
    qed
  qed
qed

text \<open>
  C10: the same for the controller: it installs a session only when a Pake2 message carried
  the confirmation its own finished exchange predicts, and then with the keys of that exchange
  in the initiator role.
\<close>

theorem controller_session_needs_confirmation:
  assumes "Commissioner_HandleMessage S Ms f (c, e) = (r, (c', e'))"
  shows "cr_sessionManager c' = cr_sessionManager c \<or>
    (\<exists>p p' p2 keys. cr_prover c = Some p \<and> decode_message pake2_type pake2_of (f_Payload f) = Inr p2
      \<and> Prover_Finalize S p (pk2_PB p2) = (Inr (), p') \<and> p_finalized p' \<and> pk2_CB p2 = p_cB p'
      \<and> DeriveSessionKeysFromKe S (p_ke p') = Inr keys
      \<and> cr_sessionManager c' = InstallSecureSession (cr_sessionManager c) (cr_SessionID c) 0 0 keys RoleInitiator)"
proof -
  consider "handlePBKDFParamResponse S Ms f (c, e) = (r, (c', e'))" | "handlePake2 S Ms f (c, e) = (r, (c', e'))" | "c' = c"
    using assms by (auto simp: Commissioner_HandleMessage_def Let_def err_def split: if_splits)
  then show ?thesis
    by cases (auto dest: keepsD [OF keeps_cr_response] handlePake2_cases)
qed

lemma demo_controller_completes:
  "fst (Commissioner_HandleMessage small_suite None pake2_frame (demo_controller, demo_env)) = Inr ()"
  by code_simp

theorem controller_session_needs_confirmation_witness:
  "\<exists>c' e'. Commissioner_HandleMessage small_suite None pake2_frame (demo_controller, demo_env) = (Inr (), (c', e'))
    \<and> (cr_sessionManager c' = cr_sessionManager demo_controller \<or>
    (\<exists>p p' p2 keys. cr_prover demo_controller = Some p \<and> decode_message pake2_type pake2_of (f_Payload pake2_frame) = Inr p2
      \<and> Prover_Finalize small_suite p (pk2_PB p2) = (Inr (), p') \<and> p_finalized p' \<and> pk2_CB p2 = p_cB p'
      \<and> DeriveSessionKeysFromKe small_suite (p_ke p') = Inr keys
      \<and> cr_sessionManager c'
          = InstallSecureSession (cr_sessionManager demo_controller) (cr_SessionID demo_controller) 0 0 keys RoleInitiator))"
proof -
  obtain c' e' where c': "Commissioner_HandleMessage small_suite None pake2_frame (demo_controller, demo_env) = (Inr (), (c', e'))"
    using demo_controller_completes by (metis prod.collapse)
  from controller_session_needs_confirmation [OF c'] c' show ?thesis by (intro exI [of _ c'] exI [of _ e'] conjI)
qed

section \<open>What the missing state checks allow\<close>

text \<open>
  C25: a Pake3 message can be replayed after the handshake. Once a device has accepted a
  Pake3 frame, handling the same frame again succeeds and installs a fresh session under the
  same keys: the outbound counter starts again from zero and the replay window forgets what it
  has seen, whatever the session had counted in between. The next message of the device then
  repeats a nonce under the same key.
\<close>

theorem replayed_pake3_resets_the_session:
  assumes "Commissionee_HandleMessage S Ms f (c, e) = (Inr (), (c', e'))" "ph_Opcode (f_PayloadHeader f) = OpcodePASEPake3"
    and "ce_sessionManager c' (ce_SessionID c') = Some s"
  shows "\<exists>c''. Commissionee_HandleMessage S Ms f
        (c'\<lparr>ce_sessionManager := (ce_sessionManager c')(ce_SessionID c' \<mapsto> s\<lparr>s_OutCounter := n, s_replay := w\<rparr>)\<rparr>, e2)
        = (Inr (), (c'', e2))
      \<and> ce_sessionManager c'' (ce_SessionID c') = Some s \<and> s_OutCounter s = 0 \<and> s_replay s = newReplayWindow"
proof -
  have op: "Commissionee_HandleMessage S Ms f = handlePake3 S f"
    using assms(2) by (simp add: Commissionee_HandleMessage_def)
  from handlePake3_cases [OF assms(1) [unfolded op]] obtain v p3 keys where
    v: "ce_verifier c = Some v" "v_finalized v" "decode_message pake3_type pake3_of (f_Payload f) = Inr p3"
      "pk3_CA p3 = v_cA v" "DeriveSessionKeysFromKe S (v_ke v) = Inr keys"
    and c': "c' = c\<lparr>ce_Ke := v_ke v, ce_sessionManager := InstallSecureSession (ce_sessionManager c) (ce_SessionID c) 0 0 keys RoleResponder,
               ce_State := StateComplete\<rparr>" by auto
  have s: "s = new_session (ce_SessionID c) 0 0 keys RoleResponder"
    using assms(3) by (simp add: c' InstallSecureSession_def)
  show ?thesis unfolding op
    using v by (simp add: handlePake3_def act_simps c' s VerifyConfirmationA_def Verifier_SharedKey_def installPASESession_def
        InstallSecureSession_def) (simp add: new_session_def)
qed

theorem replayed_pake3_resets_the_session_witness:
  "\<exists>c' s c''. ce_sessionManager c' (ce_SessionID c') = Some s \<and>
     Commissionee_HandleMessage small_suite None pake3_frame
        (c'\<lparr>ce_sessionManager := (ce_sessionManager c')(ce_SessionID c' \<mapsto> s\<lparr>s_OutCounter := 77, s_replay := \<lparr>rw_max = 9, rw_bitmap = 1\<rparr>\<rparr>)\<rparr>,
         demo_env)
        = (Inr (), (c'', demo_env))
      \<and> ce_sessionManager c'' (ce_SessionID c') = Some s \<and> s_OutCounter s = 0 \<and> s_replay s = newReplayWindow"
proof -
  obtain c' s where c': "Commissionee_HandleMessage small_suite None pake3_frame (demo_device, demo_env) = (Inr (), (c', demo_env))"
    and s: "ce_sessionManager c' (ce_SessionID c') = Some s"
    by (rule demo_device_completes) metis
  have op: "ph_Opcode (f_PayloadHeader pake3_frame) = OpcodePASEPake3" by (simp add: pake3_frame_def)
  show ?thesis
    using s replayed_pake3_resets_the_session [where c' = c' and s = s, OF c' op s] by blast
qed

end
