(* ===== verification/Pase_Steps.thy ===== *)
theory Pase_Steps
  imports Pase_Safety Tlv_Cost
begin

text \<open>
  Each step of the PASE handshake in the case that it succeeds: which frame leaves the party,
  what its payload decodes to, how long it is, and the party's state afterwards. The random
  source has to deliver enough bytes and the messenger has to take the frame. The proofs run the
  handler with the rules for single actions; payloads come back by the round trips of
  \<open>tlv_message\<close>, their size is bounded by \<open>Marshal_length\<close>.
\<close>

section \<open>Steps that succeed\<close>

lemma act_rand:
  "n \<le> length (e_rnd e) \<Longrightarrow>
     bnd (rand_Read n) k (p, e) = k (take n (e_rnd e), None) (p, e\<lparr>e_rnd := drop n (e_rnd e)\<rparr>)"
  by (simp add: bnd_def rand_Read_def ReadFull_def)

lemma act_rand_check: "bnd (rand_check None) k s = k () s"
  by (simp add: rand_check_def act_simps)

lemma act_with_rnd: "f (e_rnd e) = (r, b, rnd) \<Longrightarrow> bnd (with_rnd f) k (p, e) = k (r, b) (p, e\<lparr>e_rnd := rnd\<rparr>)"
  by (simp add: bnd_def with_rnd_def)

lemma act_run: "m s = (Inr x, s') \<Longrightarrow> bnd m k s = k x s'"
  by (simp add: bnd_def)

lemma act_send: "m f = None \<Longrightarrow> comm_send (Some m) f (p, e) = (Inr (), (p, e\<lparr>e_sent := e_sent e @ [f]\<rparr>))"
  by (simp add: comm_send_def)

text \<open>The next message counter and what is left of the random bytes.\<close>

definition next_counter :: "u32 \<Rightarrow> bytes \<Rightarrow> u32 \<times> bytes" where
  "next_counter ctr rnd = (if ctr = 0 then (Uint32 (take 4 rnd), drop 4 rnd) else (ctr + 1, rnd))"

lemma act_bump:
  "4 \<le> length (e_rnd e) \<Longrightarrow> bnd (bumpCounter ctr) k (p, e)
     = k (fst (next_counter ctr (e_rnd e))) (p, e\<lparr>e_rnd := snd (next_counter ctr (e_rnd e))\<rparr>)"
  by (cases "ctr = 0")
    (simp_all add: bumpCounter_def next_counter_def bnd_def rand_Read_def ReadFull_def rand_check_def ok_def)

text \<open>A frame with a given opcode and payload, as either side builds it.\<close>

definition carries :: "u8 \<Rightarrow> bytes \<Rightarrow> frame \<Rightarrow> bool" where
  "carries op bs f \<longleftrightarrow> frame_wf f \<and> ph_Opcode (f_PayloadHeader f) = op \<and> f_Payload f = bs"

lemma pase_builder_built: "built (pase_builder i op ex ctr ack v)"
  unfolding pase_builder_def Let_def by (auto intro!: built.intros)

lemma pase_frame_builds:
  assumes "tlv_Marshal v = Inr bs" "op \<noteq> 0"
  obtains f where "b_Build (pase_builder i op ex ctr ack v) = Inr f" "carries op bs f"
proof -
  let ?f = "b_frame (pase_builder i op ex ctr ack v)"
  have "b_err (pase_builder i op ex ctr ack v) = None" "ph_Opcode (f_PayloadHeader ?f) = op" "f_Payload ?f = bs"
    using assms(1) by (simp_all add: pase_builder_def Let_def builder_defs NewBuilder_def)
  then show ?thesis
    using that [of ?f] built_wf [OF pase_builder_built] assms(2) by (simp add: b_Build_def carries_def)
qed

lemma ce_buildFrame_ok:
  assumes "tlv_Marshal v = Inr bs" "op \<noteq> 0" "4 \<le> length (e_rnd e)"
  obtains f n where "ce_buildFrame op ack v (c, e)
      = (Inr f, (c\<lparr>ce_MessageCounter := n\<rparr>, e\<lparr>e_rnd := snd (next_counter (ce_MessageCounter c) (e_rnd e))\<rparr>))" "carries op bs f"
proof -
  let ?n = "fst (next_counter (ce_MessageCounter c) (e_rnd e))"
  obtain f where f: "b_Build (pase_builder False op (ce_ExchangeID c) ?n ack v) = Inr f" "carries op bs f"
    by (rule pase_frame_builds [OF assms(1,2)])
  have "ce_buildFrame op ack v (c, e) = (Inr f, (c\<lparr>ce_MessageCounter := ?n\<rparr>, e\<lparr>e_rnd := snd (next_counter (ce_MessageCounter c) (e_rnd e))\<rparr>))"
    using f(1) assms(3) by (simp add: ce_buildFrame_def act_simps act_bump) (simp add: act_defs)
  then show ?thesis using that f(2) by blast
qed

lemma cr_buildFrame_ok:
  assumes "tlv_Marshal v = Inr bs" "op \<noteq> 0" "4 \<le> length (e_rnd e)"
  obtains f n where "cr_buildFrame op ack v (c, e)
      = (Inr f, (c\<lparr>cr_MessageCounter := n\<rparr>, e\<lparr>e_rnd := snd (next_counter (cr_MessageCounter c) (e_rnd e))\<rparr>))" "carries op bs f"
proof -
  let ?n = "fst (next_counter (cr_MessageCounter c) (e_rnd e))"
  obtain f where f: "b_Build (pase_builder True op (cr_ExchangeID c) ?n ack v) = Inr f" "carries op bs f"
    by (rule pase_frame_builds [OF assms(1,2)])
  have "cr_buildFrame op ack v (c, e) = (Inr f, (c\<lparr>cr_MessageCounter := ?n\<rparr>, e\<lparr>e_rnd := snd (next_counter (cr_MessageCounter c) (e_rnd e))\<rparr>))"
    using f(1) assms(3) by (simp add: cr_buildFrame_def act_simps act_bump) (simp add: act_defs)
  then show ?thesis using that f(2) by blast
qed


text \<open>A messenger that takes every well-formed frame.\<close>

definition reliable :: "(frame \<Rightarrow> comm_error option) \<Rightarrow> bool" where
  "reliable m \<longleftrightarrow> (\<forall>f. frame_wf f \<longrightarrow> m f = None)"

lemma reliable_carries: "reliable m \<Longrightarrow> carries op bs f \<Longrightarrow> m f = None"
  by (simp add: reliable_def carries_def)

lemmas run_simps = act_simps act_rand act_rand_check act_with_rnd act_run act_send

text \<open>The parties after their first steps.\<close>

definition started :: "commissioner \<Rightarrow> u32 \<Rightarrow> bytes \<Rightarrow> u32 \<Rightarrow> bytes \<Rightarrow> commissioner" where
  "started c pc r n bs = c\<lparr>cr_Passcode := pc, cr_Random := r, cr_SessionID := 12345, cr_ExchangeID := 1, cr_MessageCounter := n,
     cr_RequestPayload := bs, cr_State := StatePASE_PBKDFParamResponse\<rparr>"

definition answered :: "commissionee \<Rightarrow> frame \<Rightarrow> bytes \<Rightarrow> bytes \<Rightarrow> u32 \<Rightarrow> bytes \<Rightarrow> bytes \<Rightarrow> commissionee" where
  "answered c f rI r n bs bs' = c\<lparr>ce_InitiatorRandom := rI, ce_InitiatorSessionID := 12345,
     ce_ExchangeID := ph_ExchangeID (f_PayloadHeader f), ce_RequestPayload := bs, ce_Random := r, ce_SessionID := 23456,
     ce_MessageCounter := n, ce_ResponsePayload := bs', ce_State := StatePASE_Pake1\<rparr>"

definition pake1_sent :: "commissioner \<Rightarrow> bytes \<Rightarrow> u16 \<Rightarrow> bytes \<Rightarrow> u32 \<Rightarrow> bytes \<Rightarrow> prover \<Rightarrow> u32 \<Rightarrow> commissioner" where
  "pake1_sent c rR sid salt it bs p n = c\<lparr>cr_ResponderRandom := rR, cr_ResponderSessionID := sid, cr_Salt := salt, cr_Iterations := it,
     cr_ResponsePayload := bs, cr_prover := Some p, cr_MessageCounter := n, cr_State := StatePASE_Pake2\<rparr>"

lemmas stage_defs = started_def answered_def pake1_sent_def

definition first_request :: "bytes \<Rightarrow> PBKDFParamRequest" where
  "first_request r = \<lparr>req_InitiatorRandom = r, req_InitiatorSessionID = 12345, req_PasscodeID = 0,
     req_HasPBKDFParameters = False, req_InitiatorNodeID = 0\<rparr>"

lemma StartPASE_step:
  assumes "reliable m" "cr_SessionID c = 0" "cr_ExchangeID c = 0"
    and "length r = 32" "4 \<le> length k"
  obtains f n bs where
    "StartPASE (Some m) pc (c, \<lparr>e_rnd = r @ k, e_sent = sent\<rparr>)
      = (Inr (), (started c pc r n bs,
          \<lparr>e_rnd = snd (next_counter (cr_MessageCounter c) k), e_sent = sent @ [f]\<rparr>))"
    "carries OpcodePBKDFParamRequest bs f" "\<forall>z. decode_message request_type request_of (bs @ z) = Inr (first_request r)"
    "length bs \<le> 200"
proof -
  let ?req = "first_request r"
  have fits: "length (req_InitiatorRandom ?req) < 2 ^ 31" using assms(4) by (simp add: first_request_def)
  then obtain bs where bs: "tlv_Marshal (VPtr request_type (Some (request_val ?req))) = Inr bs"
    by (rule req.message_round_trip)
  have dec: "\<forall>z. decode_message request_type request_of (bs @ z) = Inr ?req" using req.message_prefix [OF fits bs] by simp
  have l: "length bs \<le> 200" using Marshal_length [OF bs] assms(4) by (simp add: request_val_def first_request_def)
  let ?c = "c\<lparr>cr_Passcode := pc, cr_Random := r, cr_SessionID := 12345, cr_ExchangeID := 1\<rparr>"
  let ?e = "\<lparr>e_rnd = k, e_sent = sent\<rparr>"
  obtain f n where f: "cr_buildFrame OpcodePBKDFParamRequest 0 (VPtr request_type (Some (request_val ?req))) (?c, ?e)
      = (Inr f, (?c\<lparr>cr_MessageCounter := n\<rparr>, ?e\<lparr>e_rnd := snd (next_counter (cr_MessageCounter ?c) (e_rnd ?e))\<rparr>))"
    "carries OpcodePBKDFParamRequest bs f"
    by (rule cr_buildFrame_ok [OF bs, of OpcodePBKDFParamRequest ?e 0 ?c]) (use assms(5) in simp_all)
  show ?thesis
    using f assms reliable_carries [OF assms(1) f(2)]
    by (intro that [OF _ f(2) dec l]) (simp add: StartPASE_def run_simps stage_defs first_request_def carries_def)
qed

lemma StartPASE_ok:
  assumes "reliable m" "cr_SessionID c = 0" "cr_ExchangeID c = 0" "cr_MessageCounter c = 0"
    and "length r = 32" "length k = 4"
  obtains f n bs where
    "StartPASE (Some m) pc (c, \<lparr>e_rnd = r @ k @ rest, e_sent = sent\<rparr>)
      = (Inr (), (started c pc r n bs, \<lparr>e_rnd = rest, e_sent = sent @ [f]\<rparr>))"
    "carries OpcodePBKDFParamRequest bs f" "\<forall>z. decode_message request_type request_of (bs @ z) = Inr (first_request r)"
    "length bs \<le> 200"
proof -
  have "4 \<le> length (k @ rest)" "snd (next_counter (cr_MessageCounter c) (k @ rest)) = rest"
    using assms(4,6) by (simp_all add: next_counter_def)
  then show ?thesis using StartPASE_step [OF assms(1-3,5), of "k @ rest" pc sent] that by (metis append_assoc)
qed

text \<open>The answer of a device that holds its salt and iteration count.\<close>

definition first_response :: "commissionee \<Rightarrow> bytes \<Rightarrow> bytes \<Rightarrow> PBKDFParamResponse" where
  "first_response c rI rR = \<lparr>resp_InitiatorRandom = rI, resp_ResponderRandom = rR, resp_ResponderSessionID = 23456,
     resp_Params = Some \<lparr>ps_Iterations = ce_Iterations c, ps_Salt = ce_Salt c\<rparr>\<rparr>"

lemma handlePBKDFParamRequest_ok:
  assumes "reliable m" "ce_SessionID c = 0" "ce_MessageCounter c = 0" "length (ce_Salt c) < 2 ^ 31"
    and "length r = 32" "length k = 4"
    and "carries OpcodePBKDFParamRequest bs f" "decode_message request_type request_of bs = Inr (first_request rI)" "length rI = 32"
  obtains f' n bs' where
    "Commissionee_HandleMessage S (Some m) f (c, \<lparr>e_rnd = r @ k @ rest, e_sent = sent\<rparr>)
      = (Inr (), (answered c f rI r n bs bs',
          \<lparr>e_rnd = rest, e_sent = sent @ [f']\<rparr>))"
    "carries OpcodePBKDFParamResponse bs' f'" "decode_message response_type response_of bs' = Inr (first_response c rI r)"
    "length bs' \<le> 200 + length (ce_Salt c)"
proof -
  let ?resp = "first_response c rI r"
  have "length (resp_InitiatorRandom ?resp) < 2 ^ 31 \<and> length (resp_ResponderRandom ?resp) < 2 ^ 31
     \<and> (case resp_Params ?resp of None \<Rightarrow> True | Some ps \<Rightarrow> length (ps_Salt ps) < 2 ^ 31)"
    using assms(4,5,9) by (simp add: first_response_def)
  then obtain bs' where bs': "tlv_Marshal (VPtr response_type (Some (response_val ?resp))) = Inr bs'"
    "decode_message response_type response_of bs' = Inr ?resp" by (rule resp.message_round_trip)
  have l: "length bs' \<le> 200 + length (ce_Salt c)"
    using Marshal_length [OF bs'(1)] assms(5,9) by (simp add: response_val_def first_response_def param_set_val_def)
  let ?c = "c\<lparr>ce_InitiatorRandom := rI, ce_InitiatorSessionID := 12345, ce_ExchangeID := ph_ExchangeID (f_PayloadHeader f),
            ce_RequestPayload := bs, ce_Random := r, ce_SessionID := 23456\<rparr>"
  let ?e = "\<lparr>e_rnd = k @ rest, e_sent = sent\<rparr>" and ?ack = "h_MessageCounter (f_Header f)"
  obtain f' n where f': "ce_buildFrame OpcodePBKDFParamResponse ?ack (VPtr response_type (Some (response_val ?resp))) (?c, ?e)
      = (Inr f', (?c\<lparr>ce_MessageCounter := n\<rparr>, ?e\<lparr>e_rnd := snd (next_counter (ce_MessageCounter ?c) (e_rnd ?e))\<rparr>))"
    "carries OpcodePBKDFParamResponse bs' f'"
    by (rule ce_buildFrame_ok [OF bs'(1), of OpcodePBKDFParamResponse ?e ?ack ?c]) (use assms(6) in simp_all)
  have pay: "f_Payload f = bs" "ph_Opcode (f_PayloadHeader f) = OpcodePBKDFParamRequest" "f_Payload f' = bs'"
    using assms(7) f'(2) by (simp_all add: carries_def)
  show ?thesis
    using f'(1) assms pay reliable_carries [OF assms(1) f'(2)]
    by (intro that [OF _ f'(2) bs'(2) l])
      (simp add: Commissionee_HandleMessage_def handlePBKDFParamRequest_def run_simps first_request_def first_response_def
        next_counter_def stage_defs)
qed

lemma handlePBKDFParamResponse_ok:
  assumes "reliable m" "cr_Random c = rI"
    and "carries OpcodePBKDFParamResponse bs f"
    and "decode_message response_type response_of bs = Inr \<lparr>resp_InitiatorRandom = rI, resp_ResponderRandom = rR,
           resp_ResponderSessionID = sid, resp_Params = Some \<lparr>ps_Iterations = it, ps_Salt = salt\<rparr>\<rparr>"
    and "Spake2pW0W1FromPasscode S (cr_Passcode c) salt (uint it) = Inr (w0, w1)"
    and "NewSPAKE2PProver w0 w1 (paseContext (cr_RequestPayload c) bs) = Inr p0"
    and "ComputePA S p0 (e_rnd e) = (Inr pA, p1, rnd)" "4 \<le> length rnd" "length pA < 2 ^ 31"
  obtains f' n bs' where
    "Commissioner_HandleMessage S (Some m) f (c, e)
      = (Inr (), (pake1_sent c rR sid salt it bs p1 n,
          \<lparr>e_rnd = snd (next_counter (cr_MessageCounter c) rnd), e_sent = e_sent e @ [f']\<rparr>))"
    "carries OpcodePASEPake1 bs' f'" "decode_message pake1_type pake1_of bs' = Inr \<lparr>pk1_PA = pA\<rparr>" "length bs' \<le> 9 + length pA"
proof -
  have "length (pk1_PA \<lparr>pk1_PA = pA\<rparr>) < 2 ^ 31" using assms(9) by simp
  then obtain bs' where bs': "tlv_Marshal (VPtr pake1_type (Some (pake1_val \<lparr>pk1_PA = pA\<rparr>))) = Inr bs'"
    "decode_message pake1_type pake1_of bs' = Inr \<lparr>pk1_PA = pA\<rparr>" by (rule pk1.message_round_trip)
  have l: "length bs' \<le> 9 + length pA" using Marshal_length [OF bs'(1)] by (simp add: pake1_val_def)
  let ?c = "c\<lparr>cr_ResponderRandom := rR, cr_ResponderSessionID := sid, cr_Salt := salt, cr_Iterations := it,
            cr_ResponsePayload := bs, cr_prover := Some p1\<rparr>"
  let ?e = "e\<lparr>e_rnd := rnd\<rparr>" and ?ack = "h_MessageCounter (f_Header f)"
  obtain f' n where f': "cr_buildFrame OpcodePASEPake1 ?ack (VPtr pake1_type (Some (pake1_val \<lparr>pk1_PA = pA\<rparr>))) (?c, ?e)
      = (Inr f', (?c\<lparr>cr_MessageCounter := n\<rparr>, ?e\<lparr>e_rnd := snd (next_counter (cr_MessageCounter ?c) (e_rnd ?e))\<rparr>))"
    "carries OpcodePASEPake1 bs' f'"
    by (rule cr_buildFrame_ok [OF bs'(1), of OpcodePASEPake1 ?e ?ack ?c]) (use assms(8) in simp_all)
  have pay: "f_Payload f = bs" "ph_Opcode (f_PayloadHeader f) = OpcodePBKDFParamResponse"
    using assms(3) by (simp_all add: carries_def)
  show ?thesis
    using f'(1) assms pay reliable_carries [OF assms(1) f'(2)]
    by (intro that [OF _ f'(2) bs'(2) l])
      (simp add: Commissioner_HandleMessage_def handlePBKDFParamResponse_def sendPake1_def run_simps stage_defs)
qed

lemma handlePake1_ok:
  assumes "reliable m" "carries OpcodePASEPake1 bs f" "decode_message pake1_type pake1_of bs = Inr \<lparr>pk1_PA = pA\<rparr>"
    and "NewSPAKE2PVerifier S (ce_W0 c) (ce_L c) (paseContext (ce_RequestPayload c) (ce_ResponsePayload c)) = Inr v0"
    and "ComputePB S v0 pA (e_rnd e) = (Inr pB, v1, rnd)" "4 \<le> length rnd"
    and "Verifier_Finalize S v1 = (Inr (), v2)" "ConfirmationB v2 = Inr cB"
    and "length pB < 2 ^ 31" "length cB < 2 ^ 31"
  obtains f' n bs' where
    "Commissionee_HandleMessage S (Some m) f (c, e)
      = (Inr (), (c\<lparr>ce_verifier := Some v2, ce_MessageCounter := n, ce_State := StatePASE_Pake3\<rparr>,
          \<lparr>e_rnd = snd (next_counter (ce_MessageCounter c) rnd), e_sent = e_sent e @ [f']\<rparr>))"
    "carries OpcodePASEPake2 bs' f'" "decode_message pake2_type pake2_of bs' = Inr \<lparr>pk2_PB = pB, pk2_CB = cB\<rparr>"
    "length bs' \<le> 15 + length pB + length cB"
proof -
  let ?p2 = "\<lparr>pk2_PB = pB, pk2_CB = cB\<rparr>"
  have "length (pk2_PB ?p2) < 2 ^ 31 \<and> length (pk2_CB ?p2) < 2 ^ 31" using assms(9,10) by simp
  then obtain bs' where bs': "tlv_Marshal (VPtr pake2_type (Some (pake2_val ?p2))) = Inr bs'"
    "decode_message pake2_type pake2_of bs' = Inr ?p2" by (rule pk2.message_round_trip)
  have l: "length bs' \<le> 15 + length pB + length cB" using Marshal_length [OF bs'(1)] by (simp add: pake2_val_def)
  let ?c = "c\<lparr>ce_verifier := Some v2\<rparr>" and ?e = "e\<lparr>e_rnd := rnd\<rparr>" and ?ack = "h_MessageCounter (f_Header f)"
  obtain f' n where f': "ce_buildFrame OpcodePASEPake2 ?ack (VPtr pake2_type (Some (pake2_val ?p2))) (?c, ?e)
      = (Inr f', (?c\<lparr>ce_MessageCounter := n\<rparr>, ?e\<lparr>e_rnd := snd (next_counter (ce_MessageCounter ?c) (e_rnd ?e))\<rparr>))"
    "carries OpcodePASEPake2 bs' f'"
    by (rule ce_buildFrame_ok [OF bs'(1), of OpcodePASEPake2 ?e ?ack ?c]) (use assms(6) in simp_all)
  have pay: "f_Payload f = bs" "ph_Opcode (f_PayloadHeader f) = OpcodePASEPake1"
    using assms(2) by (simp_all add: carries_def)
  show ?thesis
    using f'(1) assms pay reliable_carries [OF assms(1) f'(2)]
    by (intro that [OF _ f'(2) bs'(2) l]) (simp add: Commissionee_HandleMessage_def handlePake1_def run_simps)
qed

lemma handlePake2_ok:
  assumes "reliable m" "cr_prover c = Some p1" "carries OpcodePASEPake2 bs f"
    and "decode_message pake2_type pake2_of bs = Inr \<lparr>pk2_PB = pB, pk2_CB = cB\<rparr>"
    and "Prover_Finalize S p1 pB = (Inr (), p2)" "VerifyConfirmationB p2 cB = Inr ()" "ConfirmationA p2 = Inr cA"
    and "Prover_SharedKey p2 = Inr ke" "DeriveSessionKeysFromKe S ke = Inr keys" "length cA < 2 ^ 31" "4 \<le> length (e_rnd e)"
  obtains f' n bs' where
    "Commissioner_HandleMessage S (Some m) f (c, e)
      = (Inr (), (c\<lparr>cr_prover := Some p2, cr_Ke := ke,
            cr_sessionManager := InstallSecureSession (cr_sessionManager c) (cr_SessionID c) 0 0 keys RoleInitiator,
            cr_MessageCounter := n, cr_State := StateComplete\<rparr>,
          \<lparr>e_rnd = snd (next_counter (cr_MessageCounter c) (e_rnd e)), e_sent = e_sent e @ [f']\<rparr>))"
    "carries OpcodePASEPake3 bs' f'" "decode_message pake3_type pake3_of bs' = Inr \<lparr>pk3_CA = cA\<rparr>"
    "length bs' \<le> 9 + length cA"
proof -
  have "length (pk3_CA \<lparr>pk3_CA = cA\<rparr>) < 2 ^ 31" using assms(10) by simp
  then obtain bs' where bs': "tlv_Marshal (VPtr pake3_type (Some (pake3_val \<lparr>pk3_CA = cA\<rparr>))) = Inr bs'"
    "decode_message pake3_type pake3_of bs' = Inr \<lparr>pk3_CA = cA\<rparr>" by (rule pk3.message_round_trip)
  have l: "length bs' \<le> 9 + length cA" using Marshal_length [OF bs'(1)] by (simp add: pake3_val_def)
  let ?c = "c\<lparr>cr_prover := Some p2, cr_Ke := ke,
      cr_sessionManager := InstallSecureSession (cr_sessionManager c) (cr_SessionID c) 0 0 keys RoleInitiator\<rparr>"
    and ?ack = "h_MessageCounter (f_Header f)"
  obtain f' n where f': "cr_buildFrame OpcodePASEPake3 ?ack (VPtr pake3_type (Some (pake3_val \<lparr>pk3_CA = cA\<rparr>))) (?c, e)
      = (Inr f', (?c\<lparr>cr_MessageCounter := n\<rparr>, e\<lparr>e_rnd := snd (next_counter (cr_MessageCounter ?c) (e_rnd e))\<rparr>))"
    "carries OpcodePASEPake3 bs' f'"
    by (rule cr_buildFrame_ok [OF bs'(1), of OpcodePASEPake3 e ?ack ?c]) (use assms(11) in simp_all)
  have pay: "f_Payload f = bs" "ph_Opcode (f_PayloadHeader f) = OpcodePASEPake2"
    using assms(3) by (simp_all add: carries_def)
  show ?thesis
    using f'(1) assms pay reliable_carries [OF assms(1) f'(2)]
    by (intro that [OF _ f'(2) bs'(2) l])
      (simp add: Commissioner_HandleMessage_def handlePake2_def run_simps installPASESession_def)
qed

lemma handlePake3_ok:
  assumes "ce_verifier c = Some v2" "carries OpcodePASEPake3 bs f" "decode_message pake3_type pake3_of bs = Inr \<lparr>pk3_CA = cA\<rparr>"
    and "VerifyConfirmationA v2 cA = Inr ()" "Verifier_SharedKey v2 = Inr ke" "DeriveSessionKeysFromKe S ke = Inr keys"
  shows "Commissionee_HandleMessage S Ms f (c, e)
      = (Inr (), (c\<lparr>ce_Ke := ke,
            ce_sessionManager := InstallSecureSession (ce_sessionManager c) (ce_SessionID c) 0 0 keys RoleResponder,
            ce_State := StateComplete\<rparr>, e))"
  using assms by (simp add: Commissionee_HandleMessage_def handlePake3_def run_simps installPASESession_def carries_def)

end
