(* ===== verification/Samples.thy ===== *)
theory Samples
  imports Commissioning
begin

text \<open>
  \<^verbatim>\<open>samples/commissioning\<close>: the two programs that put the packages together. A program is
  the record of what its closures share: the party, the messenger's peer, the surroundings of
  the party and the lines printed. The device's loop is the receive loop over its datagrams; the
  controller runs the loop in a goroutine beside \<^verbatim>\<open>StartPASE\<close>, so some datagrams may be
  handled before it. The sockets are parameters, as in \<open>Transport\<close>.
\<close>

datatype report =
    Received u8 u16 nat udp_addr
  | HandleMessageError comm_error
  | DeviceState commissioning_state u16 bytes
  | ControllerState commissioning_state bytes u32 u16
  | InstalledSession u16 bytes
  | TransportFailed nat
  | StartPASEError comm_error

definition installed_report :: "commissioning_state \<Rightarrow> session_manager \<Rightarrow> u16 \<Rightarrow> report list" where
  "installed_report state sm i =
     (if state = StateComplete then
        (case sm_Session sm i of Some s \<Rightarrow> [InstalledSession i (take 4 (s_AttestationChallenge s))] | None \<Rightarrow> [])
      else [])"

definition received_report :: "frame \<Rightarrow> udp_addr \<Rightarrow> report" where
  "received_report frame from =
     Received (ph_Opcode (f_PayloadHeader frame)) (ph_ExchangeID (f_PayloadHeader frame)) (length (f_Payload frame)) from"

definition samplePasscode :: u32 where "samplePasscode = 12345678"
definition sampleSalt :: bytes where "sampleSalt = str_bytes ''SPAKE2P Key Salt''"

section \<open>Device\<close>

record device_app =
  dv_commissionee :: commissionee
  dv_peer :: "udp_addr option"
  dv_env :: env
  dv_out :: "report list"

definition device_SendMessage ::
  "(bytes \<Rightarrow> udp_addr \<Rightarrow> nat option) \<Rightarrow> udp_addr option \<Rightarrow> frame \<Rightarrow> comm_error option" where
  "device_SendMessage write peer frame =
     (case peer of None \<Rightarrow> Some ErrNoKnownPeer
      | Some a \<Rightarrow> map_option ErrSend (fst (tm_Send write a frame False)))"

definition device_handler ::
  "'x suite_scheme \<Rightarrow> (bytes \<Rightarrow> udp_addr \<Rightarrow> nat option) \<Rightarrow> frame \<Rightarrow> udp_addr \<Rightarrow> device_app \<Rightarrow> device_app" where
  "device_handler S write frame from d =
     (case Commissionee_HandleMessage S (Some (device_SendMessage write (Some from))) frame (dv_commissionee d, dv_env d) of
        (r, (c, e)) \<Rightarrow>
          d\<lparr>dv_commissionee := c, dv_peer := Some from, dv_env := e,
            dv_out := dv_out d @ [received_report frame from] @
              (case r of Inl er \<Rightarrow> [HandleMessageError er]
               | Inr _ \<Rightarrow> [DeviceState (ce_State c) (ce_SessionID c) (ce_Random c)]
                   @ installed_report (ce_State c) (ce_sessionManager c) (ce_SessionID c))\<rparr>)"

definition devicePort :: nat where "devicePort = 5540"

text \<open>\<open>Inl\<close> is a panic before the loop starts; otherwise the device after its loop.\<close>

definition device_main ::
  "'x suite_scheme \<Rightarrow> (udp_addr \<Rightarrow> nat + 'c) \<Rightarrow> (bytes \<Rightarrow> udp_addr \<Rightarrow> nat option) \<Rightarrow> bytes \<Rightarrow> read_result list
     \<Rightarrow> (comm_error + transport_error) + device_app" where
  "device_main S listen write rnd reads =
     (case NewCommissionee S samplePasscode sampleSalt 1000 (Some NewSessionManager) of
        Inl e \<Rightarrow> Inl (Inl e)
      | Inr c \<Rightarrow>
          (case NewTransportManager listen devicePort (None :: unit option) of
             Inl e \<Rightarrow> Inl (Inr e)
           | Inr (tm :: ('c, unit, unit) transport_manager) \<Rightarrow>
               (case tm_Start (Some (device_handler S write)) reads
                       \<lparr>dv_commissionee = c, dv_peer = None, dv_env = \<lparr>e_rnd = rnd, e_sent = []\<rparr>, dv_out = []\<rparr> of
                  (None, d) \<Rightarrow> Inr d
                | (Some e, d) \<Rightarrow> Inr (d\<lparr>dv_out := dv_out d @ [TransportFailed e]\<rparr>))))"

section \<open>Controller\<close>

record controller_app =
  ct_commissioner :: commissioner
  ct_env :: env
  ct_out :: "report list"

definition controller_SendMessage ::
  "(bytes \<Rightarrow> udp_addr \<Rightarrow> nat option) \<Rightarrow> udp_addr \<Rightarrow> frame \<Rightarrow> comm_error option" where
  "controller_SendMessage write deviceAddr frame = map_option ErrSend (fst (tm_Send write deviceAddr frame False))"

definition controller_handler ::
  "'x suite_scheme \<Rightarrow> (bytes \<Rightarrow> udp_addr \<Rightarrow> nat option) \<Rightarrow> udp_addr \<Rightarrow> frame \<Rightarrow> udp_addr \<Rightarrow> controller_app \<Rightarrow> controller_app" where
  "controller_handler S write deviceAddr frame from a =
     (case Commissioner_HandleMessage S (Some (controller_SendMessage write deviceAddr)) frame (ct_commissioner a, ct_env a) of
        (r, (c, e)) \<Rightarrow>
          a\<lparr>ct_commissioner := c, ct_env := e,
            ct_out := ct_out a @ [received_report frame from] @
              (case r of Inl er \<Rightarrow> [HandleMessageError er]
               | Inr _ \<Rightarrow> [ControllerState (cr_State c) (cr_Salt c) (cr_Iterations c) (cr_ResponderSessionID c)]
                   @ installed_report (cr_State c) (cr_sessionManager c) (cr_SessionID c))\<rparr>)"

definition controller_start ::
  "(bytes \<Rightarrow> udp_addr \<Rightarrow> nat option) \<Rightarrow> udp_addr \<Rightarrow> u32 \<Rightarrow> controller_app \<Rightarrow> controller_app" where
  "controller_start write deviceAddr passcode a =
     (case StartPASE (Some (controller_SendMessage write deviceAddr)) passcode (ct_commissioner a, ct_env a) of
        (r, (c, e)) \<Rightarrow>
          a\<lparr>ct_commissioner := c, ct_env := e,
            ct_out := ct_out a @ (case r of Inl er \<Rightarrow> [StartPASEError er] | Inr _ \<Rightarrow> [])\<rparr>)"

definition ctrlPort :: nat where "ctrlPort = 5550"

definition sampleDeviceAddr :: udp_addr where
  "sampleDeviceAddr = \<lparr>ua_IP = parsed_IPv4 [127, 0, 0, 1], ua_Port = devicePort\<rparr>"

text \<open>The goroutine's loop; it prints the error that ends it.\<close>

definition controller_loop ::
  "'x suite_scheme \<Rightarrow> (bytes \<Rightarrow> udp_addr \<Rightarrow> nat option) \<Rightarrow> udp_addr \<Rightarrow> read_result list \<Rightarrow> controller_app \<Rightarrow> bool \<times> controller_app" where
  "controller_loop S write deviceAddr reads a =
     (case tm_Start (Some (controller_handler S write deviceAddr)) reads a of
        (None, a') \<Rightarrow> (True, a')
      | (Some e, a') \<Rightarrow> (False, a'\<lparr>ct_out := ct_out a' @ [TransportFailed e]\<rparr>))"

definition controller_main ::
  "'x suite_scheme \<Rightarrow> (udp_addr \<Rightarrow> nat + 'c) \<Rightarrow> (bytes \<Rightarrow> udp_addr \<Rightarrow> nat option) \<Rightarrow> bytes \<Rightarrow> read_result list \<Rightarrow> read_result list
     \<Rightarrow> (comm_error + transport_error) + controller_app" where
  "controller_main S listen write rnd before after =
     (case NewTransportManager listen ctrlPort (None :: unit option) of
        Inl e \<Rightarrow> Inl (Inr e)
      | Inr (tm :: ('c, unit, unit) transport_manager) \<Rightarrow>
          (case NewCommissioner (Some NewSessionManager) of
             Inl e \<Rightarrow> Inl (Inl e)
           | Inr c \<Rightarrow>
               (case controller_loop S write sampleDeviceAddr before
                       \<lparr>ct_commissioner = c, ct_env = \<lparr>e_rnd = rnd, e_sent = []\<rparr>, ct_out = []\<rparr> of
                  (running, a) \<Rightarrow>
                    let a' = controller_start write sampleDeviceAddr samplePasscode a in
                    Inr (if running then snd (controller_loop S write sampleDeviceAddr after a') else a'))))"

end
