(* ===== verification/Pase_Run.thy ===== *)
theory Pase_Run
  imports Pase_Steps Samples
begin

text \<open>
  Whole runs: the two sample programs joined by a network that delivers every datagram, possibly
  altered on the way. The
  rounds of the network go through both receive loops and the wire format of the frames; the
  steps come from \<open>Pase_Steps\<close>, the agreement of the keys from \<open>Spake2plus\<close>, the
  traffic afterwards from \<open>Session\<close>.
\<close>

section \<open>The key exchange inside\<close>

text \<open>
  No point of the run is the point at infinity, and the first scalar is not empty: the cases a
  random scalar hits with negligible probability, in which one side reports an error.
\<close>

definition nondegenerate :: "'x suite_scheme \<Rightarrow> bytes \<Rightarrow> bytes \<Rightarrow> bytes \<Rightarrow> bytes \<Rightarrow> bool" where
  "nondegenerate S w0 w1 x y \<longleftrightarrow> w0 \<noteq> [] \<and> smult (spake2pCurve S) w1 (crv_G (spake2pCurve S)) \<noteq> infinity
     \<and> share (spake2pCurve S) (spakeM S) w0 (SetBytes x) \<noteq> infinity
     \<and> share (spake2pCurve S) (spakeN S) w0 (SetBytes y) \<noteq> infinity"

lemma length_point_bytes: "valid_point C p \<Longrightarrow> length (point_bytes C p) = 1 + 2 * crv_ByteLen C"
  by (simp add: point_bytes_def elliptic_Marshal_def)

lemma random_scalar: "length x = 32 \<Longrightarrow> spakeRandomScalar (x @ r) = (Inr (SetBytes x), r)"
  by (simp add: spakeRandomScalar_def ReadFull_def)

definition exchange ::
  "'x suite_scheme \<Rightarrow> bytes \<Rightarrow> bytes \<Rightarrow> bytes \<Rightarrow> bytes \<Rightarrow> bytes \<Rightarrow> bytes \<Rightarrow> bytes \<Rightarrow> bytes \<Rightarrow> bytes \<Rightarrow> bytes \<Rightarrow> bytes \<Rightarrow> bytes
     \<Rightarrow> bytes \<Rightarrow> prover \<Rightarrow> prover \<Rightarrow> verifier \<Rightarrow> bool" where
  "exchange S w0 w1 l ctx rndA rndB restA restB pA pB cA cB ke p1 p2 v2 \<longleftrightarrow>
     (\<exists>p0 v0 v1. NewSPAKE2PProver w0 w1 ctx = Inr p0 \<and> NewSPAKE2PVerifier S w0 l ctx = Inr v0
        \<and> ComputePA S p0 rndA = (Inr pA, p1, restA) \<and> ComputePB S v0 pA rndB = (Inr pB, v1, restB)
        \<and> Prover_Finalize S p1 pB = (Inr (), p2) \<and> Verifier_Finalize S v1 = (Inr (), v2))
     \<and> ConfirmationB v2 = Inr cB \<and> VerifyConfirmationB p2 cB = Inr ()
     \<and> ConfirmationA p2 = Inr cA \<and> VerifyConfirmationA v2 cA = Inr ()
     \<and> Prover_SharedKey p2 = Inr ke \<and> Verifier_SharedKey v2 = Inr ke
     \<and> length ke = 16 \<and> length cA = 32 \<and> length cB = 32
     \<and> length pA = 1 + 2 * crv_ByteLen (spake2pCurve S) \<and> length pB = 1 + 2 * crv_ByteLen (spake2pCurve S)"

lemma spake_run:
  assumes "suite_lawful S" "verifier_record S w1 l" "nondegenerate S w0 w1 x y" "length x = 32" "length y = 32"
  obtains pA pB cA cB ke p1 p2 v2 where "exchange S w0 w1 l ctx (x @ rA) (y @ rB) rA rB pA pB cA cB ke p1 p2 v2"
proof -
  let ?C = "spake2pCurve S"
  note law = suite_lawful_simps [OF assms(1)]
  have nd: "w0 \<noteq> []" "smult ?C w1 (crv_G ?C) \<noteq> infinity" "share ?C (spakeM S) w0 (SetBytes x) \<noteq> infinity"
    "share ?C (spakeN S) w0 (SetBytes y) \<noteq> infinity"
    using assms(3) by (simp_all add: nondegenerate_def)
  have "w1 \<noteq> []" using nd(2) by (auto simp: SetBytes_def ec_mult.simps)
  then obtain p0 where p0: "NewSPAKE2PProver w0 w1 ctx = Inr p0" "p_w0 p0 = w0" using nd(1) by (simp add: NewSPAKE2PProver_def)
  let ?A = "share ?C (spakeM S) w0 (SetBytes x)" and ?B = "share ?C (spakeN S) w0 (SetBytes y)"
  have vA: "valid_point ?C ?A" and vB: "valid_point ?C ?B" using blind_eq(2) law by blast+
  have l: "l = point_bytes ?C (smult ?C w1 (crv_G ?C))" "valid_point ?C (smult ?C w1 (crv_G ?C))"
    using assms(2) by (auto simp: verifier_record_def point_bytes_def elliptic_Marshal_def split: if_splits)
  have un: "unmarshalP256Point S (point_bytes ?C q) = Inr q" if "valid_point ?C q" "q \<noteq> infinity" for q
    using that by (intro unmarshal_share assms(1)) (simp add: valid_point_def)
  obtain v0 where v0: "NewSPAKE2PVerifier S w0 l ctx = Inr v0" "v_w0 v0 = w0" "valid_point ?C (v_l v0)"
    using un [OF l(2) nd(2)] nd(1) l by (simp add: NewSPAKE2PVerifier_def)
  obtain p1 where A: "ComputePA S p0 (x @ rA) = (Inr (point_bytes ?C ?A), p1, rA)"
    using ComputePA_eq [OF assms(1) random_scalar [OF assms(4)], of p0 rA] p0(2) by simp
  obtain v1 where B: "ComputePB S v0 (point_bytes ?C ?A) (y @ rB) = (Inr (point_bytes ?C ?B), v1, rB)"
    using ComputePB_eq [OF assms(1) un [OF vA nd(3)] random_scalar [OF assms(5)] v0(3), of rB] v0(2) by simp
  obtain ke cA cB where fin: "length ke = 16" "length cA = 32" "length cB = 32"
    "Prover_Finalize S p1 (point_bytes ?C ?B)
       = (Inr (), p1\<lparr>p_pB := point_bytes ?C ?B, p_ke := ke, p_cA := cA, p_cB := cB, p_finalized := True\<rparr>)"
    "Verifier_Finalize S v1 = (Inr (), v1\<lparr>v_ke := ke, v_cA := cA, v_cB := cB, v_finalized := True\<rparr>)"
    by (rule exchange_agrees [OF assms(1,2) p0(1) v0(1) A B un [OF vB nd(4)]])
  then have "exchange S w0 w1 l ctx (x @ rA) (y @ rB) rA rB (point_bytes ?C ?A) (point_bytes ?C ?B) cA cB ke p1
      (p1\<lparr>p_pB := point_bytes ?C ?B, p_ke := ke, p_cA := cA, p_cB := cB, p_finalized := True\<rparr>)
      (v1\<lparr>v_ke := ke, v_cA := cA, v_cB := cB, v_finalized := True\<rparr>)"
    using p0(1) v0(1) A B vA vB
    by (simp add: exchange_def ConfirmationB_def VerifyConfirmationB_def ConfirmationA_def VerifyConfirmationA_def
        Prover_SharedKey_def Verifier_SharedKey_def length_point_bytes)
  then show ?thesis by (rule that)
qed

section \<open>The network\<close>

text \<open>
  A round of the network: the device's receive loop gets the datagrams of the controller, then
  the controller's loop gets the device's answers, once and in order. Somebody on the path may
  alter the frames in either direction; a faithful network alters none.
\<close>

definition datagram_of :: "udp_addr \<Rightarrow> frame \<Rightarrow> read_result" where
  "datagram_of a f = (case Frame_Encode f of Inl e \<Rightarrow> ReadError 0 | Inr wire \<Rightarrow> Datagram wire a)"

definition altered_round ::
  "(frame \<Rightarrow> frame) \<Rightarrow> (frame \<Rightarrow> frame) \<Rightarrow> 'x suite_scheme \<Rightarrow> (bytes \<Rightarrow> udp_addr \<Rightarrow> nat option) \<Rightarrow> udp_addr \<Rightarrow> udp_addr
     \<Rightarrow> controller_app \<times> device_app \<Rightarrow> controller_app \<times> device_app" where
  "altered_round up down S write ctl dev = (\<lambda>(a, d).
     let d1 = snd (tm_Start (Some (device_handler S write)) (map (\<lambda>f. datagram_of ctl (up f)) (e_sent (ct_env a))) d);
         a1 = a\<lparr>ct_env := (ct_env a)\<lparr>e_sent := []\<rparr>\<rparr>;
         a2 = snd (tm_Start (Some (controller_handler S write dev)) (map (\<lambda>f. datagram_of dev (down f)) (e_sent (dv_env d1))) a1)
     in (a2, d1\<lparr>dv_env := (dv_env d1)\<lparr>e_sent := []\<rparr>\<rparr>))"

definition net_round ::
  "'x suite_scheme \<Rightarrow> (bytes \<Rightarrow> udp_addr \<Rightarrow> nat option) \<Rightarrow> udp_addr \<Rightarrow> udp_addr \<Rightarrow> controller_app \<times> device_app \<Rightarrow> controller_app \<times> device_app" where
  "net_round S write ctl dev = altered_round (\<lambda>f. f) (\<lambda>f. f) S write ctl dev"

lemma deliver_frame:
  assumes "carries op bs f" "length bs \<le> 2012"
  shows "tm_Start (Some h) [datagram_of a f] s = (None, h f a s)"
proof -
  obtain w where w: "Frame_Encode f = Inr w" "Frame_Decode w = Inr f"
    using frame_dec_enc assms(1) unfolding carries_def by blast
  have "length w \<le> recv_buf_size"
    using Frame_Encode_length [OF w(1)] assms by (simp add: carries_def recv_buf_size_def)
  then show ?thesis using w by (simp add: datagram_of_def)
qed

lemma reliable_messengers:
  assumes "\<forall>b a. write b a = None"
  shows "reliable (device_SendMessage write (Some a))" "reliable (controller_SendMessage write a)"
  using frame_dec_enc assms
  by (force simp: reliable_def device_SendMessage_def controller_SendMessage_def tm_Send_def)+

lemma device_handler_parts:
  assumes "Commissionee_HandleMessage S (Some (device_SendMessage write (Some from))) f (dv_commissionee d, dv_env d) = (r, (c, e))"
  shows "dv_commissionee (device_handler S write f from d) = c" "dv_env (device_handler S write f from d) = e"
  using assms by (simp_all add: device_handler_def)

lemma controller_handler_parts:
  assumes "Commissioner_HandleMessage S (Some (controller_SendMessage write dev)) f (ct_commissioner a, ct_env a) = (r, (c, e))"
  shows "ct_commissioner (controller_handler S write dev f from a) = c" "ct_env (controller_handler S write dev f from a) = e"
  using assms by (simp_all add: controller_handler_def)

lemma altered_exchange:
  assumes "e_sent (ct_env a) = [f]" "carries op1 bs1 (up f)" "length bs1 \<le> 2012"
    and "Commissionee_HandleMessage S (Some (device_SendMessage write (Some ctl))) (up f) (dv_commissionee d, dv_env d)
           = (Inr (), (c, \<lparr>e_rnd = rD, e_sent = [g]\<rparr>))" "carries op2 bs2 (down g)" "length bs2 \<le> 2012"
    and "Commissioner_HandleMessage S (Some (controller_SendMessage write dev)) (down g) (ct_commissioner a, \<lparr>e_rnd = e_rnd (ct_env a), e_sent = []\<rparr>)
           = (Inr (), (c', e'))"
  obtains a' d' where "altered_round up down S write ctl dev (a, d) = (a', d')" "ct_commissioner a' = c'" "ct_env a' = e'"
    "dv_commissionee d' = c" "dv_env d' = \<lparr>e_rnd = rD, e_sent = []\<rparr>"
proof -
  let ?d = "device_handler S write (up f) ctl d" and ?a = "a\<lparr>ct_env := (ct_env a)\<lparr>e_sent := []\<rparr>\<rparr>"
  note D = device_handler_parts [OF assms(4)]
  have "Commissioner_HandleMessage S (Some (controller_SendMessage write dev)) (down g) (ct_commissioner ?a, ct_env ?a) = (Inr (), (c', e'))"
    using assms(7) by (cases "ct_env a") simp
  note A = controller_handler_parts [OF this, of dev]
  have "altered_round up down S write ctl dev (a, d)
      = (controller_handler S write dev (down g) dev ?a, ?d\<lparr>dv_env := (dv_env ?d)\<lparr>e_sent := []\<rparr>\<rparr>)"
    using D assms(1) by (simp add: altered_round_def Let_def deliver_frame [OF assms(2,3)] deliver_frame [OF assms(5,6)])
  then show ?thesis using that A D by simp
qed

lemmas full_round = altered_exchange [where up = "\<lambda>f. f" and down = "\<lambda>f. f", folded net_round_def]

lemma last_round:
  assumes "e_sent (ct_env a) = [f]" "carries op1 bs1 f" "length bs1 \<le> 2012" "e_sent (dv_env d) = []"
    and "Commissionee_HandleMessage S (Some (device_SendMessage write (Some ctl))) f (dv_commissionee d, dv_env d)
           = (Inr (), (c, dv_env d))"
  obtains a' d' where "net_round S write ctl dev (a, d) = (a', d')" "ct_commissioner a' = ct_commissioner a" "e_sent (ct_env a') = []"
    "dv_commissionee d' = c" "e_sent (dv_env d') = []"
  by (rule that [of "a\<lparr>ct_env := (ct_env a)\<lparr>e_sent := []\<rparr>\<rparr>" "(device_handler S write f ctl d)\<lparr>dv_env := (dv_env d)\<lparr>e_sent := []\<rparr>\<rparr>"])
    (use device_handler_parts [OF assms(5)] assms(1,4) in \<open>simp_all add: net_round_def altered_round_def Let_def deliver_frame [OF assms(2,3)]\<close>)

text \<open>The programs before they start.\<close>

definition fresh_controller :: "commissioner \<Rightarrow> bytes \<Rightarrow> controller_app" where
  "fresh_controller c rnd = \<lparr>ct_commissioner = c, ct_env = \<lparr>e_rnd = rnd, e_sent = []\<rparr>, ct_out = []\<rparr>"

definition fresh_device :: "commissionee \<Rightarrow> bytes \<Rightarrow> device_app" where
  "fresh_device c rnd = \<lparr>dv_commissionee = c, dv_peer = None, dv_env = \<lparr>e_rnd = rnd, e_sent = []\<rparr>, dv_out = []\<rparr>"

lemma controller_start_ok:
  assumes "\<forall>b a. write b a = None" "NewCommissioner (Some sm) = Inr c0" "length r = 32" "length k = 4"
  obtains a f n bs where "controller_start write dev pc (fresh_controller c0 (r @ k @ rest)) = a"
    "ct_commissioner a = started c0 pc r n bs"
    "ct_env a = \<lparr>e_rnd = rest, e_sent = [f]\<rparr>" "carries OpcodePBKDFParamRequest bs f"
    "\<forall>z. decode_message request_type request_of (bs @ z) = Inr (first_request r)" "length bs \<le> 200"
proof -
  have c0: "cr_SessionID c0 = 0" "cr_ExchangeID c0 = 0" "cr_MessageCounter c0 = 0" "length (req_InitiatorRandom (first_request r)) < 2 ^ 31"
    using assms(2,3) by (auto simp: NewCommissioner_def first_request_def)
  obtain f n bs where s: "StartPASE (Some (controller_SendMessage write dev)) pc (c0, \<lparr>e_rnd = r @ k @ rest, e_sent = []\<rparr>)
      = (Inr (), (started c0 pc r n bs, \<lparr>e_rnd = rest, e_sent = [] @ [f]\<rparr>))"
    "carries OpcodePBKDFParamRequest bs f" "\<forall>z. decode_message request_type request_of (bs @ z) = Inr (first_request r)" "length bs \<le> 200"
    by (rule StartPASE_ok [OF reliable_messengers(2) [OF assms(1)] c0(1-3) assms(3,4)])
  then show ?thesis by (intro that [OF refl _ _ s(2-4)]) (simp_all add: controller_start_def fresh_controller_def)
qed

lemma NewCommissionee_ok:
  assumes "NewCommissionee S pc salt iterations (Some sm) = Inr d0" "0 < iterations" "iterations < 2 ^ 32"
    and "Spake2pW0W1FromPasscode S pc salt iterations = Inr (w0, w1)"
  shows "ce_Salt d0 = salt" "uint (ce_Iterations d0) = iterations" "ce_W0 d0 = w0" "verifier_record S w1 (ce_L d0)"
    "ce_SessionID d0 = 0" "ce_MessageCounter d0 = 0" "ce_sessionManager d0 = sm"
proof -
  obtain w0' l where wl: "ComputeSPAKE2PVerifierData S pc salt iterations = Inr (w0', l)"
    using assms(1) by (auto simp: NewCommissionee_def split: sum.splits)
  note r = verifier_data_record [OF wl assms(4)]
  have "d0 = \<lparr>ce_State = StateIdle, ce_Salt = salt, ce_Iterations = word_of_int iterations, ce_W0 = w0', ce_L = l,
      ce_Random = [], ce_sessionManager = sm, ce_SessionID = 0, ce_MessageCounter = 0, ce_InitiatorRandom = [],
      ce_InitiatorSessionID = 0, ce_ExchangeID = 0, ce_RequestPayload = [], ce_ResponsePayload = [], ce_Ke = [],
      ce_verifier = None\<rparr>"
    using assms(1) wl by (simp add: NewCommissionee_def)
  then show "ce_Salt d0 = salt" "uint (ce_Iterations d0) = iterations" "ce_W0 d0 = w0" "verifier_record S w1 (ce_L d0)"
    "ce_SessionID d0 = 0" "ce_MessageCounter d0 = 0" "ce_sessionManager d0 = sm"
    using r assms(2,3) by (simp_all add: uint_word_of_int)
qed

section \<open>The three rounds\<close>

text \<open>
  Somebody who puts the bytes \<open>z\<close> behind the payload of a request and in front of the payload of
  its response. With no bytes this alters nothing.
\<close>

definition append_payload :: "bytes \<Rightarrow> frame \<Rightarrow> frame" where
  "append_payload z f = f\<lparr>f_Payload := f_Payload f @ z\<rparr>"

definition prepend_payload :: "bytes \<Rightarrow> frame \<Rightarrow> frame" where
  "prepend_payload z f = f\<lparr>f_Payload := z @ f_Payload f\<rparr>"

lemma splice_nothing: "altered_round (append_payload []) (prepend_payload []) S write ctl dev = net_round S write ctl dev"
proof -
  have "append_payload [] = (\<lambda>f. f)" "prepend_payload [] = (\<lambda>f. f)"
    by (simp_all add: fun_eq_iff append_payload_def prepend_payload_def)
  then show ?thesis by (simp add: net_round_def)
qed

lemma splice_carries:
  "carries op bs f \<Longrightarrow> carries op (bs @ z) (append_payload z f)" "carries op bs f \<Longrightarrow> carries op (z @ bs) (prepend_payload z f)"
  by (simp_all add: carries_def frame_wf_def append_payload_def prepend_payload_def)

text \<open>
  What the ends then know of each other: the device answered with the random number \<open>rD\<close>, the
  controller believes the random number \<open>rR\<close> and the session identifier \<open>sid\<close>.
\<close>

definition spliced :: "bytes \<Rightarrow> bytes \<Rightarrow> bytes \<Rightarrow> u16 \<Rightarrow> commissioner \<Rightarrow> commissionee \<Rightarrow> bool" where
  "spliced z rD rR sid c d \<longleftrightarrow> cr_SessionID c = 12345 \<and> ce_InitiatorSessionID d = 12345 \<and> ce_SessionID d = 23456
     \<and> cr_ResponderSessionID c = sid \<and> cr_Random c = ce_InitiatorRandom d \<and> ce_Random d = rD \<and> cr_ResponderRandom c = rR
     \<and> ce_RequestPayload d = cr_RequestPayload c @ z \<and> cr_ResponsePayload c = z @ ce_ResponsePayload d"

text \<open>On a faithful network both know each other's identifiers and random numbers and hold the same transcript.\<close>

definition linked :: "commissioner \<Rightarrow> commissionee \<Rightarrow> bool" where
  "linked c d \<longleftrightarrow> cr_SessionID c = 12345 \<and> ce_InitiatorSessionID d = 12345 \<and> ce_SessionID d = 23456 \<and> cr_ResponderSessionID c = 23456
     \<and> cr_Random c = ce_InitiatorRandom d \<and> cr_ResponderRandom c = ce_Random d
     \<and> cr_RequestPayload c = ce_RequestPayload d \<and> cr_ResponsePayload c = ce_ResponsePayload d"

lemma spliced_linked: "spliced [] rD rD 23456 c d \<Longrightarrow> linked c d"
  by (auto simp: spliced_def linked_def)

text \<open>The response that the controller reads when \<open>z\<close> precedes the device's answer.\<close>

definition answer_read :: "bytes \<Rightarrow> commissionee \<Rightarrow> bytes \<Rightarrow> bytes \<Rightarrow> bytes \<Rightarrow> u16 \<Rightarrow> bool" where
  "answer_read z d rC rD rR sid \<longleftrightarrow>
     (\<forall>resp. decode_message response_type response_of resp = Inr (first_response d rC rD) \<longrightarrow>
        decode_message response_type response_of (z @ resp) = Inr (first_response d rC rR\<lparr>resp_ResponderSessionID := sid\<rparr>))"

lemma answer_read_plain: "answer_read [] d rC rD rD 23456"
  by (simp add: answer_read_def first_response_def)

lemma next_counter_rest: "length r - 4 \<le> length (snd (next_counter n r))"
  by (simp add: next_counter_def)

lemma controller_reads_answer:
  assumes "crv_ByteLen (spake2pCurve S) \<le> 950" "\<forall>b a. write b a = None"
    and "ce_Salt d0 = salt" "uint (ce_Iterations d0) = iterations" "Spake2pW0W1FromPasscode S pc salt iterations = Inr (w0, w1)"
    and "exchange S w0 w1 l (paseContext (req @ z) resp) (x @ restC) rndB restC restB pA pB cA cB ke p1 p2 v2" "8 \<le> length restC"
    and "carries OpcodePBKDFParamResponse resp f" "decode_message response_type response_of resp = Inr (first_response d0 rC rD)"
    and "answer_read z d0 rC rD rR sid"
  obtains f' n' bs where
    "Commissioner_HandleMessage S (Some (controller_SendMessage write dev)) (prepend_payload z f)
        (started c0 pc rC n req, \<lparr>e_rnd = x @ restC, e_sent = []\<rparr>)
      = (Inr (), (pake1_sent (started c0 pc rC n req) rR sid salt (ce_Iterations d0) (z @ resp) p1 n',
          \<lparr>e_rnd = snd (next_counter n restC), e_sent = [f']\<rparr>))"
    "carries OpcodePASEPake1 bs f'" "decode_message pake1_type pake1_of bs = Inr \<lparr>pk1_PA = pA\<rparr>" "length bs \<le> 2012"
proof -
  obtain p0 where p0: "NewSPAKE2PProver w0 w1 (paseContext req (z @ resp)) = Inr p0" "ComputePA S p0 (x @ restC) = (Inr pA, p1, restC)"
    "length pA \<le> 1901" using assms(1,6) by (auto simp: exchange_def paseContext_def)
  let ?e = "\<lparr>e_rnd = x @ restC, e_sent = []\<rparr>" and ?c = "started c0 pc rC n req"
  have c: "cr_Random ?c = rC" "cr_Passcode ?c = pc" "cr_RequestPayload ?c = req" "cr_MessageCounter ?c = n" "4 \<le> length restC"
    "length pA < 2 ^ 31" using assms(7) p0(3) by (simp_all add: started_def)
  have ans: "decode_message response_type response_of (z @ resp) = Inr \<lparr>resp_InitiatorRandom = rC, resp_ResponderRandom = rR,
      resp_ResponderSessionID = sid, resp_Params = Some \<lparr>ps_Iterations = ce_Iterations d0, ps_Salt = salt\<rparr>\<rparr>"
    using assms(9,10) by (simp add: answer_read_def first_response_def assms(3))
  obtain f' n' bs where h: "Commissioner_HandleMessage S (Some (controller_SendMessage write dev)) (prepend_payload z f) (?c, ?e)
      = (Inr (), (pake1_sent ?c rR sid salt (ce_Iterations d0) (z @ resp) p1 n', \<lparr>e_rnd = snd (next_counter n restC), e_sent = [f']\<rparr>))"
    "carries OpcodePASEPake1 bs f'" "decode_message pake1_type pake1_of bs = Inr \<lparr>pk1_PA = pA\<rparr>" "length bs \<le> 9 + length pA"
    by (rule handlePBKDFParamResponse_ok [where c = ?c and e = ?e and S = S, OF reliable_messengers(2) [OF assms(2), of dev] c(1)
          splice_carries(2) [OF assms(8)] ans, unfolded c assms(4), OF assms(5) p0(1)])
      (use p0(2) c(5,6) in simp_all)
  then show ?thesis using that p0(3) by simp
qed

lemma params_round:
  assumes "suite_lawful S" "crv_ByteLen (spake2pCurve S) \<le> 950" "\<forall>b a. write b a = None"
    and "NewCommissioner (Some smC) = Inr c0" "NewCommissionee S pc salt iterations (Some smD) = Inr d0"
    and "0 < iterations" "iterations < 2 ^ 32" "length z + length salt \<le> 1800"
    and "Spake2pW0W1FromPasscode S pc salt iterations = Inr (w0, w1)" "nondegenerate S w0 w1 x y"
    and "length rC = 32" "length kC = 4" "length x = 32" "8 \<le> length restC" "length rD = 32" "length kD = 4" "length y = 32"
    and "answer_read z d0 rC rD rR sid"
  obtains a d f bs rnd pA pB cA cB ke p1 p2 v2 where
    "altered_round (append_payload z) (prepend_payload z) S write ctl dev
       (controller_start write dev pc (fresh_controller c0 (rC @ kC @ x @ restC)), fresh_device d0 (rD @ kD @ y @ restD)) = (a, d)"
    "ct_env a = \<lparr>e_rnd = rnd, e_sent = [f]\<rparr>" "4 \<le> length rnd" "dv_env d = \<lparr>e_rnd = y @ restD, e_sent = []\<rparr>"
    "carries OpcodePASEPake1 bs f" "decode_message pake1_type pake1_of bs = Inr \<lparr>pk1_PA = pA\<rparr>" "length bs \<le> 2012"
    "spliced z rD rR sid (ct_commissioner a) (dv_commissionee d)" "cr_prover (ct_commissioner a) = Some p1"
    "cr_sessionManager (ct_commissioner a) = smC" "ce_sessionManager (dv_commissionee d) = smD"
    "exchange S (ce_W0 (dv_commissionee d)) w1 (ce_L (dv_commissionee d))
       (paseContext (ce_RequestPayload (dv_commissionee d)) (ce_ResponsePayload (dv_commissionee d)))
       (x @ restC) (y @ restD) restC restD pA pB cA cB ke p1 p2 v2"
    "ce_W0 (dv_commissionee d) = w0" "ce_L (dv_commissionee d) = ce_L d0"
proof -
  note rel = reliable_messengers [OF assms(3)]
  note d0 = NewCommissionee_ok [OF assms(5-7,9)]
  obtain a1 f1 n1 req where a1: "controller_start write dev pc (fresh_controller c0 (rC @ kC @ x @ restC)) = a1"
    "ct_commissioner a1 = started c0 pc rC n1 req"
    "ct_env a1 = \<lparr>e_rnd = x @ restC, e_sent = [f1]\<rparr>" "carries OpcodePBKDFParamRequest req f1"
    "\<forall>z. decode_message request_type request_of (req @ z) = Inr (first_request rC)" "length req \<le> 200"
    by (rule controller_start_ok [OF assms(3,4,11,12)])
  have salt: "length (ce_Salt d0) < 2 ^ 31" using assms(8) by (simp add: d0(1))
  let ?f1 = "append_payload z f1"
  obtain f2 m1 resp where h2: "Commissionee_HandleMessage S (Some (device_SendMessage write (Some ctl))) ?f1
        (d0, \<lparr>e_rnd = rD @ kD @ y @ restD, e_sent = []\<rparr>)
      = (Inr (), (answered d0 ?f1 rC rD m1 (req @ z) resp, \<lparr>e_rnd = y @ restD, e_sent = [] @ [f2]\<rparr>))"
    "carries OpcodePBKDFParamResponse resp f2" "decode_message response_type response_of resp = Inr (first_response d0 rC rD)"
    "length resp \<le> 200 + length (ce_Salt d0)"
    by (rule handlePBKDFParamRequest_ok [OF rel(1) d0(5,6) salt assms(15,16) splice_carries(1) [OF a1(4)] spec [OF a1(5)] assms(11)])
  obtain pA pB cA cB ke p1 p2 v2 where
    ex: "exchange S w0 w1 (ce_L d0) (paseContext (req @ z) resp) (x @ restC) (y @ restD) restC restD pA pB cA cB ke p1 p2 v2"
    by (rule spake_run [OF assms(1) d0(4) assms(10,13,17)])
  let ?e = "\<lparr>e_rnd = x @ restC, e_sent = []\<rparr>" and ?f2 = "prepend_payload z f2" and ?c = "started c0 pc rC n1 req"
  obtain f3 n2 bs3 where h3: "Commissioner_HandleMessage S (Some (controller_SendMessage write dev)) ?f2 (?c, ?e)
      = (Inr (), (pake1_sent ?c rR sid salt (ce_Iterations d0) (z @ resp) p1 n2, \<lparr>e_rnd = snd (next_counter n1 restC), e_sent = [f3]\<rparr>))"
    "carries OpcodePASEPake1 bs3 f3" "decode_message pake1_type pake1_of bs3 = Inr \<lparr>pk1_PA = pA\<rparr>" "length bs3 \<le> 2012"
    by (rule controller_reads_answer [OF assms(2,3) d0(1,2) assms(9) ex assms(14) h2(2,3) assms(18)])
  let ?D = "fresh_device d0 (rD @ kD @ y @ restD)"
  have s: "e_sent (ct_env a1) = [f1]" "length (req @ z) \<le> 2012" "length (z @ resp) \<le> 2012"
    using a1(3,6) h2(4) assms(8) by (simp_all add: d0(1))
  have hD: "Commissionee_HandleMessage S (Some (device_SendMessage write (Some ctl))) ?f1 (dv_commissionee ?D, dv_env ?D)
      = (Inr (), (answered d0 ?f1 rC rD m1 (req @ z) resp, \<lparr>e_rnd = y @ restD, e_sent = [f2]\<rparr>))"
    using h2(1) by (simp add: fresh_device_def)
  have hC: "Commissioner_HandleMessage S (Some (controller_SendMessage write dev)) ?f2
      (ct_commissioner a1, \<lparr>e_rnd = e_rnd (ct_env a1), e_sent = []\<rparr>)
      = (Inr (), (pake1_sent ?c rR sid salt (ce_Iterations d0) (z @ resp) p1 n2, \<lparr>e_rnd = snd (next_counter n1 restC), e_sent = [f3]\<rparr>))"
    using h3(1) a1(2,3) by simp
  obtain a d where r: "altered_round (append_payload z) (prepend_payload z) S write ctl dev (a1, ?D) = (a, d)"
    "ct_commissioner a = pake1_sent ?c rR sid salt (ce_Iterations d0) (z @ resp) p1 n2"
    "ct_env a = \<lparr>e_rnd = snd (next_counter n1 restC), e_sent = [f3]\<rparr>"
    "dv_commissionee d = answered d0 ?f1 rC rD m1 (req @ z) resp" "dv_env d = \<lparr>e_rnd = y @ restD, e_sent = []\<rparr>"
    by (rule altered_exchange [where up = "append_payload z" and down = "prepend_payload z", OF s(1) splice_carries(1) [OF a1(4)] s(2) hD splice_carries(2) [OF h2(2)] s(3) hC])
  have "4 \<le> length (snd (next_counter n1 restC))" "cr_sessionManager c0 = smC"
    using next_counter_rest [of restC n1] assms(4,14) by (auto simp: NewCommissioner_def)
  then show ?thesis
    using r a1(1) h3(2-4) ex d0(3,7)
    by (intro that [of a d "snd (next_counter n1 restC)" f3 bs3 pA p1 pB cA cB ke p2 v2]) (simp_all add: spliced_def stage_defs)
qed

lemma shares_round:
  assumes "\<forall>b a. write b a = None" "crv_ByteLen (spake2pCurve S) \<le> 950"
    and "ct_env a = \<lparr>e_rnd = rnd, e_sent = [f]\<rparr>" "4 \<le> length rnd" "dv_env d = \<lparr>e_rnd = rndB, e_sent = []\<rparr>"
    and "carries OpcodePASEPake1 bs f" "decode_message pake1_type pake1_of bs = Inr \<lparr>pk1_PA = pA\<rparr>" "length bs \<le> 2012"
    and "cr_prover (ct_commissioner a) = Some p1"
    and "exchange S (ce_W0 (dv_commissionee d)) w1 (ce_L (dv_commissionee d))
       (paseContext (ce_RequestPayload (dv_commissionee d)) (ce_ResponsePayload (dv_commissionee d)))
       rndA rndB restA restB pA pB cA cB ke p1 p2 v2" "4 \<le> length restB" "DeriveSessionKeysFromKe S ke = Inr keys"
  obtains a' d' f' bs' rnd' n m where "net_round S write ctl dev (a, d) = (a', d')"
    "ct_commissioner a' = (ct_commissioner a)\<lparr>cr_prover := Some p2, cr_Ke := ke,
       cr_sessionManager := InstallSecureSession (cr_sessionManager (ct_commissioner a)) (cr_SessionID (ct_commissioner a)) 0 0 keys RoleInitiator,
       cr_MessageCounter := n, cr_State := StateComplete\<rparr>"
    "dv_commissionee d' = (dv_commissionee d)\<lparr>ce_verifier := Some v2, ce_MessageCounter := m, ce_State := StatePASE_Pake3\<rparr>"
    "e_sent (ct_env a') = [f']" "e_sent (dv_env d') = []"
    "carries OpcodePASEPake3 bs' f'" "decode_message pake3_type pake3_of bs' = Inr \<lparr>pk3_CA = cA\<rparr>" "length bs' \<le> 2012"
proof -
  note rel = reliable_messengers [OF assms(1)]
  let ?d = "dv_commissionee d" and ?c = "ct_commissioner a"
  obtain v0 v1 where v: "NewSPAKE2PVerifier S (ce_W0 ?d) (ce_L ?d) (paseContext (ce_RequestPayload ?d) (ce_ResponsePayload ?d)) = Inr v0"
    "ComputePB S v0 pA (e_rnd (dv_env d)) = (Inr pB, v1, restB)" "Verifier_Finalize S v1 = (Inr (), v2)" "ConfirmationB v2 = Inr cB"
    using assms(5,10) by (auto simp: exchange_def)
  have p: "Prover_Finalize S p1 pB = (Inr (), p2)" "VerifyConfirmationB p2 cB = Inr ()" "ConfirmationA p2 = Inr cA"
    "Prover_SharedKey p2 = Inr ke" and l: "length pB < 2 ^ 31" "length cB < 2 ^ 31" "length cA < 2 ^ 31"
    and l': "15 + length pB + length cB \<le> 2012" "9 + length cA \<le> 2012"
    using assms(2,10) by (auto simp: exchange_def)
  obtain g m bg where g: "Commissionee_HandleMessage S (Some (device_SendMessage write (Some ctl))) f (?d, dv_env d)
      = (Inr (), (?d\<lparr>ce_verifier := Some v2, ce_MessageCounter := m, ce_State := StatePASE_Pake3\<rparr>,
          \<lparr>e_rnd = snd (next_counter (ce_MessageCounter ?d) restB), e_sent = e_sent (dv_env d) @ [g]\<rparr>))"
    "carries OpcodePASEPake2 bg g" "decode_message pake2_type pake2_of bg = Inr \<lparr>pk2_PB = pB, pk2_CB = cB\<rparr>"
    "length bg \<le> 15 + length pB + length cB"
    by (rule handlePake1_ok [OF rel(1) assms(6,7) v(1,2) assms(11) v(3,4) l(1,2)])
  let ?e = "\<lparr>e_rnd = e_rnd (ct_env a), e_sent = []\<rparr>"
  have e: "4 \<le> length (e_rnd ?e)" "e_sent (ct_env a) = [f]" using assms(3,4) by simp_all
  obtain f' n bs' where f': "Commissioner_HandleMessage S (Some (controller_SendMessage write dev)) g (?c, ?e)
      = (Inr (), (?c\<lparr>cr_prover := Some p2, cr_Ke := ke,
            cr_sessionManager := InstallSecureSession (cr_sessionManager ?c) (cr_SessionID ?c) 0 0 keys RoleInitiator,
            cr_MessageCounter := n, cr_State := StateComplete\<rparr>,
          \<lparr>e_rnd = snd (next_counter (cr_MessageCounter ?c) (e_rnd ?e)), e_sent = e_sent ?e @ [f']\<rparr>))"
    "carries OpcodePASEPake3 bs' f'" "decode_message pake3_type pake3_of bs' = Inr \<lparr>pk3_CA = cA\<rparr>"
    "length bs' \<le> 9 + length cA"
    by (rule handlePake2_ok [OF rel(2) assms(9) g(2,3) p assms(12) l(3) e(1)])
  have gD: "Commissionee_HandleMessage S (Some (device_SendMessage write (Some ctl))) f (?d, dv_env d)
      = (Inr (), (?d\<lparr>ce_verifier := Some v2, ce_MessageCounter := m, ce_State := StatePASE_Pake3\<rparr>,
          \<lparr>e_rnd = snd (next_counter (ce_MessageCounter ?d) restB), e_sent = [g]\<rparr>))"
    using g(1) assms(5) by simp
  show ?thesis
    by (rule full_round [OF e(2) assms(6,8) gD g(2) order.trans [OF g(4) l'(1)] f'(1)])
      (rule that [OF _ _ _ _ _ f'(2,3) order.trans [OF f'(4) l'(2)]], assumption+, simp_all only: env.simps append_Nil)
qed

text \<open>The outcome of a run, seen from both ends.\<close>

definition commissioned :: "commissioner \<Rightarrow> commissionee \<Rightarrow> bool" where
  "commissioned c d \<longleftrightarrow> cr_State c = StateComplete \<and> ce_State d = StateComplete
     \<and> cr_Ke c = ce_Ke d \<and> length (cr_Ke c) = 16 \<and> linked c d"

text \<open>The device has just accepted a Pake3 message with the confirmation \<open>cA\<close>.\<close>

definition pake3_accepted :: "'x suite_scheme \<Rightarrow> bytes \<Rightarrow> commissionee \<Rightarrow> bool" where
  "pake3_accepted S cA d \<longleftrightarrow>
     (\<exists>Ms f d0 e. Commissionee_HandleMessage S Ms f (d0, e) = (Inr (), (d, e)) \<and> ph_Opcode (f_PayloadHeader f) = OpcodePASEPake3
        \<and> decode_message pake3_type pake3_of (f_Payload f) = Inr \<lparr>pk3_CA = cA\<rparr>)"

lemma pase_run:
  assumes "suite_lawful S" "crv_ByteLen (spake2pCurve S) \<le> 950" "\<forall>b a. write b a = None"
    and "NewCommissioner (Some smC) = Inr c0" "NewCommissionee S pc salt iterations (Some smD) = Inr d0"
    and "0 < iterations" "iterations < 2 ^ 32" "length z + length salt \<le> 1800"
    and "Spake2pW0W1FromPasscode S pc salt iterations = Inr (w0, w1)" "nondegenerate S w0 w1 x y"
    and "length rC = 32" "length kC = 4" "length x = 32" "8 \<le> length restC"
    and "length rD = 32" "length kD = 4" "length y = 32" "answer_read z d0 rC rD rR sid" "4 \<le> length restD"
  obtains a d keys ctx pA pB cA cB ke p1 p2 v2 where "(net_round S write ctl dev ^^ 2) (altered_round (append_payload z) (prepend_payload z) S write ctl dev
      (controller_start write dev pc (fresh_controller c0 (rC @ kC @ x @ restC)), fresh_device d0 (rD @ kD @ y @ restD))) = (a, d)"
    "e_sent (ct_env a) = []" "e_sent (dv_env d) = []"
    "cr_State (ct_commissioner a) = StateComplete" "ce_State (dv_commissionee d) = StateComplete"
    "cr_Ke (ct_commissioner a) = ce_Ke (dv_commissionee d)" "length (cr_Ke (ct_commissioner a)) = 16"
    "spliced z rD rR sid (ct_commissioner a) (dv_commissionee d)"
    "DeriveSessionKeysFromKe S (cr_Ke (ct_commissioner a)) = Inr keys"
    "cr_sessionManager (ct_commissioner a) = InstallSecureSession smC 12345 0 0 keys RoleInitiator"
    "ce_sessionManager (dv_commissionee d) = InstallSecureSession smD 23456 0 0 keys RoleResponder"
    "cr_prover (ct_commissioner a) = Some p2" "ce_verifier (dv_commissionee d) = Some v2"
    "exchange S w0 w1 (ce_L d0) ctx (x @ restC) (y @ restD) restC restD pA pB cA cB ke p1 p2 v2"
    "pake3_accepted S cA (dv_commissionee d)"
proof -
  obtain a1 d1 f bs rnd pA pB cA cB ke p1 p2 v2 where
    r1: "altered_round (append_payload z) (prepend_payload z) S write ctl dev (controller_start write dev pc (fresh_controller c0 (rC @ kC @ x @ restC)), fresh_device d0 (rD @ kD @ y @ restD)) = (a1, d1)"
    and s1: "ct_env a1 = \<lparr>e_rnd = rnd, e_sent = [f]\<rparr>" "4 \<le> length rnd" "dv_env d1 = \<lparr>e_rnd = y @ restD, e_sent = []\<rparr>"
      "carries OpcodePASEPake1 bs f" "decode_message pake1_type pake1_of bs = Inr \<lparr>pk1_PA = pA\<rparr>" "length bs \<le> 2012"
    and k1: "spliced z rD rR sid (ct_commissioner a1) (dv_commissionee d1)" and pr: "cr_prover (ct_commissioner a1) = Some p1"
    and sm: "cr_sessionManager (ct_commissioner a1) = smC" "ce_sessionManager (dv_commissionee d1) = smD"
    and ex: "exchange S (ce_W0 (dv_commissionee d1)) w1 (ce_L (dv_commissionee d1))
       (paseContext (ce_RequestPayload (dv_commissionee d1)) (ce_ResponsePayload (dv_commissionee d1)))
       (x @ restC) (y @ restD) restC restD pA pB cA cB ke p1 p2 v2"
    and w: "ce_W0 (dv_commissionee d1) = w0" "ce_L (dv_commissionee d1) = ce_L d0"
    by (rule params_round [OF assms(1-18)])
  from ex have v: "VerifyConfirmationA v2 cA = Inr ()" "Verifier_SharedKey v2 = Inr ke" "length ke = 16" by (simp_all add: exchange_def)
  obtain keys where keys: "DeriveSessionKeysFromKe S ke = Inr keys"
    by (rule DeriveSessionKeys_lengths [of S ke]) (use assms(1) v(3) in \<open>auto simp: suite_lawful_def\<close>)
  obtain a2 d2 f' bs' rnd' n m where r2: "net_round S write ctl dev (a1, d1) = (a2, d2)"
    and c2: "ct_commissioner a2 = (ct_commissioner a1)\<lparr>cr_prover := Some p2, cr_Ke := ke,
       cr_sessionManager := InstallSecureSession (cr_sessionManager (ct_commissioner a1)) (cr_SessionID (ct_commissioner a1)) 0 0 keys RoleInitiator,
       cr_MessageCounter := n, cr_State := StateComplete\<rparr>"
    and d2: "dv_commissionee d2 = (dv_commissionee d1)\<lparr>ce_verifier := Some v2, ce_MessageCounter := m, ce_State := StatePASE_Pake3\<rparr>"
    and s2: "e_sent (ct_env a2) = [f']" "e_sent (dv_env d2) = []"
      "carries OpcodePASEPake3 bs' f'" "decode_message pake3_type pake3_of bs' = Inr \<lparr>pk3_CA = cA\<rparr>" "length bs' \<le> 2012"
    by (rule shares_round [OF assms(3,2) s1 pr ex assms(19) keys])
  have ver: "ce_verifier (dv_commissionee d2) = Some v2" by (simp add: d2)
  obtain a3 d3 where r3: "net_round S write ctl dev (a2, d2) = (a3, d3)" "ct_commissioner a3 = ct_commissioner a2"
    "e_sent (ct_env a3) = []" "dv_commissionee d3 = (dv_commissionee d2)\<lparr>ce_Ke := ke,
        ce_sessionManager := InstallSecureSession (ce_sessionManager (dv_commissionee d2)) (ce_SessionID (dv_commissionee d2)) 0 0 keys RoleResponder,
        ce_State := StateComplete\<rparr>" "e_sent (dv_env d3) = []"
    by (rule last_round [OF s2(1,3,5,2) handlePake3_ok [OF ver s2(3,4) v(1,2) keys]])
  have acc: "pake3_accepted S cA (dv_commissionee d3)"
    using handlePake3_ok [OF ver s2(3,4) v(1,2) keys] s2(3,4) unfolding pake3_accepted_def carries_def r3(4) by blast
  have "(net_round S write ctl dev ^^ 2) (altered_round (append_payload z) (prepend_payload z) S write ctl dev
      (controller_start write dev pc (fresh_controller c0 (rC @ kC @ x @ restC)), fresh_device d0 (rD @ kD @ y @ restD))) = (a3, d3)"
    using r1 r2 r3(1) by (simp add: eval_nat_numeral)
  then show ?thesis
    using k1 r3 sm keys v(3) by (intro that [where a = a3 and d = d3 and keys = keys, OF _ _ _ _ _ _ _ _ _ _ _ _ _ ex [unfolded w] acc]) (simp_all add: c2 d2 spliced_def)
qed

lemma pase_completes:
  assumes "suite_lawful S" "crv_ByteLen (spake2pCurve S) \<le> 950" "\<forall>b a. write b a = None"
    and "NewCommissioner (Some smC) = Inr c0" "NewCommissionee S pc salt iterations (Some smD) = Inr d0"
    and "0 < iterations" "iterations < 2 ^ 32" "length salt \<le> 1800"
    and "Spake2pW0W1FromPasscode S pc salt iterations = Inr (w0, w1)" "nondegenerate S w0 w1 x y"
    and "length rC = 32" "length kC = 4" "length x = 32" "8 \<le> length restC"
    and "length rD = 32" "length kD = 4" "length y = 32" "4 \<le> length restD"
  shows "\<exists>a d keys. (net_round S write ctl dev ^^ 3)
      (controller_start write dev pc (fresh_controller c0 (rC @ kC @ x @ restC)), fresh_device d0 (rD @ kD @ y @ restD)) = (a, d)
    \<and> e_sent (ct_env a) = [] \<and> e_sent (dv_env d) = [] \<and> commissioned (ct_commissioner a) (dv_commissionee d)
    \<and> DeriveSessionKeysFromKe S (cr_Ke (ct_commissioner a)) = Inr keys
    \<and> cr_sessionManager (ct_commissioner a) = InstallSecureSession smC 12345 0 0 keys RoleInitiator
    \<and> ce_sessionManager (dv_commissionee d) = InstallSecureSession smD 23456 0 0 keys RoleResponder"
proof -
  have "length ([] :: bytes) + length salt \<le> 1800" using assms(8) by simp
  note run = pase_run [where ctl = ctl and dev = dev, OF assms(1-7) this assms(9-17) answer_read_plain assms(18), unfolded splice_nothing]
  have three: "(net_round S write ctl dev ^^ 3) s = (net_round S write ctl dev ^^ 2) (net_round S write ctl dev s)" for s
    by (simp add: eval_nat_numeral)
  show ?thesis unfolding three commissioned_def by (rule run) (auto dest: spliced_linked)
qed

section \<open>A run with the small suite\<close>

definition small_x :: bytes where "small_x = replicate 31 0 @ [2]"
definition small_y :: bytes where "small_y = replicate 31 0 @ [1]"
definition small_random :: bytes where "small_random = replicate 32 9"
definition small_device :: commissionee where
  "small_device = projr (NewCommissionee small_suite 2 [1] 1 (Some NewSessionManager))"
definition small_controller :: commissioner where
  "small_controller = projr (NewCommissioner (Some NewSessionManager))"

lemma small_setup:
  "NewCommissionee small_suite 2 [1] 1 (Some NewSessionManager) = Inr small_device"
  "NewCommissioner (Some NewSessionManager) = Inr small_controller"
  "ce_W0 small_device = [2]" "verifier_record small_suite [2] (ce_L small_device)"
  using small_exchange(1) verifier_data_record [OF small_exchange(1) small_derivation]
  by (simp_all add: small_device_def small_controller_def NewCommissionee_def NewCommissioner_def)

lemma small_nondegenerate: "nondegenerate small_suite [2] [2] small_x small_y"
  by code_simp

lemma small_lengths: "length small_x = 32" "length small_y = 32" "length small_random = 32"
  by (simp_all add: small_x_def small_y_def small_random_def)

lemma small_ByteLen: "crv_ByteLen (spake2pCurve small_suite) = 1"
  by code_simp

lemma small_suite_ccm: "ccm_total small_suite" "ccm_lawful small_suite"
  using sum_primitives_total sum_primitives_lawful(1)
  by (simp_all add: ccm_total_def ccm_lawful_def small_suite_def sum_primitives_def)

lemma small_run:
  obtains a d ctx pA pB cA cB ke p1 p2 v2 where "(net_round small_suite (\<lambda>_ _. None) local_addr local_addr ^^ 3)
      (controller_start (\<lambda>_ _. None) local_addr 2 (fresh_controller small_controller (small_random @ [1, 2, 3, 4] @ small_x @ replicate 8 5)),
       fresh_device small_device (small_random @ [0, 0, 0, 0] @ small_y @ replicate 4 5)) = (a, d)"
    "cr_State (ct_commissioner a) = StateComplete" "ce_State (dv_commissionee d) = StateComplete"
    "cr_prover (ct_commissioner a) = Some p2" "ce_verifier (dv_commissionee d) = Some v2"
    "exchange small_suite [2] [2] (ce_L small_device) ctx (small_x @ replicate 8 5) (small_y @ replicate 4 5)
        (replicate 8 5) (replicate 4 5) pA pB cA cB ke p1 p2 v2"
    "pake3_accepted small_suite cA (dv_commissionee d)"
proof -
  have p: "crv_ByteLen (spake2pCurve small_suite) \<le> 950" "\<forall>b a. (\<lambda>_ _. None :: nat option) b a = None" "0 < (1 :: int)" "(1 :: int) < 2 ^ 32"
    "length ([] :: bytes) + length [1 :: byte] \<le> 1800" "length [1, 2, 3, 4 :: byte] = 4" "length [0, 0, 0, 0 :: byte] = 4"
    "8 \<le> length (replicate 8 (5 :: byte))" "4 \<le> length (replicate 4 (5 :: byte))"
    by (simp_all add: small_ByteLen)
  show ?thesis
    by (rule pase_run [where ctl = local_addr and dev = local_addr, OF small_suite_lawful p(1,2) small_setup(2,1) p(3-5) small_derivation
          small_nondegenerate small_lengths(3) p(6) small_lengths(1) p(8) small_lengths(3) p(7) small_lengths(2) answer_read_plain p(9)])
      (rule that, simp_all add: eval_nat_numeral splice_nothing)
qed

section \<open>Properties\<close>

text \<open>
  C1: commissioning completes. A controller and a device that were given the same passcode,
  connected by a network that delivers their datagrams, both reach the completed state within
  three rounds and then fall silent. They hold the same 16 byte key, the same transcript and
  each other's identifiers and random numbers, and each has installed exactly one session, with
  the same keys and opposite roles. The scalars must not be degenerate, the iteration count must
  fit 32 bits, and the salt and the points must leave room in the receive buffer; the random
  source and the sockets do not fail.
\<close>

theorem commissioning_completes:
  assumes "suite_lawful S" "crv_ByteLen (spake2pCurve S) \<le> 950" "\<forall>b a. write b a = None"
    and "NewCommissioner (Some smC) = Inr c0" "NewCommissionee S pc salt iterations (Some smD) = Inr d0"
    and "0 < iterations" "iterations < 2 ^ 32" "length salt \<le> 1800"
    and "Spake2pW0W1FromPasscode S pc salt iterations = Inr (w0, w1)" "nondegenerate S w0 w1 x y"
    and "length rC = 32" "length kC = 4" "length x = 32" "8 \<le> length restC"
    and "length rD = 32" "length kD = 4" "length y = 32" "4 \<le> length restD"
  shows "\<exists>a d keys. (net_round S write ctl dev ^^ 3)
      (controller_start write dev pc (fresh_controller c0 (rC @ kC @ x @ restC)), fresh_device d0 (rD @ kD @ y @ restD)) = (a, d)
    \<and> e_sent (ct_env a) = [] \<and> e_sent (dv_env d) = [] \<and> commissioned (ct_commissioner a) (dv_commissionee d)
    \<and> DeriveSessionKeysFromKe S (cr_Ke (ct_commissioner a)) = Inr keys
    \<and> cr_sessionManager (ct_commissioner a) = InstallSecureSession smC 12345 0 0 keys RoleInitiator
    \<and> ce_sessionManager (dv_commissionee d) = InstallSecureSession smD 23456 0 0 keys RoleResponder"
  by (rule pase_completes [OF assms])

theorem commissioning_completes_witness:
  "\<exists>a d keys. (net_round small_suite (\<lambda>_ _. None) local_addr local_addr ^^ 3)
      (controller_start (\<lambda>_ _. None) local_addr 2 (fresh_controller small_controller (small_random @ [1, 2, 3, 4] @ small_x @ replicate 8 5)),
       fresh_device small_device (small_random @ [0, 0, 0, 0] @ small_y @ replicate 4 5)) = (a, d)
    \<and> e_sent (ct_env a) = [] \<and> e_sent (dv_env d) = [] \<and> commissioned (ct_commissioner a) (dv_commissionee d)
    \<and> DeriveSessionKeysFromKe small_suite (cr_Ke (ct_commissioner a)) = Inr keys
    \<and> cr_sessionManager (ct_commissioner a) = InstallSecureSession NewSessionManager 12345 0 0 keys RoleInitiator
    \<and> ce_sessionManager (dv_commissionee d) = InstallSecureSession NewSessionManager 23456 0 0 keys RoleResponder"
  by (rule commissioning_completes [OF small_suite_lawful _ _ small_setup(2,1) _ _ _ small_derivation small_nondegenerate])
    (simp_all add: small_lengths small_ByteLen)

text \<open>
  C6: a commissioned pair can talk. After such a run, whatever the controller sends through
  its session arrives at the device in order and unchanged, and what the device sends arrives at
  the controller, each message under a nonce of its own.
\<close>

theorem commissioned_peers_communicate:
  assumes "ccm_total S" "ccm_lawful S" "suite_lawful S" "crv_ByteLen (spake2pCurve S) \<le> 950" "\<forall>b a. write b a = None"
    and "NewCommissioner (Some smC) = Inr c0" "NewCommissionee S pc salt iterations (Some smD) = Inr d0"
    and "0 < iterations" "iterations < 2 ^ 32" "length salt \<le> 1800"
    and "Spake2pW0W1FromPasscode S pc salt iterations = Inr (w0, w1)" "nondegenerate S w0 w1 x y"
    and "length rC = 32" "length kC = 4" "length x = 32" "8 \<le> length restC"
    and "length rD = 32" "length kD = 4" "length y = 32" "4 \<le> length restD"
    and "length ps < 2 ^ 32" "\<forall>p\<in>set ps. length p < 2 ^ 16"
  shows "\<exists>a d ms ms'. (net_round S write ctl dev ^^ 3)
      (controller_start write dev pc (fresh_controller c0 (rC @ kC @ x @ restC)), fresh_device d0 (rD @ kD @ y @ restD)) = (a, d)
    \<and> transmit S (cr_sessionManager (ct_commissioner a)) 12345 23456 ps = Inr ms
    \<and> received S (ce_sessionManager (dv_commissionee d)) 23456 ms = ps
    \<and> transmit S (ce_sessionManager (dv_commissionee d)) 23456 12345 ps = Inr ms'
    \<and> received S (cr_sessionManager (ct_commissioner a)) 12345 ms' = ps
    \<and> distinct (map (nonce_of \<circ> header_of \<circ> snd) ms) \<and> distinct (map (nonce_of \<circ> header_of \<circ> snd) ms')"
proof -
  obtain a d keys where r: "(net_round S write ctl dev ^^ 3)
      (controller_start write dev pc (fresh_controller c0 (rC @ kC @ x @ restC)), fresh_device d0 (rD @ kD @ y @ restD)) = (a, d)"
    "commissioned (ct_commissioner a) (dv_commissionee d)" "DeriveSessionKeysFromKe S (cr_Ke (ct_commissioner a)) = Inr keys"
    "cr_sessionManager (ct_commissioner a) = InstallSecureSession smC 12345 0 0 keys RoleInitiator"
    "ce_sessionManager (dv_commissionee d) = InstallSecureSession smD 23456 0 0 keys RoleResponder"
    using pase_completes [OF assms(3-20)] by blast
  have "hkdf_lawful S" "cr_Ke (ct_commissioner a) \<noteq> []" using assms(3) r(2) by (auto simp: suite_lawful_def commissioned_def)
  then have k: "length (I2RKey keys) = 16" "length (R2IKey keys) = 16"
    using DeriveSessionKeys_lengths [of S "cr_Ke (ct_commissioner a)"] r(3) by (metis sum.inject(2))+
  have i: "(12345 :: u16) \<noteq> UnsecuredSessionID" "(23456 :: u16) \<noteq> UnsecuredSessionID" "RoleInitiator \<noteq> RoleResponder"
    by simp_all
  have "\<exists>ms. transmit S (cr_sessionManager (ct_commissioner a)) 12345 23456 ps = Inr ms
      \<and> received S (ce_sessionManager (dv_commissionee d)) 23456 ms = ps \<and> distinct (map (nonce_of \<circ> header_of \<circ> snd) ms)"
    unfolding r(4,5) by (rule mirrored_ends [OF assms(1,2) i k assms(21,22)])
  moreover have "\<exists>ms. transmit S (ce_sessionManager (dv_commissionee d)) 23456 12345 ps = Inr ms
      \<and> received S (cr_sessionManager (ct_commissioner a)) 12345 ms = ps \<and> distinct (map (nonce_of \<circ> header_of \<circ> snd) ms)"
    unfolding r(4,5) by (rule mirrored_ends [OF assms(1,2) i(2,1) i(3) [symmetric] k assms(21,22)])
  ultimately show ?thesis using r(1) by blast
qed

theorem commissioned_peers_communicate_witness:
  "\<exists>a d ms ms'. (net_round small_suite (\<lambda>_ _. None) local_addr local_addr ^^ 3)
      (controller_start (\<lambda>_ _. None) local_addr 2 (fresh_controller small_controller (small_random @ [1, 2, 3, 4] @ small_x @ replicate 8 5)),
       fresh_device small_device (small_random @ [0, 0, 0, 0] @ small_y @ replicate 4 5)) = (a, d)
    \<and> transmit small_suite (cr_sessionManager (ct_commissioner a)) 12345 23456 [[1, 2], []] = Inr ms
    \<and> received small_suite (ce_sessionManager (dv_commissionee d)) 23456 ms = [[1, 2], []]
    \<and> transmit small_suite (ce_sessionManager (dv_commissionee d)) 23456 12345 [[1, 2], []] = Inr ms'
    \<and> received small_suite (cr_sessionManager (ct_commissioner a)) 12345 ms' = [[1, 2], []]
    \<and> distinct (map (nonce_of \<circ> header_of \<circ> snd) ms) \<and> distinct (map (nonce_of \<circ> header_of \<circ> snd) ms')"
  by (rule commissioned_peers_communicate [OF small_suite_ccm small_suite_lawful _ _ small_setup(2,1) _ _ _ small_derivation small_nondegenerate])
    (simp_all add: small_lengths small_ByteLen)

section \<open>A handshake without its first half\<close>

text \<open>
  C37: the device does not insist on the parameter exchange. Fresh from its constructor it
  handles a Pake1 and a Pake3 message of a peer that knows the passcode, with an empty
  transcript in the context, and completes. As no parameter request chose an identifier, the
  session is installed under 0, the identifier of the unsecured session, where it protects
  nothing: payloads of session 0 are passed through in the clear.
\<close>

theorem handshake_without_parameters:
  assumes "suite_lawful S" "NewCommissionee S pc salt iterations (Some sm) = Inr d0"
    and "exchange S (ce_W0 d0) w1 (ce_L d0) (paseContext [] []) rndA rndB restA restB pA pB cA cB ke p1 p2 v2" "4 \<le> length restB"
    and "length pB < 2 ^ 31" "reliable m"
    and "carries OpcodePASEPake1 bs f" "decode_message pake1_type pake1_of bs = Inr \<lparr>pk1_PA = pA\<rparr>"
    and "carries OpcodePASEPake3 bs' f'" "decode_message pake3_type pake3_of bs' = Inr \<lparr>pk3_CA = cA\<rparr>"
  shows "\<exists>d1 e1 d2 keys. Commissionee_HandleMessage S (Some m) f (d0, \<lparr>e_rnd = rndB, e_sent = []\<rparr>) = (Inr (), (d1, e1))
    \<and> Commissionee_HandleMessage S (Some m) f' (d1, e1) = (Inr (), (d2, e1)) \<and> ce_State d2 = StateComplete
    \<and> ce_sessionManager d2 = InstallSecureSession sm UnsecuredSessionID 0 0 keys RoleResponder
    \<and> EncryptPayload S (ce_sessionManager d2) (ce_SessionID d2) payload hb = Inr payload"
proof -
  have d0: "ce_RequestPayload d0 = []" "ce_ResponsePayload d0 = []" "ce_SessionID d0 = 0" "ce_sessionManager d0 = sm"
    using assms(2) by (auto simp: NewCommissionee_def split: sum.splits)
  let ?e = "\<lparr>e_rnd = rndB, e_sent = []\<rparr>"
  obtain v0 v1 where v: "NewSPAKE2PVerifier S (ce_W0 d0) (ce_L d0) (paseContext (ce_RequestPayload d0) (ce_ResponsePayload d0)) = Inr v0"
    "ComputePB S v0 pA (e_rnd ?e) = (Inr pB, v1, restB)" "Verifier_Finalize S v1 = (Inr (), v2)" "ConfirmationB v2 = Inr cB"
    using assms(3) by (auto simp: exchange_def d0)
  have k: "VerifyConfirmationA v2 cA = Inr ()" "Verifier_SharedKey v2 = Inr ke" "length ke = 16" "length cB < 2 ^ 31"
    using assms(3) by (simp_all add: exchange_def)
  obtain keys where keys: "DeriveSessionKeysFromKe S ke = Inr keys"
    by (rule DeriveSessionKeys_lengths [of S ke]) (use assms(1) k(3) in \<open>auto simp: suite_lawful_def\<close>)
  obtain g n bg where h: "Commissionee_HandleMessage S (Some m) f (d0, ?e)
      = (Inr (), (d0\<lparr>ce_verifier := Some v2, ce_MessageCounter := n, ce_State := StatePASE_Pake3\<rparr>,
          \<lparr>e_rnd = snd (next_counter (ce_MessageCounter d0) restB), e_sent = e_sent ?e @ [g]\<rparr>))"
    by (rule handlePake1_ok [OF assms(6-8) v(1,2) assms(4) v(3,4) assms(5) k(4)])
  let ?d1 = "d0\<lparr>ce_verifier := Some v2, ce_MessageCounter := n, ce_State := StatePASE_Pake3\<rparr>"
  have ver: "ce_verifier ?d1 = Some v2" by simp
  show ?thesis
    using h handlePake3_ok [OF ver assms(9,10) k(1,2) keys] d0(3,4) by (simp add: EncryptPayload_def) blast
qed

theorem handshake_without_parameters_witness:
  "\<exists>f f' d1 e1 d2 keys.
      Commissionee_HandleMessage small_suite (Some (\<lambda>_. None)) f (small_device, \<lparr>e_rnd = small_y @ replicate 4 5, e_sent = []\<rparr>) = (Inr (), (d1, e1))
    \<and> Commissionee_HandleMessage small_suite (Some (\<lambda>_. None)) f' (d1, e1) = (Inr (), (d2, e1)) \<and> ce_State d2 = StateComplete
    \<and> ce_sessionManager d2 = InstallSecureSession NewSessionManager UnsecuredSessionID 0 0 keys RoleResponder
    \<and> EncryptPayload small_suite (ce_sessionManager d2) (ce_SessionID d2) [1, 2, 3] [] = Inr [1, 2, 3]"
proof -
  obtain pA pB cA cB ke p1 p2 v2 where ex: "exchange small_suite [2] [2] (ce_L small_device) (paseContext [] [])
      (small_x @ []) (small_y @ replicate 4 5) [] (replicate 4 5) pA pB cA cB ke p1 p2 v2"
    by (rule spake_run [OF small_suite_lawful small_setup(4) small_nondegenerate small_lengths(1,2)])
  then have l: "length pB < 2 ^ 31" "length (pk1_PA \<lparr>pk1_PA = pA\<rparr>) < 2 ^ 31" "length (pk3_CA \<lparr>pk3_CA = cA\<rparr>) < 2 ^ 31"
    by (simp_all add: exchange_def small_ByteLen)
  obtain bs where bs: "tlv_Marshal (VPtr pake1_type (Some (pake1_val \<lparr>pk1_PA = pA\<rparr>))) = Inr bs"
    "decode_message pake1_type pake1_of bs = Inr \<lparr>pk1_PA = pA\<rparr>" by (rule pk1.message_round_trip [OF l(2)])
  obtain bs' where bs': "tlv_Marshal (VPtr pake3_type (Some (pake3_val \<lparr>pk3_CA = cA\<rparr>))) = Inr bs'"
    "decode_message pake3_type pake3_of bs' = Inr \<lparr>pk3_CA = cA\<rparr>" by (rule pk3.message_round_trip [OF l(3)])
  have op: "OpcodePASEPake1 \<noteq> 0" "OpcodePASEPake3 \<noteq> 0" by simp_all
  obtain f where f1: "carries OpcodePASEPake1 bs f" by (rule pase_frame_builds [OF bs(1) op(1)])
  obtain f' where f2: "carries OpcodePASEPake3 bs' f'" by (rule pase_frame_builds [OF bs'(1) op(2)])
  have r: "reliable (\<lambda>_. None)" "4 \<le> length (replicate 4 (5 :: byte))" by (simp_all add: reliable_def)
  from handshake_without_parameters [OF small_suite_lawful small_setup(1) ex [folded small_setup(3)] r(2) l(1) r(1) f1 bs(2) f2 bs'(2)]
  show ?thesis by blast
qed

end
