(* ===== verification/Pase_Invariant.thy ===== *)
theory Pase_Invariant
  imports Pase_Run
begin

text \<open>
  What holds of a device and of a controller in every state they can reach, whatever frames
  arrive in whatever order, whatever the messenger answers and whenever the random source runs
  dry. One step is one call from outside; the invariants are kept by every action that a
  handler is composed of. The receive loops of the sample programs take only such steps.
\<close>

section \<open>Steps\<close>

inductive device_step :: "'x suite_scheme \<Rightarrow> commissionee \<Rightarrow> commissionee \<Rightarrow> bool" for S where
  message: "Commissionee_HandleMessage S Ms f (c, e) = (r, (c', e')) \<Longrightarrow> device_step S c c'"

text \<open>The controller is started with passcodes from \<open>Q\<close>.\<close>

inductive controller_step :: "'x suite_scheme \<Rightarrow> u32 set \<Rightarrow> commissioner \<Rightarrow> commissioner \<Rightarrow> bool" for S Q where
  start: "pc \<in> Q \<Longrightarrow> StartPASE Ms pc (c, e) = (r, (c', e')) \<Longrightarrow> controller_step S Q c c'"
| message: "Commissioner_HandleMessage S Ms f (c, e) = (r, (c', e')) \<Longrightarrow> controller_step S Q c c'"
| start_case: "StartCASE nid (c, e) = (r, (c', e')) \<Longrightarrow> controller_step S Q c c'"

inductive_cases device_stepE: "device_step S c c'"
inductive_cases controller_stepE: "controller_step S Q c c'"

section \<open>Actions that keep a property of the party\<close>

definition preserves :: "('p \<Rightarrow> bool) \<Rightarrow> ('p \<times> env, 'a) act \<Rightarrow> bool" where
  "preserves P m \<longleftrightarrow> (\<forall>s. P (fst s) \<longrightarrow> P (fst (snd (m s))))"

lemma preservesD: "preserves P m \<Longrightarrow> m (c, e) = (r, (c', e')) \<Longrightarrow> P c \<Longrightarrow> P c'"
  unfolding preserves_def by (metis fst_conv snd_conv)

lemma preservesI: "(\<And>c e. P c \<Longrightarrow> P (fst (snd (m (c, e))))) \<Longrightarrow> preserves P m"
  by (auto simp: preserves_def)

lemma keeps_preserves: "keeps (\<lambda>p. p) m \<Longrightarrow> preserves P m"
  by (simp add: keeps_def preserves_def)

lemma preserves_bnd [intro!]: "preserves P m \<Longrightarrow> (\<And>x. preserves P (f x)) \<Longrightarrow> preserves P (bnd m f)"
  by (auto simp: preserves_def bnd_def split: prod.splits sum.splits) (metis fst_conv snd_conv)+

lemma preserves_try: "(\<And>x. y = Inr x \<Longrightarrow> preserves P (f x)) \<Longrightarrow> preserves P (bnd (try_or h y) f)"
  by (cases y) (auto simp: preserves_def act_defs)

lemma preserves_basic [intro!]:
  "preserves P (ok x)" "preserves P (err e)" "preserves P (ask f)" "preserves P (rand_Read n)" "preserves P (rand_check r)"
  "preserves P (comm_send Ms fr)" "preserves P (with_rnd h)" "preserves P (try_or k y)" "preserves P (bumpCounter ctr)"
  by (rule keeps_preserves, rule keeps_basic keeps_bump)+

lemma preserves_upd: "(\<And>p. P p \<Longrightarrow> P (h p)) \<Longrightarrow> preserves P (upd h)"
  by (auto simp: preserves_def upd_def)

lemma preserves_split [intro!]:
  "(\<And>x y. z = (x, y) \<Longrightarrow> preserves P (f x y)) \<Longrightarrow> preserves P (case z of (x, y) \<Rightarrow> f x y)"
  "preserves P a \<Longrightarrow> (\<And>x. preserves P (b x)) \<Longrightarrow> preserves P (case w of None \<Rightarrow> a | Some x \<Rightarrow> b x)"
  "preserves P a \<Longrightarrow> preserves P b' \<Longrightarrow> preserves P (if c then a else b')"
  by (auto split: prod.splits option.splits)

section \<open>The device\<close>

definition device_inv :: "'x suite_scheme \<Rightarrow> commissionee \<Rightarrow> bool" where
  "device_inv S c \<longleftrightarrow>
     (\<forall>v. ce_verifier c = Some v \<longrightarrow> v_finalized v \<and> length (v_ke v) = 16)
     \<and> (ce_State c = StateComplete \<longrightarrow> (\<exists>i keys. DeriveSessionKeysFromKe S (ce_Ke c) = Inr keys
          \<and> ce_sessionManager c i = Some (new_session i 0 0 keys RoleResponder)))"

lemma device_inv_build [intro!]: "preserves (device_inv S) (ce_buildFrame op ack v)"
  unfolding ce_buildFrame_def by (auto intro!: preserves_upd simp: device_inv_def)

lemma device_inv_request: "preserves (device_inv S) (handlePBKDFParamRequest Ms f)"
  unfolding handlePBKDFParamRequest_def by (auto intro!: preserves_upd simp: device_inv_def)

lemma Verifier_Finalize_settles:
  assumes "suite_lawful S" "Verifier_Finalize S v = (Inr (), v')"
  shows "v_finalized v' \<and> length (v_ke v') = 16"
proof -
  obtain z w where zw: "v_zV v = Some z" "v_vV v = Some w" "\<not> v_finalized v"
    using assms(2) by (auto simp: Verifier_Finalize_def split: if_splits option.splits)
  obtain ke cA cB where "spakeFinalize S (v_context v) (v_pA v) (v_pB v) z w (v_w0 v) = Inr (ke, cA, cB)" "length ke = 16"
    by (rule spakeFinalize_ok [OF assms(1)])
  then show ?thesis using assms(2) zw by (auto simp: Verifier_Finalize_def)
qed

lemma device_inv_pake1:
  assumes "suite_lawful S"
  shows "preserves (device_inv S) (handlePake1 S Ms f)"
  unfolding handlePake1_def
  by (auto intro!: preserves_upd preserves_try simp: device_inv_def dest: Verifier_Finalize_settles [OF assms])

lemma keys_of_16_bytes:
  assumes "suite_lawful S" "length ke = 16"
  obtains keys where "DeriveSessionKeysFromKe S ke = Inr keys"
  by (rule DeriveSessionKeys_lengths [of S ke]) (use assms in \<open>auto simp: suite_lawful_def\<close>)

lemma device_inv_pake3:
  assumes "suite_lawful S"
  shows "preserves (device_inv S) (handlePake3 S f)"
proof (rule preservesI)
  fix c e
  assume inv: "device_inv S c"
  show "device_inv S (fst (snd (handlePake3 S f (c, e))))"
  proof (cases "ce_verifier c")
    case None
    then show ?thesis using inv by (simp add: handlePake3_def act_simps)
  next
    case (Some v)
    then have v: "v_finalized v" "length (v_ke v) = 16" using inv by (auto simp: device_inv_def)
    obtain keys where k: "DeriveSessionKeysFromKe S (v_ke v) = Inr keys" by (rule keys_of_16_bytes [OF assms v(2)])
    show ?thesis
      by (cases "decode_message pake3_type pake3_of (f_Payload f)")
        (use inv Some v k in \<open>auto simp: handlePake3_def act_simps VerifyConfirmationA_def Verifier_SharedKey_def
          installPASESession_def device_inv_def InstallSecureSession_def\<close>)
  qed
qed

lemma device_inv_message: "suite_lawful S \<Longrightarrow> preserves (device_inv S) (Commissionee_HandleMessage S Ms f)"
  unfolding Commissionee_HandleMessage_def Let_def
  by (auto intro: device_inv_request device_inv_pake1 device_inv_pake3)

section \<open>The controller\<close>

definition controller_inv :: "'x suite_scheme \<Rightarrow> commissioner \<Rightarrow> bool" where
  "controller_inv S c \<longleftrightarrow>
     (cr_State c = StateComplete \<longrightarrow> length (cr_Ke c) = 16 \<and> (\<exists>i keys. DeriveSessionKeysFromKe S (cr_Ke c) = Inr keys
          \<and> cr_sessionManager c i = Some (new_session i 0 0 keys RoleInitiator)))"

lemma controller_inv_build [intro!]: "preserves (controller_inv S) (cr_buildFrame op ack v)"
  unfolding cr_buildFrame_def by (auto intro!: preserves_upd simp: controller_inv_def)

lemma controller_inv_start: "preserves (controller_inv S) (StartPASE Ms pc)"
  unfolding StartPASE_def by (auto intro!: preserves_upd simp: controller_inv_def)

lemma controller_inv_pake1 [intro!]: "preserves (controller_inv S) (sendPake1 S Ms ack)"
  unfolding sendPake1_def by (auto intro!: preserves_upd simp: controller_inv_def)

lemma controller_inv_response: "preserves (controller_inv S) (handlePBKDFParamResponse S Ms f)"
  unfolding handlePBKDFParamResponse_def by (auto intro!: preserves_upd simp: controller_inv_def)

lemma spakeFinalize_length:
  assumes "suite_lawful S" "spakeFinalize S ctx pA pB z v w0 = Inr (ke, cA, cB)"
  shows "length ke = 16"
  by (rule spakeFinalize_ok [OF assms(1), of ctx pA pB z v w0]) (use assms(2) in simp)

lemma Prover_Finalize_settles:
  assumes "suite_lawful S" "Prover_Finalize S p b = (Inr (), p')"
  shows "p_finalized p' \<and> length (p_ke p') = 16"
proof -
  obtain x q where "\<not> p_finalized p" "p_x p = Some x" "unmarshalP256Point S b = Inr q"
    using assms(2) by (auto simp: Prover_Finalize_def split: if_splits option.splits sum.splits)
  note eq = Prover_Finalize_eq [OF assms(1) this]
  show ?thesis using assms(2) unfolding eq
    by (auto split: sum.splits dest: spakeFinalize_length [OF assms(1)])
qed

lemma controller_inv_pake2:
  assumes "suite_lawful S"
  shows "preserves (controller_inv S) (handlePake2 S Ms f)"
proof (rule preservesI)
  fix c e
  assume inv: "controller_inv S c"
  then have inv': "controller_inv S (c\<lparr>cr_prover := p\<rparr>)" for p by (simp add: controller_inv_def)
  show "controller_inv S (fst (snd (handlePake2 S Ms f (c, e))))"
  proof (cases "\<exists>p p2 p'. cr_prover c = Some p \<and> decode_message pake2_type pake2_of (f_Payload f) = Inr p2
      \<and> Prover_Finalize S p (pk2_PB p2) = (Inr (), p') \<and> pk2_CB p2 = p_cB p'")
    case True
    then obtain p p2 p' where p: "cr_prover c = Some p" "decode_message pake2_type pake2_of (f_Payload f) = Inr p2"
      "Prover_Finalize S p (pk2_PB p2) = (Inr (), p')" "pk2_CB p2 = p_cB p'" by blast
    have fin: "p_finalized p'" "length (p_ke p') = 16" using Prover_Finalize_settles [OF assms p(3)] by simp_all
    obtain keys where k: "DeriveSessionKeysFromKe S (p_ke p') = Inr keys" by (rule keys_of_16_bytes [OF assms fin(2)])
    let ?c = "c\<lparr>cr_prover := Some p', cr_Ke := p_ke p',
      cr_sessionManager := InstallSecureSession (cr_sessionManager c) (cr_SessionID c) 0 0 keys RoleInitiator\<rparr>"
    let ?P = "\<lambda>c. length (cr_Ke c) = 16 \<and> DeriveSessionKeysFromKe S (cr_Ke c) = Inr keys
      \<and> (\<exists>i. cr_sessionManager c i = Some (new_session i 0 0 keys RoleInitiator))"
    have "preserves ?P (pake2_reply Ms f (p_cA p'))"
      unfolding pake2_reply_def cr_buildFrame_def by (auto intro!: preserves_upd)
    moreover have "?P ?c" using k fin by (auto simp: InstallSecureSession_def)
    ultimately have "?P (fst (snd (handlePake2 S Ms f (c, e))))"
      unfolding handlePake2_accept [OF p(1-3) fin(1) p(4) k] preserves_def by (metis fst_conv)
    then show ?thesis by (auto simp: controller_inv_def)
  next
    case False
    show ?thesis
    proof (cases "\<exists>p p2. cr_prover c = Some p \<and> decode_message pake2_type pake2_of (f_Payload f) = Inr p2")
      case True
      then obtain p p2 where p: "cr_prover c = Some p" "decode_message pake2_type pake2_of (f_Payload f) = Inr p2" by blast
      obtain r p' where r: "Prover_Finalize S p (pk2_PB p2) = (r, p')" by force
      with False p have "r = Inr () \<Longrightarrow> pk2_CB p2 \<noteq> p_cB p'" by auto
      then show ?thesis using p r inv' [of "Some p'"]
        by (cases r) (auto simp: handlePake2_def act_simps VerifyConfirmationB_def)
    next
      case False
      then show ?thesis using inv
        by (cases "cr_prover c"; cases "decode_message pake2_type pake2_of (f_Payload f)") (auto simp: handlePake2_def act_simps)
    qed
  qed
qed

lemma controller_inv_message: "suite_lawful S \<Longrightarrow> preserves (controller_inv S) (Commissioner_HandleMessage S Ms f)"
  unfolding Commissioner_HandleMessage_def Let_def
  by (auto intro: controller_inv_response controller_inv_pake2)

lemma controller_inv_case: "preserves (controller_inv S) (StartCASE nid)"
  unfolding StartCASE_def by (rule preserves_upd) (simp add: controller_inv_def)

lemma device_step_inv: "device_step S c c' \<Longrightarrow> suite_lawful S \<Longrightarrow> device_inv S c \<Longrightarrow> device_inv S c'"
  by (elim device_stepE) (rule preservesD [OF device_inv_message])

lemma controller_step_inv: "controller_step S Q c c' \<Longrightarrow> suite_lawful S \<Longrightarrow> controller_inv S c \<Longrightarrow> controller_inv S c'"
  by (elim controller_stepE)
    (rule preservesD [OF controller_inv_start] preservesD [OF controller_inv_message] preservesD [OF controller_inv_case]; assumption)+

lemma reachable_device_inv:
  assumes "suite_lawful S" "(device_step S)\<^sup>*\<^sup>* c c'" "device_inv S c"
  shows "device_inv S c'"
  using assms(2,3) by (induction rule: rtranclp_induct) (auto intro: device_step_inv assms(1))

lemma reachable_controller_inv:
  assumes "suite_lawful S" "(controller_step S Q)\<^sup>*\<^sup>* c c'" "controller_inv S c"
  shows "controller_inv S c'"
  using assms(2,3) by (induction rule: rtranclp_induct) (auto intro: controller_step_inv assms(1))

section \<open>The sample programs take only these steps\<close>

lemma fold_steps:
  assumes "\<And>x s. R\<^sup>*\<^sup>* (state s) (state (h x s))"
  shows "R\<^sup>*\<^sup>* (state s) (state (fold h xs s))"
  by (induction xs arbitrary: s) (auto intro: rtranclp_trans [OF assms])

lemma device_loop_steps:
  "(device_step S)\<^sup>*\<^sup>* (dv_commissionee d) (dv_commissionee (snd (tm_Start (Some (device_handler S write)) rs d)))"
  unfolding tm_Start_fold snd_conv
proof (rule fold_steps, clarify)
  fix f "from" d
  show "(device_step S)\<^sup>*\<^sup>* (dv_commissionee d) (dv_commissionee (device_handler S write f from d))"
    by (cases "Commissionee_HandleMessage S (Some (device_SendMessage write (Some from))) f (dv_commissionee d, dv_env d)")
      (auto simp: device_handler_parts intro!: r_into_rtranclp device_step.message)
qed

lemma controller_loop_steps:
  "(controller_step S Q)\<^sup>*\<^sup>* (ct_commissioner a) (ct_commissioner (snd (tm_Start (Some (controller_handler S write dev)) rs a)))"
  unfolding tm_Start_fold snd_conv
proof (rule fold_steps, clarify)
  fix f "from" a
  show "(controller_step S Q)\<^sup>*\<^sup>* (ct_commissioner a) (ct_commissioner (controller_handler S write dev f from a))"
    by (cases "Commissioner_HandleMessage S (Some (controller_SendMessage write dev)) f (ct_commissioner a, ct_env a)")
      (auto simp: controller_handler_parts intro!: r_into_rtranclp controller_step.message)
qed

lemma controller_start_step: "pc \<in> Q \<Longrightarrow> controller_step S Q (ct_commissioner a) (ct_commissioner (controller_start write dev pc a))"
  by (cases "StartPASE (Some (controller_SendMessage write dev)) pc (ct_commissioner a, ct_env a)")
    (auto simp: controller_start_def intro: controller_step.start)

lemma round_steps:
  assumes "net_round S write ctl dev (a, d) = (a', d')"
  shows "(controller_step S Q)\<^sup>*\<^sup>* (ct_commissioner a) (ct_commissioner a')" "(device_step S)\<^sup>*\<^sup>* (dv_commissionee d) (dv_commissionee d')"
proof -
  let ?a = "a\<lparr>ct_env := (ct_env a)\<lparr>e_sent := []\<rparr>\<rparr>"
  show "(controller_step S Q)\<^sup>*\<^sup>* (ct_commissioner a) (ct_commissioner a')"
    using assms controller_loop_steps [of S Q ?a] by (auto simp: net_round_def altered_round_def Let_def)
  show "(device_step S)\<^sup>*\<^sup>* (dv_commissionee d) (dv_commissionee d')"
    using assms device_loop_steps [of S d] by (auto simp: net_round_def altered_round_def Let_def)
qed

lemma rounds_steps:
  "(net_round S write ctl dev ^^ n) (a, d) = (a', d') \<Longrightarrow>
     (controller_step S Q)\<^sup>*\<^sup>* (ct_commissioner a) (ct_commissioner a') \<and> (device_step S)\<^sup>*\<^sup>* (dv_commissionee d) (dv_commissionee d')"
proof (induction n arbitrary: a' d')
  case (Suc n)
  obtain b c where "(net_round S write ctl dev ^^ n) (a, d) = (b, c)" by force
  with Suc show ?case using round_steps [of S "write" ctl dev b c a' d'] by (auto intro: rtranclp_trans)
qed simp

lemma reachable_parties:
  assumes "suite_lawful S" "NewCommissionee S pc salt iterations (Some smD) = Inr d0" "NewCommissioner (Some smC) = Inr c0"
    and "(device_step S)\<^sup>*\<^sup>* d0 d" "(controller_step S Q)\<^sup>*\<^sup>* c0 c"
  shows "device_inv S d \<and> controller_inv S c"
proof
  have "ce_State d0 = StateIdle" "ce_verifier d0 = None" "cr_State c0 = StateIdle"
    using assms(2,3) by (auto simp: NewCommissionee_def NewCommissioner_def split: sum.splits)
  then have "device_inv S d0" "controller_inv S c0" by (simp_all add: device_inv_def controller_inv_def)
  then show "device_inv S d" "controller_inv S c"
    using reachable_device_inv [OF assms(1,4)] reachable_controller_inv [OF assms(1,5)] by simp_all
qed

section \<open>Properties\<close>

text \<open>
  C13: a completed party has its session. Whatever frames a fresh device or controller handles,
  in whatever order, with failing messengers and failing random sources in between: when it
  says that it is complete, its table holds a session in its role whose keys are derived from
  the key it reports. A device that stores a verifier stores a finished one, so a Pake3 message is
  never judged by a half-made exchange.
\<close>

theorem completed_parties_have_a_session:
  assumes "suite_lawful S" "NewCommissionee S pc salt iterations (Some smD) = Inr d0" "NewCommissioner (Some smC) = Inr c0"
    and "(device_step S)\<^sup>*\<^sup>* d0 d" "(controller_step S Q)\<^sup>*\<^sup>* c0 c"
  shows "device_inv S d \<and> controller_inv S c"
  by (rule reachable_parties [OF assms])

theorem completed_parties_have_a_session_witness:
  "\<exists>a d. (net_round small_suite (\<lambda>_ _. None) local_addr local_addr ^^ 3)
      (controller_start (\<lambda>_ _. None) local_addr 2 (fresh_controller small_controller (small_random @ [1, 2, 3, 4] @ small_x @ replicate 8 5)),
       fresh_device small_device (small_random @ [0, 0, 0, 0] @ small_y @ replicate 4 5)) = (a, d)
    \<and> ce_State (dv_commissionee d) = StateComplete \<and> cr_State (ct_commissioner a) = StateComplete
    \<and> device_inv small_suite (dv_commissionee d) \<and> controller_inv small_suite (ct_commissioner a)"
proof -
  let ?c = "fresh_controller small_controller (small_random @ [1, 2, 3, 4] @ small_x @ replicate 8 5)"
  let ?d = "fresh_device small_device (small_random @ [0, 0, 0, 0] @ small_y @ replicate 4 5)"
  obtain a d where r: "(net_round small_suite (\<lambda>_ _. None) local_addr local_addr ^^ 3)
      (controller_start (\<lambda>_ _. None) local_addr 2 ?c, ?d) = (a, d)"
    "cr_State (ct_commissioner a) = StateComplete" "ce_State (dv_commissionee d) = StateComplete"
    by (rule small_run)
  have "(controller_step small_suite {2})\<^sup>*\<^sup>* (ct_commissioner ?c) (ct_commissioner a)"
    by (rule converse_rtranclp_into_rtranclp [OF controller_start_step [OF singletonI] conjunct1 [OF rounds_steps [OF r(1)]]])
  moreover have "(device_step small_suite)\<^sup>*\<^sup>* (dv_commissionee ?d) (dv_commissionee d)"
    by (rule conjunct2 [OF rounds_steps [OF r(1)]])
  ultimately have s: "(controller_step small_suite {2})\<^sup>*\<^sup>* small_controller (ct_commissioner a)"
    "(device_step small_suite)\<^sup>*\<^sup>* small_device (dv_commissionee d)"
    by (simp_all add: fresh_controller_def fresh_device_def)
  show ?thesis
    using r completed_parties_have_a_session [OF small_suite_lawful small_setup(1,2) s(2,1)] by blast
qed

end
