(* ===== verification/Spake_Agreement.thy ===== *)
theory Spake_Agreement
  imports Spake2plus
begin

text \<open>
  What an accepted confirmation proves. The confirmations are MACs under keys derived from the
  transcript, so accepting one means that both sides hashed the same transcript, and the
  transcript determines what went into it. That different inputs give different values is what
  the primitives are trusted for; it is assumed of the inputs of the two runs at hand only.
\<close>

section \<open>Transcripts and confirmations\<close>

definition confirm_keys :: "'x suite_scheme \<Rightarrow> bytes \<Rightarrow> bytes" where
  "confirm_keys S tt = projr (spakeHkdfSha256 S (take 16 (spakeSha256Sum S tt)) [] (str_bytes ''ConfirmationKeys'') 32)"

definition confirm_A :: "'x suite_scheme \<Rightarrow> bytes \<Rightarrow> bytes \<Rightarrow> bytes" where
  "confirm_A S tt pB = spakeHmacSha256 S (take 16 (confirm_keys S tt)) pB"

definition confirm_B :: "'x suite_scheme \<Rightarrow> bytes \<Rightarrow> bytes \<Rightarrow> bytes" where
  "confirm_B S tt pA = spakeHmacSha256 S (drop 16 (confirm_keys S tt)) pA"

definition shared_key :: "'x suite_scheme \<Rightarrow> bytes \<Rightarrow> bytes" where
  "shared_key S tt = take 16 (drop 16 (spakeSha256Sum S tt))"

lemma spakeFinalize_parts:
  assumes "spakeFinalize S ctx pA pB z v w0 = Inr (ke, cA, cB)"
  defines "tt \<equiv> spakeBuildTT S (spakeSha256Sum S ctx) pA pB z v w0"
  shows "ke = shared_key S tt" "cA = confirm_A S tt pB" "cB = confirm_B S tt pA"
  using assms(1)
  by (auto simp: spakeFinalize_def Let_def tt_def shared_key_def confirm_A_def confirm_B_def confirm_keys_def
      split: sum.splits)

text \<open>The transcript of a finished prover and of a finished verifier, from what they store.\<close>

definition prover_transcript :: "'x suite_scheme \<Rightarrow> prover \<Rightarrow> bytes" where
  "prover_transcript S p =
     (let C = spake2pCurve S; d = unshare C (spakeN S) (p_w0 p) (projr (unmarshalP256Point S (p_pB p))) in
      spakeBuildTT S (spakeSha256Sum S (p_context p)) (p_pA p) (p_pB p) (point_bytes C (ec_mult C (the (p_x p)) d))
        (point_bytes C (smult C (p_w1 p) d)) (p_w0 p))"

definition verifier_transcript :: "'x suite_scheme \<Rightarrow> verifier \<Rightarrow> bytes" where
  "verifier_transcript S v =
     spakeBuildTT S (spakeSha256Sum S (v_context v)) (v_pA v) (v_pB v) (the (v_zV v)) (the (v_vV v)) (v_w0 v)"

lemma finished_prover:
  assumes "suite_lawful S" "Prover_Finalize S p b = (Inr (), p')"
  shows "p_finalized p'" "p_ke p' = shared_key S (prover_transcript S p')"
    "p_cA p' = confirm_A S (prover_transcript S p') (p_pB p')" "p_cB p' = confirm_B S (prover_transcript S p') (p_pA p')"
proof -
  obtain x q where x: "\<not> p_finalized p" "p_x p = Some x" "unmarshalP256Point S b = Inr q"
    using assms(2) by (auto simp: Prover_Finalize_def split: if_splits option.splits sum.splits)
  let ?C = "spake2pCurve S" let ?d = "unshare ?C (spakeN S) (p_w0 p) q"
  obtain ke cA cB where f: "spakeFinalize S (p_context p) (p_pA p) b (point_bytes ?C (ec_mult ?C x ?d))
      (point_bytes ?C (smult ?C (p_w1 p) ?d)) (p_w0 p) = Inr (ke, cA, cB)"
    by (rule spakeFinalize_ok [OF assms(1)])
  then have p': "p' = p\<lparr>p_pB := b, p_ke := ke, p_cA := cA, p_cB := cB, p_finalized := True\<rparr>"
    using Prover_Finalize_eq [OF assms(1) x] assms(2) by simp
  then have "prover_transcript S p' = spakeBuildTT S (spakeSha256Sum S (p_context p)) (p_pA p) b
      (point_bytes ?C (ec_mult ?C x ?d)) (point_bytes ?C (smult ?C (p_w1 p) ?d)) (p_w0 p)"
    using x by (simp add: prover_transcript_def Let_def)
  then show "p_finalized p'" "p_ke p' = shared_key S (prover_transcript S p')"
    "p_cA p' = confirm_A S (prover_transcript S p') (p_pB p')" "p_cB p' = confirm_B S (prover_transcript S p') (p_pA p')"
    using spakeFinalize_parts [OF f] by (simp_all add: p')
qed

lemma finished_verifier:
  assumes "Verifier_Finalize S v = (Inr (), v')"
  shows "v_finalized v'" "v_ke v' = shared_key S (verifier_transcript S v')"
    "v_cA v' = confirm_A S (verifier_transcript S v') (v_pB v')" "v_cB v' = confirm_B S (verifier_transcript S v') (v_pA v')"
  using assms
  by (auto simp: Verifier_Finalize_def verifier_transcript_def split: if_splits option.splits sum.splits
      dest: spakeFinalize_parts)

section \<open>Agreement\<close>

text \<open>No slice of a Go program has \<open>2 ^ 63\<close> bytes or more.\<close>

definition go_slices :: "bytes list \<Rightarrow> bool" where
  "go_slices bs \<longleftrightarrow> (\<forall>b\<in>set bs. length b < 2 ^ 63)"

lemma length_point_bytes_le: "length (point_bytes C p) \<le> 1 + 2 * crv_ByteLen C"
  by (simp add: point_bytes_def elliptic_Marshal_def)

text \<open>The two runs at hand do not collide, neither in the MACs nor in the hash of the context.\<close>

definition collision_free :: "'x suite_scheme \<Rightarrow> prover \<Rightarrow> verifier \<Rightarrow> bool" where
  "collision_free S p v \<longleftrightarrow>
     inj_on (\<lambda>(tt, m). confirm_A S tt m) {(prover_transcript S p, p_pB p), (verifier_transcript S v, v_pB v)}
     \<and> inj_on (\<lambda>(tt, m). confirm_B S tt m) {(prover_transcript S p, p_pA p), (verifier_transcript S v, v_pA v)}
     \<and> inj_on (sha256 S) {p_context p, v_context v}"

lemma inj_pair: "inj_on (\<lambda>(t, m). f t m) {(a, x), (b, y)} \<Longrightarrow> f a x = f b y \<Longrightarrow> a = b"
  by (drule inj_onD [of _ _ "(a, x)" "(b, y)"]) auto

lemma collision_freeD:
  assumes "collision_free S p v"
  shows "confirm_A S (prover_transcript S p) (p_pB p) = confirm_A S (verifier_transcript S v) (v_pB v) \<Longrightarrow>
      prover_transcript S p = verifier_transcript S v"
    and "confirm_B S (prover_transcript S p) (p_pA p) = confirm_B S (verifier_transcript S v) (v_pA v) \<Longrightarrow>
      prover_transcript S p = verifier_transcript S v"
    and "sha256 S (p_context p) = sha256 S (v_context v) \<Longrightarrow> p_context p = v_context v"
proof -
  have c: "inj_on (\<lambda>(tt, m). confirm_A S tt m) {(prover_transcript S p, p_pB p), (verifier_transcript S v, v_pB v)}"
    "inj_on (\<lambda>(tt, m). confirm_B S tt m) {(prover_transcript S p, p_pA p), (verifier_transcript S v, v_pA v)}"
    "inj_on (sha256 S) {p_context p, v_context v}"
    using assms by (simp_all only: collision_free_def simp_thms)
  show "confirm_A S (prover_transcript S p) (p_pB p) = confirm_A S (verifier_transcript S v) (v_pB v) \<Longrightarrow>
      prover_transcript S p = verifier_transcript S v" by (rule inj_pair [OF c(1)])
  show "confirm_B S (prover_transcript S p) (p_pA p) = confirm_B S (verifier_transcript S v) (v_pA v) \<Longrightarrow>
      prover_transcript S p = verifier_transcript S v" by (rule inj_pair [OF c(2)])
  show "sha256 S (p_context p) = sha256 S (v_context v) \<Longrightarrow> p_context p = v_context v"
    by (rule inj_onD [OF c(3)]) simp_all
qed

lemma transcripts_agree:
  assumes "suite_lawful S" "crv_ByteLen (spake2pCurve S) < 2 ^ 60" "collision_free S p v"
    and "go_slices [p_pA p, p_pB p, p_w0 p, v_pA v, v_pB v, v_w0 v, the (v_zV v), the (v_vV v)]"
    and eq: "prover_transcript S p = verifier_transcript S v"
  shows "p_context p = v_context v \<and> p_pA p = v_pA v \<and> p_pB p = v_pB v \<and> p_w0 p = v_w0 v"
proof -
  have pb: "length (point_bytes (spake2pCurve S) q) < 2 ^ 64" for q
    using length_point_bytes_le [of "spake2pCurve S" q] assms(2) by simp
  have h: "length (spakeSha256Sum S b) < 2 ^ 64" for b
    using assms(1) by (simp add: spakeSha256Sum_def suite_lawful_def hash_lawful_def)
  obtain z w where zw: "prover_transcript S p = spakeBuildTT S (spakeSha256Sum S (p_context p)) (p_pA p) (p_pB p) z w (p_w0 p)"
    "length z < 2 ^ 64" "length w < 2 ^ 64"
    using pb by (fastforce simp: prover_transcript_def Let_def)
  have len: "\<forall>b \<in> {spakeSha256Sum S (p_context p), p_pA p, p_pB p, z, w, p_w0 p,
      spakeSha256Sum S (v_context v), v_pA v, v_pB v, the (v_zV v), the (v_vV v), v_w0 v}. length b < 2 ^ 64"
    using assms(4) zw(2,3) h by (auto simp: go_slices_def)
  have "spakeSha256Sum S (p_context p) = spakeSha256Sum S (v_context v) \<and> p_pA p = v_pA v \<and> p_pB p = v_pB v \<and> p_w0 p = v_w0 v"
    using iffD1 [OF transcript_inj [OF len pb pb] eq [unfolded zw(1) verifier_transcript_def]]
    by (simp only: prod.inject simp_thms)
  then show ?thesis using collision_freeD(3) [OF assms(3)] by (simp only: spakeSha256Sum_def simp_thms)
qed

text \<open>
  When a finished prover accepts the confirmation of a finished verifier, or the verifier that of
  the prover, and the two runs do not collide, then both used the same context, shares and first
  password scalar, and they hold the same key.
\<close>

lemma confirmation_means_agreement:
  assumes "suite_lawful S" "crv_ByteLen (spake2pCurve S) < 2 ^ 60"
    and "Prover_Finalize S p0 b = (Inr (), p)" "Verifier_Finalize S v0 = (Inr (), v)" "collision_free S p v"
    and "go_slices [p_pA p, p_pB p, p_w0 p, v_pA v, v_pB v, v_w0 v, the (v_zV v), the (v_vV v)]"
    and "ConfirmationB v = Inr cB" "ConfirmationA p = Inr cA" "VerifyConfirmationB p cB = Inr () \<or> VerifyConfirmationA v cA = Inr ()"
  shows "p_context p = v_context v \<and> p_pA p = v_pA v \<and> p_pB p = v_pB v \<and> p_w0 p = v_w0 v
    \<and> Prover_SharedKey p = Verifier_SharedKey v"
proof -
  note P = finished_prover [OF assms(1,3)] and V = finished_verifier [OF assms(4)]
  have "cB = v_cB v" "cA = p_cA p" using assms(7,8) P(1) V(1) by (auto simp: ConfirmationB_def ConfirmationA_def)
  then have "p_cB p = v_cB v \<or> p_cA p = v_cA v"
    using assms(9) P(1) V(1) by (auto simp: VerifyConfirmationB_def VerifyConfirmationA_def split: if_splits)
  then have eq: "prover_transcript S p = verifier_transcript S v"
    unfolding P(3,4) V(3,4) using collision_freeD(1,2) [OF assms(5)] by blast
  then show ?thesis
    using transcripts_agree [OF assms(1,2,5,6) eq] P V by (simp add: Prover_SharedKey_def Verifier_SharedKey_def)
qed

end
