(* ===== verification/Pase_Agreement.thy ===== *)
theory Pase_Agreement
  imports Pase_Invariant Spake_Agreement
begin

text \<open>
  What an accepted confirmation says about the two parties of a handshake. In every reachable
  state the verifier of a device is a finished one made with the device's own scalar, and the
  prover of a controller was made from a passcode it had at some time: the one it was started
  with, or 0 before it was started.
\<close>

section \<open>Where scalars come from\<close>

lemma spake_keeps_w0:
  "ComputePB S v pA rnd = (r, v', rnd') \<Longrightarrow> v_w0 v' = v_w0 v" "Verifier_Finalize S v = (s, v') \<Longrightarrow> v_w0 v' = v_w0 v"
  "ComputePA S p rnd = (r, p', rnd') \<Longrightarrow> p_w0 p' = p_w0 p" "Prover_Finalize S p b = (s, p') \<Longrightarrow> p_w0 p' = p_w0 p"
  by (auto simp: ComputePB_def Verifier_Finalize_def ComputePA_def Prover_Finalize_def Let_def
      split: sum.splits prod.splits if_splits option.splits)

lemma preserves_ask: "(\<And>p. P p \<Longrightarrow> preserves P (k (f p))) \<Longrightarrow> preserves P (bnd (ask f) k)"
  by (auto simp: preserves_def act_ask)

lemma preserves_with_rnd:
  assumes "\<And>rnd r b rnd'. f rnd = (r, b, rnd') \<Longrightarrow> preserves P (k (r, b))"
  shows "preserves P (bnd (with_rnd f) k)"
proof (rule preservesI)
  fix c and e :: env
  assume "P c"
  obtain r b rnd' where "f (e_rnd e) = (r, b, rnd')" by (cases "f (e_rnd e)") auto
  with assms [OF this] \<open>P c\<close> show "P (fst (snd (bnd (with_rnd f) k (c, e))))"
    by (simp add: bnd_def with_rnd_def preserves_def)
qed

definition own_verifier :: "'x suite_scheme \<Rightarrow> bytes \<Rightarrow> commissionee \<Rightarrow> bool" where
  "own_verifier S w0 c \<longleftrightarrow> ce_W0 c = w0
     \<and> (\<forall>v. ce_verifier c = Some v \<longrightarrow> v_w0 v = w0 \<and> (\<exists>v0. Verifier_Finalize S v0 = (Inr (), v)))"

lemma own_verifier_build [intro!]: "preserves (own_verifier S w0) (ce_buildFrame op ack v)"
  unfolding ce_buildFrame_def by (auto intro!: preserves_upd simp: own_verifier_def)

lemma own_verifier_pake1: "preserves (own_verifier S w0) (handlePake1 S Ms f)"
  unfolding handlePake1_def
proof (intro preserves_try preserves_ask preserves_with_rnd, goal_cases)
  case (1 p1 c v0 rnd r v1 rnd')
  obtain s v2 where v2: "Verifier_Finalize S v1 = (s, v2)" by force
  have "v_w0 v0 = w0" using 1(2,3) by (auto simp: NewSPAKE2PVerifier_def own_verifier_def split: if_splits sum.splits)
  then have "v_w0 v2 = w0" using spake_keeps_w0(1) [OF 1(4)] spake_keeps_w0(2) [OF v2] by simp
  then have upd: "preserves (own_verifier S w0) (upd (\<lambda>c. c\<lparr>ce_verifier := Some v2\<rparr>))" if "s = Inr ()"
    using v2 that by (auto intro!: preserves_upd simp: own_verifier_def)
  have "preserves (own_verifier S w0) (upd (\<lambda>c. c\<lparr>ce_State := StatePASE_Pake3\<rparr>))"
    by (auto intro!: preserves_upd simp: own_verifier_def)
  then show ?case unfolding v2 prod.case
    by (intro preserves_try preserves_bnd upd own_verifier_build preserves_basic) simp_all
qed

lemma own_verifier_message: "preserves (own_verifier S w0) (Commissionee_HandleMessage S Ms f)"
proof -
  have "preserves (own_verifier S w0) (handlePBKDFParamRequest Ms f)" "preserves (own_verifier S w0) (handlePake3 S f)"
    unfolding handlePBKDFParamRequest_def handlePake3_def
    by (auto intro!: preserves_upd simp: own_verifier_def)
  then show ?thesis unfolding Commissionee_HandleMessage_def Let_def by (auto intro: own_verifier_pake1)
qed

definition scalar_of :: "'x suite_scheme \<Rightarrow> u32 set \<Rightarrow> bytes \<Rightarrow> bool" where
  "scalar_of S Q w0 \<longleftrightarrow> (\<exists>q\<in>Q. \<exists>salt it w1. Spake2pW0W1FromPasscode S q salt it = Inr (w0, w1))"

definition own_prover :: "'x suite_scheme \<Rightarrow> u32 set \<Rightarrow> commissioner \<Rightarrow> bool" where
  "own_prover S Q c \<longleftrightarrow> cr_Passcode c \<in> Q
     \<and> (\<forall>p. cr_prover c = Some p \<longrightarrow> scalar_of S Q (p_w0 p) \<and> (p_finalized p \<longrightarrow> (\<exists>p0 b. Prover_Finalize S p0 b = (Inr (), p))))"

lemma own_prover_build [intro!]: "preserves (own_prover S Q) (cr_buildFrame op ack v)"
  unfolding cr_buildFrame_def by (auto intro!: preserves_upd simp: own_prover_def)

lemma own_prover_start: "pc \<in> Q \<Longrightarrow> preserves (own_prover S Q) (StartPASE Ms pc)"
  unfolding StartPASE_def by (auto intro!: preserves_upd simp: own_prover_def)

lemma NewSPAKE2PProver_w0: "NewSPAKE2PProver w0 w1 ctx = Inr p \<Longrightarrow> p_w0 p = w0 \<and> \<not> p_finalized p"
  by (auto simp: NewSPAKE2PProver_def split: if_splits)

lemma ComputePA_unfinished: "ComputePA S p rnd = (r, p', rnd') \<Longrightarrow> p_finalized p' = p_finalized p"
  by (auto simp: ComputePA_def Let_def split: sum.splits prod.splits)

lemma Prover_Finalize_finished: "Prover_Finalize S p b = (r, p') \<Longrightarrow> p_finalized p' \<Longrightarrow> r = Inr () \<or> p' = p"
  by (auto simp: Prover_Finalize_def Let_def split: sum.splits prod.splits if_splits option.splits)

lemma own_prover_set:
  assumes "scalar_of S Q (p_w0 p)" "p_finalized p \<Longrightarrow> \<exists>p0 b. Prover_Finalize S p0 b = (Inr (), p)"
  shows "preserves (own_prover S Q) (upd (\<lambda>c. c\<lparr>cr_prover := Some p\<rparr>))"
  using assms by (auto intro!: preserves_upd simp: own_prover_def)

lemma own_prover_state:
  "preserves (own_prover S Q) (upd (\<lambda>c. c\<lparr>cr_State := st\<rparr>))" "preserves (own_prover S Q) (upd (\<lambda>c. c\<lparr>cr_Ke := ke\<rparr>))"
  "preserves (own_prover S Q) (upd (\<lambda>c. c\<lparr>cr_sessionManager := sm\<rparr>))"
  "preserves (own_prover S Q) (upd (\<lambda>c. c\<lparr>cr_prover := None\<rparr>))"
  by (auto intro!: preserves_upd simp: own_prover_def)

lemmas own_prover_rules = own_prover_state own_prover_build preserves_basic

lemma own_prover_send: "preserves (own_prover S Q) (sendPake1 S Ms ack)"
  unfolding sendPake1_def
proof (intro preserves_ask preserves_try preserves_split(1), goal_cases)
  case (1 c w w0 w1 c')
  then have w0: "scalar_of S Q w0" by (auto simp: scalar_of_def own_prover_def)
  show ?case
  proof (cases "NewSPAKE2PProver w0 w1 (paseContext (cr_RequestPayload c') (cr_ResponsePayload c'))")
    case (Inl x)
    then show ?thesis unfolding Inl sum.case by (intro preserves_bnd preserves_try own_prover_rules) simp
  next
    case (Inr p0)
    note p0 = NewSPAKE2PProver_w0 [OF Inr]
    have p1: "preserves (own_prover S Q) (upd (\<lambda>c. c\<lparr>cr_prover := Some p1\<rparr>))" if "ComputePA S p0 rnd = (r, p1, rnd')" for rnd r p1 rnd'
      using p0 w0 spake_keeps_w0(3) [OF that] ComputePA_unfinished [OF that] by (intro own_prover_set) simp_all
    have "preserves (own_prover S Q) (upd (\<lambda>c. c\<lparr>cr_prover := Some p0\<rparr>))" using p0 w0 by (intro own_prover_set) simp_all
    then show ?thesis unfolding Inr sum.case
      by (intro preserves_with_rnd preserves_try preserves_bnd own_prover_rules) (auto intro!: p1 preserves_bnd own_prover_rules)
  qed
qed

lemma own_prover_response: "preserves (own_prover S Q) (handlePBKDFParamResponse S Ms f)"
  unfolding handlePBKDFParamResponse_def
  by (auto intro!: preserves_upd own_prover_send simp: own_prover_def)

lemma own_prover_pake2: "preserves (own_prover S Q) (handlePake2 S Ms f)"
  unfolding handlePake2_def
proof (intro preserves_ask, goal_cases)
  case (1 c)
  show ?case
  proof (cases "cr_prover c")
    case None
    then show ?thesis by (simp add: preserves_basic)
  next
    case (Some p)
    have p': "preserves (own_prover S Q) (upd (\<lambda>c. c\<lparr>cr_prover := Some p'\<rparr>))" if "Prover_Finalize S p b = (r, p')" for b r p'
    proof (rule own_prover_set)
      show "scalar_of S Q (p_w0 p')" using 1 Some spake_keeps_w0(4) [OF that] by (simp add: own_prover_def)
      show "\<exists>p0 b. Prover_Finalize S p0 b = (Inr (), p')" if "p_finalized p'"
        using 1 Some Prover_Finalize_finished [OF \<open>Prover_Finalize S p b = (r, p')\<close> that] that \<open>Prover_Finalize S p b = (r, p')\<close>
        by (auto simp: own_prover_def)
    qed
    show ?thesis unfolding Some option.case by (intro preserves_try preserves_split(1)) (auto intro!: p' preserves_bnd own_prover_rules)
  qed
qed

lemma own_prover_message: "preserves (own_prover S Q) (Commissioner_HandleMessage S Ms f)"
  unfolding Commissioner_HandleMessage_def Let_def by (auto intro: own_prover_response own_prover_pake2)

lemma own_verifier_reachable:
  assumes "NewCommissionee S pc salt iterations (Some sm) = Inr d0" "(device_step S)\<^sup>*\<^sup>* d0 d"
  shows "own_verifier S (ce_W0 d0) d"
  using assms(2)
proof (induction rule: rtranclp_induct)
  case base
  show ?case using assms(1) by (auto simp: NewCommissionee_def own_verifier_def split: sum.splits)
next
  case (step c c')
  then show ?case by (elim device_stepE) (rule preservesD [OF own_verifier_message])
qed

lemma own_prover_reachable:
  assumes "NewCommissioner (Some sm) = Inr c0" "(controller_step S Q)\<^sup>*\<^sup>* c0 c"
  shows "own_prover S (insert 0 Q) c"
  using assms(2)
proof (induction rule: rtranclp_induct)
  case base
  show ?case using assms(1) by (auto simp: NewCommissioner_def own_prover_def)
next
  case (step c c')
  have "preserves (own_prover S (insert 0 Q)) (StartCASE nid)" for nid
    unfolding StartCASE_def by (rule own_prover_state)
  with step(2,3) show ?case
    by (elim controller_stepE)
      (blast intro: preservesD [OF own_prover_start] preservesD [OF own_prover_message] preservesD)+
qed

section \<open>Accepted confirmations\<close>

text \<open>The controller has just accepted a Pake2 message with the confirmation \<open>cB\<close>.\<close>

definition pake2_accepted :: "'x suite_scheme \<Rightarrow> bytes \<Rightarrow> commissioner \<Rightarrow> bool" where
  "pake2_accepted S cB c \<longleftrightarrow>
     (\<exists>Ms f c0 e e' p2. Commissioner_HandleMessage S Ms f (c0, e) = (Inr (), (c, e')) \<and> ph_Opcode (f_PayloadHeader f) = OpcodePASEPake2
        \<and> decode_message pake2_type pake2_of (f_Payload f) = Inr p2 \<and> pk2_CB p2 = cB)"

lemma handlePake2_success:
  assumes "handlePake2 S Ms f (c, e) = (Inr (), (c', e'))" "decode_message pake2_type pake2_of (f_Payload f) = Inr p2"
  shows "\<exists>p. cr_prover c' = Some p \<and> p_cB p = pk2_CB p2"
proof -
  obtain p where p: "cr_prover c = Some p" using assms(1) by (auto simp: handlePake2_def act_defs split: option.splits)
  obtain r p' where fin: "Prover_Finalize S p (pk2_PB p2) = (r, p')" by force
  have ok: "r = Inr () \<and> p_finalized p' \<and> pk2_CB p2 = p_cB p' \<and> (\<exists>keys. DeriveSessionKeysFromKe S (p_ke p') = Inr keys)"
    using assms p fin
    by (cases r; cases "DeriveSessionKeysFromKe S (p_ke p')")
      (auto simp: handlePake2_def act_simps VerifyConfirmationB_def ConfirmationA_def Prover_SharedKey_def
        installPASESession_def split: if_splits)
  then obtain keys where k: "DeriveSessionKeysFromKe S (p_ke p') = Inr keys" by blast
  have "keeps cr_prover (pake2_reply Ms f (p_cA p'))" unfolding pake2_reply_def by (auto intro!: keeps_upd)
  moreover have "pake2_reply Ms f (p_cA p') (c\<lparr>cr_prover := Some p', cr_Ke := p_ke p',
      cr_sessionManager := InstallSecureSession (cr_sessionManager c) (cr_SessionID c) 0 0 keys RoleInitiator\<rparr>, e) = (Inr (), (c', e'))"
    using handlePake2_accept [OF p assms(2) _ _ _ k, of Ms e] ok fin assms(1) by simp
  ultimately show ?thesis using ok keepsD by fastforce
qed

lemma accepted_confirmations:
  "pake2_accepted S cB c \<Longrightarrow> cr_prover c = Some p \<Longrightarrow> p_cB p = cB"
  "pake3_accepted S cA d \<Longrightarrow> ce_verifier d = Some v \<Longrightarrow> v_cA v = cA"
  unfolding pake2_accepted_def pake3_accepted_def
  by (auto simp: Commissioner_HandleMessage_def Commissionee_HandleMessage_def dest!: handlePake2_success handlePake3_cases)

text \<open>The ends of an undisturbed exchange do not collide.\<close>

lemma undisturbed_exchange:
  assumes "suite_lawful S" "verifier_record S w1 l" "crv_ByteLen (spake2pCurve S) \<le> 950" "length w0 < 2 ^ 63"
    and "exchange S w0 w1 l ctx rndA rndB restA restB pA pB cA cB ke p1 p2 v2"
  shows "collision_free S p2 v2" "p_finalized p2" "p_cA p2 = cA"
    and "go_slices [p_pA p2, p_pB p2, p_w0 p2, v_pA v2, v_pB v2, v_w0 v2, the (v_zV v2), the (v_vV v2)]"
proof -
  let ?C = "spake2pCurve S"
  obtain p0 v0 v1 where e: "NewSPAKE2PProver w0 w1 ctx = Inr p0" "NewSPAKE2PVerifier S w0 l ctx = Inr v0"
    "ComputePA S p0 rndA = (Inr pA, p1, restA)" "ComputePB S v0 pA rndB = (Inr pB, v1, restB)"
    "Prover_Finalize S p1 pB = (Inr (), p2)" "Verifier_Finalize S v1 = (Inr (), v2)" "ConfirmationA p2 = Inr cA"
    and len: "length pA < 2 ^ 63" "length pB < 2 ^ 63"
    using assms(3,5) by (auto simp: exchange_def)
  obtain q where q: "unmarshalP256Point S pB = Inr q"
    using e(5) by (auto simp: Prover_Finalize_def split: if_splits option.splits sum.splits)
  let ?d = "unshare ?C (spakeN S) w0 q"
  obtain x where p: "p1 = p0\<lparr>p_x := Some x, p_pA := pA\<rparr>" "p_w0 p0 = w0" "p_w1 p0 = w1" "p_context p0 = ctx"
    and v: "v_w0 v1 = w0" "v_context v1 = ctx" "v_pA v1 = pA" "v_pB v1 = pB"
      "v_zV v1 = Some (point_bytes ?C (ec_mult ?C x ?d))" "v_vV v1 = Some (point_bytes ?C (smult ?C w1 ?d))"
    by (rule exchange_shapes [OF assms(1,2) e(1-4) q])
  obtain ke' cA' cB' where
    f: "Prover_Finalize S p1 pB = (Inr (), p1\<lparr>p_pB := pB, p_ke := ke', p_cA := cA', p_cB := cB', p_finalized := True\<rparr>)"
      "Verifier_Finalize S v1 = (Inr (), v1\<lparr>v_ke := ke', v_cA := cA', v_cB := cB', v_finalized := True\<rparr>)"
    by (rule exchange_agrees [OF assms(1,2) e(1-4) q])
  note p2 = f(1) [unfolded e(5), THEN conjunct2 [OF iffD1 [OF prod.inject]]]
    and v2 = f(2) [unfolded e(6), THEN conjunct2 [OF iffD1 [OF prod.inject]]]
  show fin: "p_finalized p2" by (simp add: p2)
  show "p_cA p2 = cA" using e(7) fin by (simp add: ConfirmationA_def)
  have pb: "length (point_bytes ?C r) < 2 ^ 63" for r using length_point_bytes_le [of ?C r] assms(3) by simp
  show "go_slices [p_pA p2, p_pB p2, p_w0 p2, v_pA v2, v_pB v2, v_w0 v2, the (v_zV v2), the (v_vV v2)]"
    using len assms(4) pb by (simp add: go_slices_def p2 v2 p v)
  have "prover_transcript S p2 = verifier_transcript S v2"
    by (simp add: prover_transcript_def verifier_transcript_def Let_def p2 v2 p v q)
  then show "collision_free S p2 v2" by (simp add: collision_free_def p2 v2 p v)
qed

section \<open>Properties\<close>

text \<open>
  C11: an accepted confirmation means agreement. Take any states that a device and a
  controller can reach, whatever happened on the network before. If the controller has
  accepted the confirmation of the device's verifier, or the device that of the controller's
  prover, and the two runs do not collide in hash and MAC, then both used the same context and
  the same two shares, they hold the same key, and the device's scalar comes from a passcode
  of the controller: one it was started with, or 0, the passcode before the start.
\<close>

theorem accepted_confirmation_means_agreement:
  assumes "suite_lawful S" "crv_ByteLen (spake2pCurve S) < 2 ^ 60"
    and "NewCommissionee S pc salt iterations (Some smD) = Inr d0" "(device_step S)\<^sup>*\<^sup>* d0 d" "ce_verifier d = Some v"
    and "NewCommissioner (Some smC) = Inr c0" "(controller_step S Q)\<^sup>*\<^sup>* c0 c" "cr_prover c = Some p" "p_finalized p"
    and "pake2_accepted S (v_cB v) c \<or> pake3_accepted S (p_cA p) d" "collision_free S p v"
    and "go_slices [p_pA p, p_pB p, p_w0 p, v_pA v, v_pB v, v_w0 v, the (v_zV v), the (v_vV v)]"
  shows "p_context p = v_context v \<and> p_pA p = v_pA v \<and> p_pB p = v_pB v \<and> Prover_SharedKey p = Verifier_SharedKey v
    \<and> scalar_of S (insert 0 Q) (ce_W0 d0)"
proof -
  obtain v0 where v: "Verifier_Finalize S v0 = (Inr (), v)" "v_w0 v = ce_W0 d0"
    using own_verifier_reachable [OF assms(3,4)] assms(5) by (auto simp: own_verifier_def)
  obtain p0 b where p: "Prover_Finalize S p0 b = (Inr (), p)" "scalar_of S (insert 0 Q) (p_w0 p)"
    using own_prover_reachable [OF assms(6,7)] assms(8,9) by (auto simp: own_prover_def)
  have fin: "ConfirmationB v = Inr (v_cB v)" "ConfirmationA p = Inr (p_cA p)"
    using assms(9) finished_verifier(1) [OF v(1)] by (simp_all add: ConfirmationB_def ConfirmationA_def)
  have "VerifyConfirmationB p (v_cB v) = Inr () \<or> VerifyConfirmationA v (p_cA p) = Inr ()"
    using assms(10) accepted_confirmations(1) [of S "v_cB v" c p] accepted_confirmations(2) [of S "p_cA p" d v] assms(5,8,9)
      finished_verifier(1) [OF v(1)] by (auto simp: VerifyConfirmationB_def VerifyConfirmationA_def)
  from confirmation_means_agreement [OF assms(1,2) p(1) v(1) assms(11,12) fin this] show ?thesis using p(2) v(2) by simp
qed

theorem accepted_confirmation_means_agreement_witness:
  "\<exists>c d p v. (controller_step small_suite {2})\<^sup>*\<^sup>* small_controller c \<and> (device_step small_suite)\<^sup>*\<^sup>* small_device d
    \<and> cr_prover c = Some p \<and> ce_verifier d = Some v \<and> pake3_accepted small_suite (p_cA p) d
    \<and> p_context p = v_context v \<and> p_pA p = v_pA v \<and> p_pB p = v_pB v \<and> Prover_SharedKey p = Verifier_SharedKey v
    \<and> scalar_of small_suite (insert 0 {2}) (ce_W0 small_device)"
proof -
  let ?c = "fresh_controller small_controller (small_random @ [1, 2, 3, 4] @ small_x @ replicate 8 5)"
  let ?d = "fresh_device small_device (small_random @ [0, 0, 0, 0] @ small_y @ replicate 4 5)"
  obtain a d ctx pA pB cA cB ke p1 p2 v2 where
    r: "(net_round small_suite (\<lambda>_ _. None) local_addr local_addr ^^ 3) (controller_start (\<lambda>_ _. None) local_addr 2 ?c, ?d) = (a, d)"
    and e: "cr_prover (ct_commissioner a) = Some p2" "ce_verifier (dv_commissionee d) = Some v2"
      "exchange small_suite [2] [2] (ce_L small_device) ctx (small_x @ replicate 8 5) (small_y @ replicate 4 5)
        (replicate 8 5) (replicate 4 5) pA pB cA cB ke p1 p2 v2"
      "pake3_accepted small_suite cA (dv_commissionee d)"
    by (rule small_run)
  note steps = rounds_steps [OF r, of "{2}"]
  have c: "(controller_step small_suite {2})\<^sup>*\<^sup>* small_controller (ct_commissioner a)"
    using converse_rtranclp_into_rtranclp [OF controller_start_step [OF singletonI] conjunct1 [OF steps]] by (simp add: fresh_controller_def)
  have d: "(device_step small_suite)\<^sup>*\<^sup>* small_device (dv_commissionee d)" using conjunct2 [OF steps] by (simp add: fresh_device_def)
  note u = undisturbed_exchange [OF small_suite_lawful small_setup(4) _ _ e(3)]
  have "crv_ByteLen (spake2pCurve small_suite) \<le> 950" "crv_ByteLen (spake2pCurve small_suite) < 2 ^ 60" "length [2 :: byte] < 2 ^ 63"
    by (simp_all add: small_ByteLen)
  note u = u [OF this(1,3)] and accepted_confirmation_means_agreement
    [OF small_suite_lawful this(2) small_setup(1) d e(2) small_setup(2) c e(1), OF u(2) _ u(1,4)]
  then show ?thesis using c d e u(3) by blast
qed

end
