(* ===== verification/Pase_Programs.thy ===== *)
theory Pase_Programs
  imports Pase_Safety Pase_Run
begin

text \<open>
  The two sample programs as a whole. A program's receive loop goes through all its datagrams in one
  go and never forgets what it has sent; the rounds of \<open>Pase_Run\<close> hand the frames over one by
  one and clear the list of sent frames in between. Here the rounds are shown to be such a run: what
  a handler does does not depend on the frames sent before, so every number of rounds is one run of
  the two loops in which each gets exactly the frames that the other has sent, in their order.
\<close>

section \<open>Actions that only append to what was sent\<close>

definition appends :: "('p \<times> env, 'a) act \<Rightarrow> bool" where
  "appends m \<longleftrightarrow> (\<forall>p rnd. \<exists>r p' rnd' out. (\<forall>f\<in>set out. frame_wf f)
     \<and> (\<forall>s. m (p, \<lparr>e_rnd = rnd, e_sent = s\<rparr>) = (r, (p', \<lparr>e_rnd = rnd', e_sent = s @ out\<rparr>))))"

lemma appendsE:
  assumes "appends m"
  obtains r p' rnd' out where "\<forall>f\<in>set out. frame_wf f"
    "\<And>s. m (p, \<lparr>e_rnd = rnd, e_sent = s\<rparr>) = (r, (p', \<lparr>e_rnd = rnd', e_sent = s @ out\<rparr>))"
  using assms unfolding appends_def by meson

lemma appendsI:
  assumes "\<And>p rnd. \<exists>r p' rnd' out. (\<forall>f\<in>set out. frame_wf f)
     \<and> (\<forall>s. m (p, \<lparr>e_rnd = rnd, e_sent = s\<rparr>) = (r, (p', \<lparr>e_rnd = rnd', e_sent = s @ out\<rparr>)))"
  shows "appends m"
  using assms unfolding appends_def by blast

lemma appends_bnd_when:
  assumes "appends m" "\<And>x s s'. m s = (Inr x, s') \<Longrightarrow> appends (k x)"
  shows "appends (bnd m k)"
proof (rule appendsI)
  fix p rnd
  obtain r p1 rnd1 out where m: "\<forall>f\<in>set out. frame_wf f"
    "\<And>s. m (p, \<lparr>e_rnd = rnd, e_sent = s\<rparr>) = (r, (p1, \<lparr>e_rnd = rnd1, e_sent = s @ out\<rparr>))"
    by (rule appendsE [OF assms(1), of p rnd]) (erule that)
  show "\<exists>r p' rnd' out. (\<forall>f\<in>set out. frame_wf f)
     \<and> (\<forall>s. bnd m k (p, \<lparr>e_rnd = rnd, e_sent = s\<rparr>) = (r, (p', \<lparr>e_rnd = rnd', e_sent = s @ out\<rparr>)))"
  proof (cases r)
    case (Inl e)
    then show ?thesis using m by (auto simp: bnd_def)
  next
    case (Inr x)
    obtain r2 p2 rnd2 out2 where k: "\<forall>f\<in>set out2. frame_wf f"
      "\<And>s. k x (p1, \<lparr>e_rnd = rnd1, e_sent = s\<rparr>) = (r2, (p2, \<lparr>e_rnd = rnd2, e_sent = s @ out2\<rparr>))"
      by (rule appendsE [OF assms(2) [OF m(2) [unfolded Inr]], of p1 rnd1]) (erule that)
    then show ?thesis using m Inr
      by (intro exI [of _ r2] exI [of _ p2] exI [of _ rnd2] exI [of _ "out @ out2"]) (auto simp: bnd_def)
  qed
qed

lemma appends_bnd [intro]: "appends m \<Longrightarrow> (\<And>x. appends (k x)) \<Longrightarrow> appends (bnd m k)"
  by (rule appends_bnd_when)

lemma appends_silent:
  assumes "\<And>p rnd s. m (p, \<lparr>e_rnd = rnd, e_sent = s\<rparr>) = (r p rnd, (q p rnd, \<lparr>e_rnd = rest p rnd, e_sent = s\<rparr>))"
  shows "appends m"
  unfolding appends_def
proof (intro allI)
  fix p rnd
  show "\<exists>r p' rnd' out. (\<forall>f\<in>set out. frame_wf f)
     \<and> (\<forall>s. m (p, \<lparr>e_rnd = rnd, e_sent = s\<rparr>) = (r, (p', \<lparr>e_rnd = rnd', e_sent = s @ out\<rparr>)))"
    by (intro exI [of _ "r p rnd"] exI [of _ "q p rnd"] exI [of _ "rest p rnd"] exI [of _ "[]"]) (simp add: assms)
qed

lemma appends_basic [intro]:
  "appends (ok x)" "appends (err e)" "appends (ask f)" "appends (upd h)" "appends (with_rnd g)" "appends (rand_Read n)"
proof -
  show "appends (ok x)" "appends (err e)" "appends (ask f)" "appends (upd h)"
    by (rule appends_silent, simp add: ok_def err_def ask_def upd_def)+
  show "appends (with_rnd g)"
    by (rule appends_silent [where r = "\<lambda>_ rnd. Inr (fst (g rnd), fst (snd (g rnd)))" and q = "\<lambda>p _. p" and rest = "\<lambda>_ rnd. snd (snd (g rnd))"])
      (simp add: with_rnd_def split_beta)
  show "appends (rand_Read n)"
    by (rule appends_silent [where r = "\<lambda>_ rnd. Inr (case ReadFull n rnd of Inl er \<Rightarrow> (take n (rnd @ replicate n 0), Some er) | Inr (b, _) \<Rightarrow> (b, None))"
          and q = "\<lambda>p _. p" and rest = "\<lambda>_ rnd. case ReadFull n rnd of Inl _ \<Rightarrow> [] | Inr (_, r) \<Rightarrow> r"])
      (simp add: rand_Read_def split: sum.split)
qed

lemma appends_checks [intro]: "appends (rand_check q)" "appends (try_or j y)"
  by (auto simp: rand_check_def try_or_def split: option.split sum.split)

lemma appends_split [intro]:
  "(\<And>x y. appends (f x y)) \<Longrightarrow> appends (case z of (x, y) \<Rightarrow> f x y)"
  "appends a \<Longrightarrow> (\<And>x. appends (b x)) \<Longrightarrow> appends (case w of None \<Rightarrow> a | Some x \<Rightarrow> b x)"
  "appends a \<Longrightarrow> appends b' \<Longrightarrow> appends (if c then a else b')"
  by (auto split: prod.splits option.splits)

lemma appends_bump [intro]: "appends (bumpCounter ctr)"
  unfolding bumpCounter_def by (auto intro!: appends_bnd appends_basic appends_split)

lemma appends_send:
  assumes "frame_wf f"
  shows "appends (comm_send Ms f)"
proof (cases Ms)
  case None
  then show ?thesis by (intro appends_silent) (simp add: comm_send_def)
next
  case (Some m)
  have "comm_send Ms f (p, \<lparr>e_rnd = rnd, e_sent = s\<rparr>) = (case m f of None \<Rightarrow> Inr () | Some er \<Rightarrow> Inl er, (p, \<lparr>e_rnd = rnd, e_sent = s @ [f]\<rparr>))" for p rnd s
    using Some by (simp add: comm_send_def)
  then show ?thesis using assms unfolding appends_def by (metis empty_iff insert_iff list.set(1,2))
qed

text \<open>A frame that a party builds is well formed, so the other end can read it.\<close>

lemma buildFrame_wf:
  "ce_buildFrame op ack v s = (Inr f, s') \<Longrightarrow> frame_wf f" "cr_buildFrame op ack v t = (Inr f, t') \<Longrightarrow> frame_wf f"
  using built_wf [OF pase_builder_built]
  by (auto simp: ce_buildFrame_def cr_buildFrame_def bnd_def try_or_def ok_def err_def b_Build_def Let_def split: prod.splits sum.splits if_splits option.splits)

lemma appends_build [intro]:
  "appends (ce_buildFrame op ack v)" "appends (cr_buildFrame op ack v)"
  unfolding ce_buildFrame_def cr_buildFrame_def by (auto intro!: appends_bnd appends_basic)

lemma appends_reply:
  "(\<And>f. frame_wf f \<Longrightarrow> appends (k f)) \<Longrightarrow> appends (bnd (ce_buildFrame op ack v) k)"
  "(\<And>f. frame_wf f \<Longrightarrow> appends (k' f)) \<Longrightarrow> appends (bnd (cr_buildFrame op ack v) k')"
  by (rule appends_bnd_when; use buildFrame_wf in blast)+

lemmas appends_intros = appends_reply appends_bnd appends_basic appends_checks appends_split appends_bump appends_send

lemma appends_device: "appends (Commissionee_HandleMessage S Ms f)"
  unfolding Commissionee_HandleMessage_def Let_def handlePBKDFParamRequest_def handlePake1_def handlePake3_def
  by (intro appends_intros; assumption)

lemma appends_controller: "appends (Commissioner_HandleMessage S Ms f)" "appends (StartPASE Ms pc)"
  unfolding Commissioner_HandleMessage_def Let_def handlePBKDFParamResponse_def sendPake1_def handlePake2_def StartPASE_def
  by (intro appends_intros; assumption)+

section \<open>Programs that only append to what was sent\<close>

text \<open>
  The contract of a program's handler: its step does not depend on the frames sent before
  (\<open>earlier s x\<close> is the program \<open>x\<close> that has sent \<open>s\<close> before the rest), and it sends
  well-formed frames only.
\<close>

definition program_loop :: "(frame \<Rightarrow> udp_addr \<Rightarrow> 's \<Rightarrow> 's) \<Rightarrow> read_result list \<Rightarrow> 's \<Rightarrow> 's" where
  "program_loop step rs x = snd (tm_Start (Some step) rs x)"

locale sending_program =
  fixes step :: "frame \<Rightarrow> udp_addr \<Rightarrow> 's \<Rightarrow> 's" and sent :: "'s \<Rightarrow> frame list" and earlier :: "frame list \<Rightarrow> 's \<Rightarrow> 's"
  assumes step_earlier: "step f src (earlier s x) = earlier s (step f src x)"
    and step_sent: "\<exists>out. (\<forall>g\<in>set out. frame_wf g) \<and> sent (step f src x) = sent x @ out"
begin

lemma loop_earlier: "program_loop step rs (earlier s x) = earlier s (program_loop step rs x)"
proof -
  have "fold (\<lambda>(f, a). step f a) fs (earlier s x) = earlier s (fold (\<lambda>(f, a). step f a) fs x)" for fs
    by (induction fs arbitrary: x) (auto simp: step_earlier)
  then show ?thesis by (simp add: program_loop_def tm_Start_fold)
qed

lemma loop_sent: "\<exists>out. (\<forall>g\<in>set out. frame_wf g) \<and> sent (program_loop step rs x) = sent x @ out"
proof -
  have "\<exists>out. (\<forall>g\<in>set out. frame_wf g) \<and> sent (fold (\<lambda>(f, a). step f a) fs x) = sent x @ out" for fs
  proof (induction fs arbitrary: x)
    case (Cons fa fs)
    obtain f a where fa: "fa = (f, a)" by fastforce
    obtain out out' where "\<forall>g\<in>set (out @ out'). frame_wf g" "sent (step f a x) = sent x @ out"
      "sent (fold (\<lambda>(f, a). step f a) fs (step f a x)) = sent (step f a x) @ out'"
      using step_sent [of f a x] Cons [of "step f a x"] by force
    then show ?case using fa by (intro exI [of _ "out @ out'"]) simp
  qed simp
  then show ?thesis by (simp add: program_loop_def tm_Start_fold)
qed

lemma loop_append: "first_error rs = None \<Longrightarrow> program_loop step (rs @ rs') x = program_loop step rs' (program_loop step rs x)"
proof -
  have "first_error rs = None \<Longrightarrow> datagrams (rs @ rs') = datagrams rs @ datagrams rs'"
    by (induction rs rule: first_error.induct) auto
  moreover have "frames_in (ds @ ds') = frames_in ds @ frames_in ds'" for ds ds'
    by (simp add: frames_in_def List.map_filter_def)
  ultimately show "first_error rs = None \<Longrightarrow> program_loop step (rs @ rs') x = program_loop step rs' (program_loop step rs x)"
    by (simp add: program_loop_def tm_Start_fold)
qed

end

section \<open>The loops of the programs\<close>

text \<open>The program when it has sent the frames \<open>s\<close> before.\<close>

definition earlier_device :: "frame list \<Rightarrow> device_app \<Rightarrow> device_app" where
  "earlier_device s d = d\<lparr>dv_env := (dv_env d)\<lparr>e_sent := s @ e_sent (dv_env d)\<rparr>\<rparr>"

definition earlier_controller :: "frame list \<Rightarrow> controller_app \<Rightarrow> controller_app" where
  "earlier_controller s a = a\<lparr>ct_env := (ct_env a)\<lparr>e_sent := s @ e_sent (ct_env a)\<rparr>\<rparr>"

lemma device_handler_earlier:
  "device_handler S write f from (earlier_device s d) = earlier_device s (device_handler S write f from d)"
  "\<exists>out. (\<forall>g\<in>set out. frame_wf g) \<and> e_sent (dv_env (device_handler S write f from d)) = e_sent (dv_env d) @ out"
proof -
  obtain r c rnd out where o: "\<forall>g\<in>set out. frame_wf g"
    "\<And>s. Commissionee_HandleMessage S (Some (device_SendMessage write (Some from))) f (dv_commissionee d, \<lparr>e_rnd = e_rnd (dv_env d), e_sent = s\<rparr>)
       = (r, (c, \<lparr>e_rnd = rnd, e_sent = s @ out\<rparr>))"
    by (rule appendsE [OF appends_device, where p = "dv_commissionee d" and rnd = "e_rnd (dv_env d)"]) (erule that)
  have e: "(dv_env d)\<lparr>e_sent := s\<rparr> = \<lparr>e_rnd = e_rnd (dv_env d), e_sent = s\<rparr>" "dv_env d = \<lparr>e_rnd = e_rnd (dv_env d), e_sent = e_sent (dv_env d)\<rparr>" for s
    by simp_all
  note h = o(2) [of "e_sent (dv_env d)", folded e(2)]
  show "device_handler S write f from (earlier_device s d) = earlier_device s (device_handler S write f from d)"
    by (simp add: device_handler_def earlier_device_def h e(1) o(2))
  show "\<exists>out. (\<forall>g\<in>set out. frame_wf g) \<and> e_sent (dv_env (device_handler S write f from d)) = e_sent (dv_env d) @ out"
    using o(1) by (simp add: device_handler_def h)
qed

lemma controller_handler_earlier:
  "controller_handler S write dev f from (earlier_controller s a) = earlier_controller s (controller_handler S write dev f from a)"
  "\<exists>out. (\<forall>g\<in>set out. frame_wf g) \<and> e_sent (ct_env (controller_handler S write dev f from a)) = e_sent (ct_env a) @ out"
proof -
  obtain r c rnd out where o: "\<forall>g\<in>set out. frame_wf g"
    "\<And>s. Commissioner_HandleMessage S (Some (controller_SendMessage write dev)) f (ct_commissioner a, \<lparr>e_rnd = e_rnd (ct_env a), e_sent = s\<rparr>)
       = (r, (c, \<lparr>e_rnd = rnd, e_sent = s @ out\<rparr>))"
    by (rule appendsE [OF appends_controller(1), where p = "ct_commissioner a" and rnd = "e_rnd (ct_env a)"]) (erule that)
  have e: "(ct_env a)\<lparr>e_sent := s\<rparr> = \<lparr>e_rnd = e_rnd (ct_env a), e_sent = s\<rparr>" "ct_env a = \<lparr>e_rnd = e_rnd (ct_env a), e_sent = e_sent (ct_env a)\<rparr>" for s
    by simp_all
  note h = o(2) [of "e_sent (ct_env a)", folded e(2)]
  show "controller_handler S write dev f from (earlier_controller s a) = earlier_controller s (controller_handler S write dev f from a)"
    by (simp add: controller_handler_def earlier_controller_def h e(1) o(2))
  show "\<exists>out. (\<forall>g\<in>set out. frame_wf g) \<and> e_sent (ct_env (controller_handler S write dev f from a)) = e_sent (ct_env a) @ out"
    using o(1) by (simp add: controller_handler_def h)
qed

interpretation dev: sending_program "device_handler S write" "\<lambda>d. e_sent (dv_env d)" earlier_device for S "write"
  by unfold_locales (rule device_handler_earlier)+

interpretation ctl: sending_program "controller_handler S write addr" "\<lambda>a. e_sent (ct_env a)" earlier_controller for S "write" addr
  by unfold_locales (rule controller_handler_earlier)+

section \<open>Rounds of the network are runs of the loops\<close>

lemma encoded_reads: "\<forall>f\<in>set fs. frame_wf f \<Longrightarrow> first_error (map (datagram_of a) fs) = None"
proof (induction fs)
  case (Cons f fs)
  then obtain w where "Frame_Encode f = Inr w" using frame_dec_enc by (metis list.set_intros(1))
  then show ?case using Cons by (simp add: datagram_of_def)
qed simp

text \<open>
  \<open>joined\<close>: the programs that started as \<open>a0\<close> and \<open>d0\<close> are now \<open>a\<close> and \<open>d\<close>, up to the frames
  \<open>fsC\<close> and \<open>fsD\<close> that they have sent and the network has delivered; the frames that are under way are
  the ones in \<open>a\<close>.
\<close>

definition joined ::
  "'x suite_scheme \<Rightarrow> (bytes \<Rightarrow> udp_addr \<Rightarrow> nat option) \<Rightarrow> udp_addr \<Rightarrow> udp_addr \<Rightarrow> frame list \<Rightarrow> frame list
     \<Rightarrow> controller_app \<times> device_app \<Rightarrow> controller_app \<times> device_app \<Rightarrow> bool" where
  "joined S write ctl dev fsC fsD = (\<lambda>(a0, d0) (a, d).
     (\<forall>f\<in>set (fsC @ e_sent (ct_env a) @ fsD). frame_wf f) \<and> e_sent (dv_env d) = []
     \<and> program_loop (device_handler S write) (map (datagram_of ctl) fsC) d0 = earlier_device fsD d
     \<and> program_loop (controller_handler S write dev) (map (datagram_of dev) fsD) a0 = earlier_controller fsC a)"

lemma earlier_simps:
  "earlier_device s (earlier_device t d) = earlier_device (s @ t) d" "e_sent (dv_env (earlier_device s d)) = s @ e_sent (dv_env d)"
  "earlier_controller s (earlier_controller t a) = earlier_controller (s @ t) a" "e_sent (ct_env (earlier_controller s a)) = s @ e_sent (ct_env a)"
  "earlier_device (e_sent (dv_env d)) (d\<lparr>dv_env := (dv_env d)\<lparr>e_sent := []\<rparr>\<rparr>) = d"
  "earlier_controller (e_sent (ct_env a)) (a\<lparr>ct_env := (ct_env a)\<lparr>e_sent := []\<rparr>\<rparr>) = a"
  "earlier_device [] d = d" "earlier_controller [] a = a"
  by (simp_all add: earlier_device_def earlier_controller_def)

lemma joined_round:
  assumes "joined S write ctl dev fsC fsD s0 (a, d)"
  obtains fsD' where "joined S write ctl dev (fsC @ e_sent (ct_env a)) fsD' s0 (net_round S write ctl dev (a, d))"
proof -
  obtain a0 d0 where s0: "s0 = (a0, d0)" by force
  let ?D = "program_loop (device_handler S write)" and ?C = "program_loop (controller_handler S write dev)"
  let ?a = "a\<lparr>ct_env := (ct_env a)\<lparr>e_sent := []\<rparr>\<rparr>"
  define d1 where "d1 = ?D (map (datagram_of ctl) (e_sent (ct_env a))) d"
  define a2 where "a2 = ?C (map (datagram_of dev) (e_sent (dv_env d1))) ?a"
  have j: "\<forall>f\<in>set fsC. frame_wf f" "\<forall>f\<in>set (e_sent (ct_env a)). frame_wf f" "\<forall>f\<in>set fsD. frame_wf f" "e_sent (dv_env d) = []"
    "?D (map (datagram_of ctl) fsC) d0 = earlier_device fsD d" "?C (map (datagram_of dev) fsD) a0 = earlier_controller fsC a"
    using assms unfolding joined_def s0 by auto
  have r: "net_round S write ctl dev (a, d) = (a2, d1\<lparr>dv_env := (dv_env d1)\<lparr>e_sent := []\<rparr>\<rparr>)"
    by (simp add: net_round_def altered_round_def Let_def a2_def d1_def program_loop_def)
  have w1: "\<forall>f\<in>set (e_sent (dv_env d1)). frame_wf f"
    using dev.loop_sent [of S "write" "map (datagram_of ctl) (e_sent (ct_env a))" d] j(4) unfolding d1_def by auto
  have w2: "\<forall>f\<in>set (e_sent (ct_env a2)). frame_wf f"
    using ctl.loop_sent [of S "write" dev "map (datagram_of dev) (e_sent (dv_env d1))" ?a] unfolding a2_def by auto
  have D: "?D (map (datagram_of ctl) (fsC @ e_sent (ct_env a))) d0
      = earlier_device (fsD @ e_sent (dv_env d1)) (d1\<lparr>dv_env := (dv_env d1)\<lparr>e_sent := []\<rparr>\<rparr>)"
    by (simp add: dev.loop_append encoded_reads [OF j(1)] j(5) dev.loop_earlier flip: d1_def earlier_simps(1)) (simp add: earlier_simps)
  have C: "?C (map (datagram_of dev) (fsD @ e_sent (dv_env d1))) a0 = earlier_controller (fsC @ e_sent (ct_env a)) a2"
    using ctl.loop_earlier [of S "write" dev _ "fsC @ e_sent (ct_env a)" ?a]
    by (simp add: ctl.loop_append encoded_reads [OF j(3)] j(6) a2_def) (simp add: earlier_simps flip: earlier_simps(3))
  have "joined S write ctl dev (fsC @ e_sent (ct_env a)) (fsD @ e_sent (dv_env d1)) s0 (net_round S write ctl dev (a, d))"
    unfolding joined_def s0 r using j(1-3) w1 w2 D C by auto
  then show ?thesis by (rule that)
qed

lemma joined_start:
  "joined S write ctl dev [] [] (controller_start write dev pc (fresh_controller c0 rndC), fresh_device d0 rndD)
     (controller_start write dev pc (fresh_controller c0 rndC), fresh_device d0 rndD)"
proof -
  obtain r c rnd out where "\<forall>g\<in>set out. frame_wf g"
    "\<And>s. StartPASE (Some (controller_SendMessage write dev)) pc (c0, \<lparr>e_rnd = rndC, e_sent = s\<rparr>) = (r, (c, \<lparr>e_rnd = rnd, e_sent = s @ out\<rparr>))"
    by (rule appendsE [OF appends_controller(2), where p = c0 and rnd = rndC]) (erule that)
  then show ?thesis
    by (simp add: joined_def program_loop_def earlier_simps fresh_device_def fresh_controller_def controller_start_def)
qed

lemma rounds_joined:
  assumes "joined S write ctl dev [] [] s0 s0"
  shows "\<exists>fsC fsD. joined S write ctl dev fsC fsD s0 ((net_round S write ctl dev ^^ n) s0)"
proof (induction n)
  case 0
  then show ?case using assms by auto
next
  case (Suc n)
  obtain a d where s: "(net_round S write ctl dev ^^ n) s0 = (a, d)" by force
  with Suc obtain fsC fsD where "joined S write ctl dev fsC fsD s0 (a, d)" by auto
  then obtain fsD' where "joined S write ctl dev (fsC @ e_sent (ct_env a)) fsD' s0 (net_round S write ctl dev (a, d))"
    by (rule joined_round)
  then show ?case using s by auto
qed

section \<open>The programs\<close>

lemma device_main_runs:
  assumes "NewCommissionee S samplePasscode sampleSalt 1000 (Some NewSessionManager) = Inr d0"
    and "listen \<lparr>ua_IP = any_IP, ua_Port = devicePort\<rparr> = Inr conn" "\<forall>f\<in>set fs. frame_wf f"
  shows "device_main S listen write rnd (map (datagram_of ctl) fs)
     = Inr (program_loop (device_handler S write) (map (datagram_of ctl) fs) (fresh_device d0 rnd))"
  using assms(1,2) encoded_reads [OF assms(3)]
  by (simp add: device_main_def NewTransportManager_def program_loop_def fresh_device_def tm_Start_fold)

lemma controller_main_runs:
  assumes "NewCommissioner (Some NewSessionManager) = Inr c0"
    and "listen \<lparr>ua_IP = any_IP, ua_Port = ctrlPort\<rparr> = Inr conn" "\<forall>f\<in>set fs. frame_wf f"
  shows "controller_main S listen write rnd [] (map (datagram_of dev) fs)
     = Inr (program_loop (controller_handler S write sampleDeviceAddr) (map (datagram_of dev) fs)
              (controller_start write sampleDeviceAddr samplePasscode (fresh_controller c0 rnd)))"
  using assms(1,2) encoded_reads [OF assms(3)]
  by (simp add: controller_main_def NewTransportManager_def controller_loop_def program_loop_def fresh_controller_def tm_Start_fold)

text \<open>Any number of rounds is a run of the two programs, each fed with what the other sends.\<close>

lemma mains_simulate_rounds:
  assumes "NewCommissionee S samplePasscode sampleSalt 1000 (Some NewSessionManager) = Inr d0" "NewCommissioner (Some NewSessionManager) = Inr c0"
    and "listenD \<lparr>ua_IP = any_IP, ua_Port = devicePort\<rparr> = Inr connD" "listenC \<lparr>ua_IP = any_IP, ua_Port = ctrlPort\<rparr> = Inr connC"
    and "(net_round S write ctl sampleDeviceAddr ^^ n)
      (controller_start write sampleDeviceAddr samplePasscode (fresh_controller c0 rndC), fresh_device d0 rndD) = (a, d)"
  obtains fsC fsD where
    "controller_main S listenC write rndC [] (map (datagram_of sampleDeviceAddr) fsD) = Inr (earlier_controller fsC a)"
    "device_main S listenD write rndD (map (datagram_of ctl) fsC) = Inr (earlier_device fsD d)" "e_sent (dv_env d) = []"
proof -
  obtain fsC fsD where j: "joined S write ctl sampleDeviceAddr fsC fsD
      (controller_start write sampleDeviceAddr samplePasscode (fresh_controller c0 rndC), fresh_device d0 rndD) (a, d)"
    using rounds_joined [OF joined_start] assms(5) by metis
  then have w: "\<forall>f\<in>set fsC. frame_wf f" "\<forall>f\<in>set fsD. frame_wf f" by (auto simp: joined_def)
  have "e_sent (dv_env d) = []" "program_loop (device_handler S write) (map (datagram_of ctl) fsC) (fresh_device d0 rndD) = earlier_device fsD d"
    "program_loop (controller_handler S write sampleDeviceAddr) (map (datagram_of sampleDeviceAddr) fsD)
       (controller_start write sampleDeviceAddr samplePasscode (fresh_controller c0 rndC)) = earlier_controller fsC a"
    using j by (auto simp: joined_def)
  then show ?thesis
    using device_main_runs [where listen = listenD and S = S, OF assms(1,3) w(1)] controller_main_runs [where listen = listenC and S = S, OF assms(2,4) w(2)]
    by (intro that [of fsD fsC]) simp_all
qed

section \<open>Properties\<close>

text \<open>
  C28: the two sample programs commission each other. Run beside each other on the passcode, the
  salt and the iteration count written in them, with sockets that open and send and enough random
  bytes, and with a network that hands each program exactly the frames that the other one sends, in
  their order: both \<^verbatim>\<open>main\<close> functions get past their set-up, both parties end complete with the
  same key and the same transcript, and the controller holds session 12345 as initiator, the device
  session 23456 as responder, with the keys derived from that key. As in the run by rounds, the
  scalars must not be degenerate.
\<close>

theorem sample_programs_commission_each_other:
  assumes "suite_lawful S" "crv_ByteLen (spake2pCurve S) \<le> 950" "\<forall>b a. write b a = None"
    and "listenD \<lparr>ua_IP = any_IP, ua_Port = devicePort\<rparr> = Inr connD" "listenC \<lparr>ua_IP = any_IP, ua_Port = ctrlPort\<rparr> = Inr connC"
    and "NewCommissionee S samplePasscode sampleSalt 1000 (Some NewSessionManager) = Inr d0"
    and "Spake2pW0W1FromPasscode S samplePasscode sampleSalt 1000 = Inr (w0, w1)" "nondegenerate S w0 w1 x y"
    and "length rC = 32" "length kC = 4" "length x = 32" "8 \<le> length restC"
    and "length rD = 32" "length kD = 4" "length y = 32" "4 \<le> length restD"
  shows "\<exists>a d keys.
      controller_main S listenC write (rC @ kC @ x @ restC) [] (map (datagram_of sampleDeviceAddr) (e_sent (dv_env d))) = Inr a
    \<and> device_main S listenD write (rD @ kD @ y @ restD) (map (datagram_of ctl) (e_sent (ct_env a))) = Inr d
    \<and> commissioned (ct_commissioner a) (dv_commissionee d)
    \<and> DeriveSessionKeysFromKe S (cr_Ke (ct_commissioner a)) = Inr keys
    \<and> cr_sessionManager (ct_commissioner a) = InstallSecureSession NewSessionManager 12345 0 0 keys RoleInitiator
    \<and> ce_sessionManager (dv_commissionee d) = InstallSecureSession NewSessionManager 23456 0 0 keys RoleResponder"
proof -
  obtain c0 where c0: "NewCommissioner (Some NewSessionManager) = Inr c0" by (simp add: NewCommissioner_def)
  have n: "0 < (1000 :: int)" "(1000 :: int) < 2 ^ 32" "length sampleSalt \<le> 1800" by (simp_all add: sampleSalt_def str_bytes_def)
  obtain a d keys where r: "(net_round S write ctl sampleDeviceAddr ^^ 3)
      (controller_start write sampleDeviceAddr samplePasscode (fresh_controller c0 (rC @ kC @ x @ restC)), fresh_device d0 (rD @ kD @ y @ restD)) = (a, d)"
    and e: "e_sent (ct_env a) = []" and c: "commissioned (ct_commissioner a) (dv_commissionee d)" "DeriveSessionKeysFromKe S (cr_Ke (ct_commissioner a)) = Inr keys"
      "cr_sessionManager (ct_commissioner a) = InstallSecureSession NewSessionManager 12345 0 0 keys RoleInitiator"
      "ce_sessionManager (dv_commissionee d) = InstallSecureSession NewSessionManager 23456 0 0 keys RoleResponder"
    using pase_completes [OF assms(1-3) c0 assms(6) n assms(7-16)] by blast
  obtain fsC fsD where m:
    "controller_main S listenC write (rC @ kC @ x @ restC) [] (map (datagram_of sampleDeviceAddr) fsD) = Inr (earlier_controller fsC a)"
    "device_main S listenD write (rD @ kD @ y @ restD) (map (datagram_of ctl) fsC) = Inr (earlier_device fsD d)" "e_sent (dv_env d) = []"
    by (rule mains_simulate_rounds [where listenC = listenC and listenD = listenD, OF assms(6) c0 assms(4,5) r])
  show ?thesis
    by (rule exI [of _ "earlier_controller fsC a"], rule exI [of _ "earlier_device fsD d"], rule exI [of _ keys])
      (use m e c in \<open>simp add: earlier_simps earlier_controller_def earlier_device_def\<close>)
qed

lemma sample_setup:
  "NewCommissionee small_suite samplePasscode sampleSalt 1000 (Some NewSessionManager) = Inr (projr (NewCommissionee small_suite samplePasscode sampleSalt 1000 (Some NewSessionManager)))"
  "Spake2pW0W1FromPasscode small_suite samplePasscode sampleSalt 1000 = Inr ([2], [2])"
proof -
  have "\<not> isl (NewCommissionee small_suite samplePasscode sampleSalt 1000 (Some NewSessionManager))" by code_simp
  then show "NewCommissionee small_suite samplePasscode sampleSalt 1000 (Some NewSessionManager) = Inr (projr (NewCommissionee small_suite samplePasscode sampleSalt 1000 (Some NewSessionManager)))"
    by (simp add: sum.collapse)
qed code_simp

theorem sample_programs_commission_each_other_witness:
  "\<exists>a d keys.
      controller_main small_suite (\<lambda>_. Inr ()) (\<lambda>_ _. None) (small_random @ [1, 2, 3, 4] @ small_x @ replicate 8 5) []
        (map (datagram_of sampleDeviceAddr) (e_sent (dv_env d))) = Inr a
    \<and> device_main small_suite (\<lambda>_. Inr ()) (\<lambda>_ _. None) (small_random @ [0, 0, 0, 0] @ small_y @ replicate 4 5)
        (map (datagram_of local_addr) (e_sent (ct_env a))) = Inr d
    \<and> commissioned (ct_commissioner a) (dv_commissionee d)
    \<and> DeriveSessionKeysFromKe small_suite (cr_Ke (ct_commissioner a)) = Inr keys
    \<and> cr_sessionManager (ct_commissioner a) = InstallSecureSession NewSessionManager 12345 0 0 keys RoleInitiator
    \<and> ce_sessionManager (dv_commissionee d) = InstallSecureSession NewSessionManager 23456 0 0 keys RoleResponder"
  by (rule sample_programs_commission_each_other [OF small_suite_lawful _ _ _ _ sample_setup small_nondegenerate])
    (simp_all add: small_lengths small_ByteLen)



end
