(* ===== verification/Pase_Tamper.thy ===== *)
theory Pase_Tamper
  imports Pase_Run
begin

text \<open>
  What the handshake does not bind. The context both ends hash is the request payload followed by
  the response payload with nothing between them, and \<^verbatim>\<open>decodePayload\<close> ignores what follows
  the first element. So bytes can move from the end of the request to the front of the response
  without either end noticing, and a response put there is the one the controller reads.
\<close>

section \<open>A forged response\<close>

text \<open>A response with the salt and the iteration count of the device, which anybody can ask it for.\<close>

definition forged_response :: "commissionee \<Rightarrow> bytes \<Rightarrow> bytes \<Rightarrow> u16 \<Rightarrow> PBKDFParamResponse" where
  "forged_response d rC rR sid = \<lparr>resp_InitiatorRandom = rC, resp_ResponderRandom = rR, resp_ResponderSessionID = sid,
     resp_Params = Some \<lparr>ps_Iterations = ce_Iterations d, ps_Salt = ce_Salt d\<rparr>\<rparr>"

lemma forged_response_read:
  assumes "tlv_Marshal (VPtr response_type (Some (response_val (forged_response d rC rR sid)))) = Inr z"
    and "length rC < 2 ^ 31" "length rR < 2 ^ 31" "length (ce_Salt d) < 2 ^ 31"
  shows "answer_read z d rC rD rR sid" "length z \<le> 200 + length rC + length rR + length (ce_Salt d)"
proof -
  have "decode_message response_type response_of (z @ r) = Inr (forged_response d rC rR sid)" for r
    by (rule resp.message_prefix [OF _ assms(1)]) (use assms(2-4) in \<open>simp add: forged_response_def\<close>)
  then show "answer_read z d rC rD rR sid" by (simp add: answer_read_def forged_response_def first_response_def)
  show "length z \<le> 200 + length rC + length rR + length (ce_Salt d)"
    using Marshal_length [OF assms(1)] by (simp add: response_val_def forged_response_def param_set_val_def)
qed

lemma forged_response_marshals:
  assumes "length rC < 2 ^ 31" "length rR < 2 ^ 31" "length (ce_Salt d) < 2 ^ 31"
  obtains z where "tlv_Marshal (VPtr response_type (Some (response_val (forged_response d rC rR sid)))) = Inr z"
  by (rule resp.message_round_trip [of "forged_response d rC rR sid"]) (use assms in \<open>auto simp: forged_response_def\<close>)

lemma nothing_received: "sm i = None \<Longrightarrow> i \<noteq> UnsecuredSessionID \<Longrightarrow> received P sm i ms = []"
  by (induction P sm i ms rule: received.induct) (simp_all add: DecryptPayload_def)

section \<open>Properties\<close>

text \<open>
  C38: an attacker without the passcode can choose the session identifier. Somebody between
  the two, who appends a forged response to the request of the controller and puts it before the
  response of the device, is not noticed: both ends accept each other's confirmations, complete
  and install sessions with the same keys. But the controller has read the forged response: the
  random number and the session identifier it holds for the device are the attacker's, and
  whatever is addressed to that identifier is dropped, because the device has no session under it.
\<close>

theorem forged_response_is_accepted:
  assumes "suite_lawful S" "crv_ByteLen (spake2pCurve S) \<le> 950" "\<forall>b a. write b a = None"
    and "NewCommissioner (Some smC) = Inr c0" "NewCommissionee S pc salt iterations (Some NewSessionManager) = Inr d0"
    and "0 < iterations" "iterations < 2 ^ 32" "length salt \<le> 700"
    and "Spake2pW0W1FromPasscode S pc salt iterations = Inr (w0, w1)" "nondegenerate S w0 w1 x y"
    and "length rC = 32" "length kC = 4" "length x = 32" "8 \<le> length restC"
    and "length rD = 32" "length kD = 4" "length y = 32" "4 \<le> length restD"
    and "tlv_Marshal (VPtr response_type (Some (response_val (forged_response d0 rC rR sid)))) = Inr z" "length rR = 32"
    and "sid \<noteq> UnsecuredSessionID" "sid \<noteq> 23456"
  shows "\<exists>a d keys. (net_round S write ctl dev ^^ 2) (altered_round (append_payload z) (prepend_payload z) S write ctl dev
      (controller_start write dev pc (fresh_controller c0 (rC @ kC @ x @ restC)), fresh_device d0 (rD @ kD @ y @ restD))) = (a, d)
    \<and> cr_State (ct_commissioner a) = StateComplete \<and> ce_State (dv_commissionee d) = StateComplete
    \<and> cr_sessionManager (ct_commissioner a) = InstallSecureSession smC 12345 0 0 keys RoleInitiator
    \<and> ce_sessionManager (dv_commissionee d) = InstallSecureSession NewSessionManager 23456 0 0 keys RoleResponder
    \<and> cr_ResponderSessionID (ct_commissioner a) = sid \<and> cr_ResponderRandom (ct_commissioner a) = rR
    \<and> (\<forall>ms. received S (ce_sessionManager (dv_commissionee d)) (cr_ResponderSessionID (ct_commissioner a)) ms = [])"
proof -
  note d0 = NewCommissionee_ok [OF assms(5-7,9)]
  have len: "length rC < 2 ^ 31" "length rR < 2 ^ 31" "length (ce_Salt d0) < 2 ^ 31" using assms(8,11,20) by (simp_all add: d0(1))
  note z = forged_response_read [OF assms(19) len]
  have "length z + length salt \<le> 1800" using z(2) assms(8,11,20) by (simp add: d0(1))
  note run = pase_run [where ctl = ctl and dev = dev, OF assms(1-7) this assms(9-17) z(1) assms(18)]
  have lost: "received S (InstallSecureSession NewSessionManager 23456 0 0 keys RoleResponder) sid ms = []" for keys ms
    by (rule nothing_received) (use assms(21,22) in \<open>simp_all add: InstallSecureSession_def NewSessionManager_def\<close>)
  show ?thesis by (rule run) (auto simp: spliced_def lost)
qed

theorem forged_response_is_accepted_witness:
  "\<exists>z a d keys. (net_round small_suite (\<lambda>_ _. None) local_addr local_addr ^^ 2)
      (altered_round (append_payload z) (prepend_payload z) small_suite (\<lambda>_ _. None) local_addr local_addr
      (controller_start (\<lambda>_ _. None) local_addr 2 (fresh_controller small_controller (small_random @ [1, 2, 3, 4] @ small_x @ replicate 8 5)),
       fresh_device small_device (small_random @ [0, 0, 0, 0] @ small_y @ replicate 4 5))) = (a, d)
    \<and> cr_State (ct_commissioner a) = StateComplete \<and> ce_State (dv_commissionee d) = StateComplete
    \<and> cr_sessionManager (ct_commissioner a) = InstallSecureSession NewSessionManager 12345 0 0 keys RoleInitiator
    \<and> ce_sessionManager (dv_commissionee d) = InstallSecureSession NewSessionManager 23456 0 0 keys RoleResponder
    \<and> cr_ResponderSessionID (ct_commissioner a) = 666 \<and> cr_ResponderRandom (ct_commissioner a) = replicate 32 0
    \<and> (\<forall>ms. received small_suite (ce_sessionManager (dv_commissionee d)) (cr_ResponderSessionID (ct_commissioner a)) ms = [])"
proof -
  have "length small_random < 2 ^ 31" "length (replicate 32 (0 :: byte)) < 2 ^ 31" "length (ce_Salt small_device) < 2 ^ 31"
    using NewCommissionee_ok(1) [OF small_setup(1) _ _ small_derivation] by (simp_all add: small_lengths)
  then obtain z where z: "tlv_Marshal (VPtr response_type (Some (response_val
      (forged_response small_device small_random (replicate 32 0) 666)))) = Inr z"
    by (rule forged_response_marshals)
  show ?thesis
    by (rule exI [of _ z], rule forged_response_is_accepted
        [OF small_suite_lawful _ _ small_setup(2,1) _ _ _ small_derivation small_nondegenerate _ _ _ _ _ _ _ _ z])
      (simp_all add: small_lengths small_ByteLen)
qed

end
