(* ===== verification/Pase_Hijack.thy ===== *)
theory Pase_Hijack
  imports Pase_Run
begin

text \<open>
  What the missing state check of \<^verbatim>\<open>handlePBKDFParamResponse\<close> costs. The controller checks
  that a parameter response echoes its random number, but not that it has drawn one. Before
  \<^verbatim>\<open>StartPASE\<close> the number is empty and the passcode is 0, and \<^verbatim>\<open>StartPASE\<close> leaves a prover
  that is already there alone. So a response that comes before the handshake decides with which
  passcode the controller runs it.
\<close>

section \<open>A response nobody asked for\<close>

definition blank_response :: "bytes \<Rightarrow> u16 \<Rightarrow> u32 \<Rightarrow> bytes \<Rightarrow> PBKDFParamResponse" where
  "blank_response rR sid it salt = \<lparr>resp_InitiatorRandom = [], resp_ResponderRandom = rR, resp_ResponderSessionID = sid,
     resp_Params = Some \<lparr>ps_Iterations = it, ps_Salt = salt\<rparr>\<rparr>"

lemma blank_response_frame:
  assumes "length rR < 2 ^ 31" "length salt < 2 ^ 31"
  obtains bs f where "carries OpcodePBKDFParamResponse bs f"
    "decode_message response_type response_of bs = Inr (blank_response rR sid it salt)" "length bs \<le> 200 + length rR + length salt"
proof -
  have fits: "length (resp_InitiatorRandom (blank_response rR sid it salt)) < 2 ^ 31 \<and> length (resp_ResponderRandom (blank_response rR sid it salt)) < 2 ^ 31
     \<and> (case resp_Params (blank_response rR sid it salt) of None \<Rightarrow> True | Some ps \<Rightarrow> length (ps_Salt ps) < 2 ^ 31)"
    using assms by (simp add: blank_response_def)
  obtain bs where bs: "tlv_Marshal (VPtr response_type (Some (response_val (blank_response rR sid it salt)))) = Inr bs"
    "decode_message response_type response_of bs = Inr (blank_response rR sid it salt)" by (rule resp.message_round_trip [OF fits])
  have "OpcodePBKDFParamResponse \<noteq> 0" by simp
  then obtain f where "carries OpcodePBKDFParamResponse bs f" by (rule pase_frame_builds [OF bs(1)])
  then show ?thesis
    using that bs(2) Marshal_length [OF bs(1)] by (simp add: response_val_def blank_response_def param_set_val_def)
qed

lemma pake2_message:
  assumes "length pB < 2 ^ 31" "length cB < 2 ^ 31"
  obtains bs f where "carries OpcodePASEPake2 bs f" "decode_message pake2_type pake2_of bs = Inr \<lparr>pk2_PB = pB, pk2_CB = cB\<rparr>"
    "length bs \<le> 15 + length pB + length cB"
proof -
  let ?p2 = "\<lparr>pk2_PB = pB, pk2_CB = cB\<rparr>"
  have "length (pk2_PB ?p2) < 2 ^ 31 \<and> length (pk2_CB ?p2) < 2 ^ 31" using assms by simp
  then obtain bs where bs: "tlv_Marshal (VPtr pake2_type (Some (pake2_val ?p2))) = Inr bs"
    "decode_message pake2_type pake2_of bs = Inr ?p2" by (rule pk2.message_round_trip)
  have "OpcodePASEPake2 \<noteq> 0" by simp
  then obtain f where "carries OpcodePASEPake2 bs f" by (rule pase_frame_builds [OF bs(1)])
  then show ?thesis using that bs(2) Marshal_length [OF bs(1)] by (simp add: pake2_val_def)
qed

text \<open>The controller when its prover, made before \<^verbatim>\<open>StartPASE\<close>, meets the matching confirmation.\<close>

lemma unsolicited_steps:
  assumes "suite_lawful S" "reliable m" "NewCommissioner (Some sm) = Inr c0"
    and "carries OpcodePBKDFParamResponse bs f" "decode_message response_type response_of bs = Inr (blank_response rR sid it salt)"
    and "Spake2pW0W1FromPasscode S 0 salt (uint it) = Inr (w0, w1)"
    and "exchange S w0 w1 l (paseContext [] bs) (x @ kC @ rC @ restC) rndB (kC @ rC @ restC) restB pA pB cA cB ke p1 p2 v2"
    and "length pA < 2 ^ 31" "length kC = 4" "length rC = 32" "8 \<le> length restC"
    and "carries OpcodePASEPake2 bs' g" "decode_message pake2_type pake2_of bs' = Inr \<lparr>pk2_PB = pB, pk2_CB = cB\<rparr>"
  obtains c1 e1 c2 e2 c3 e3 keys f1 fs where
    "Commissioner_HandleMessage S (Some m) f (c0, \<lparr>e_rnd = x @ kC @ rC @ restC, e_sent = []\<rparr>) = (Inr (), (c1, e1))"
    "StartPASE (Some m) pc (c1, e1) = (Inr (), (c2, e2))" "Commissioner_HandleMessage S (Some m) g (c2, e2) = (Inr (), (c3, e3))"
    "cr_State c3 = StateComplete" "cr_Passcode c3 = pc" "cr_Ke c3 = ke" "DeriveSessionKeysFromKe S ke = Inr keys"
    "cr_sessionManager c3 = InstallSecureSession sm 12345 0 0 keys RoleInitiator"
    "e_sent e3 = f1 # fs" "decode_message pake1_type pake1_of (f_Payload f1) = Inr \<lparr>pk1_PA = pA\<rparr>"
proof -
  let ?e0 = "\<lparr>e_rnd = x @ kC @ rC @ restC, e_sent = []\<rparr>"
  have c0: "cr_Random c0 = []" "cr_Passcode c0 = 0" "cr_RequestPayload c0 = []" "cr_MessageCounter c0 = 0" "cr_SessionID c0 = 0"
    "cr_ExchangeID c0 = 0" "cr_sessionManager c0 = sm" using assms(3) by (auto simp: NewCommissioner_def)
  obtain p0 where p: "NewSPAKE2PProver w0 w1 (paseContext [] bs) = Inr p0" "ComputePA S p0 (e_rnd ?e0) = (Inr pA, p1, kC @ rC @ restC)"
    "Prover_Finalize S p1 pB = (Inr (), p2)" "VerifyConfirmationB p2 cB = Inr ()" "ConfirmationA p2 = Inr cA" "Prover_SharedKey p2 = Inr ke"
    using assms(7) by (auto simp: exchange_def)
  have k: "length ke = 16" "length cA < 2 ^ 31" using assms(7) by (simp_all add: exchange_def)
  obtain keys where keys: "DeriveSessionKeysFromKe S ke = Inr keys"
    by (rule DeriveSessionKeys_lengths [of S ke]) (use assms(1) k(1) in \<open>auto simp: suite_lawful_def\<close>)
  have l: "4 \<le> length (kC @ rC @ restC)" "4 \<le> length restC" using assms(9,11) by simp_all
  obtain f1 n1 b1 where h1: "Commissioner_HandleMessage S (Some m) f (c0, ?e0)
      = (Inr (), (pake1_sent c0 rR sid salt it bs p1 n1, \<lparr>e_rnd = snd (next_counter 0 (kC @ rC @ restC)), e_sent = e_sent ?e0 @ [f1]\<rparr>))"
    "carries OpcodePASEPake1 b1 f1" "decode_message pake1_type pake1_of b1 = Inr \<lparr>pk1_PA = pA\<rparr>"
    by (rule handlePBKDFParamResponse_ok [where S = S, OF assms(2) c0(1) assms(4,5) [unfolded blank_response_def], unfolded c0,
          OF assms(6) p(1,2) l(1) assms(8)]) (rule that)
  let ?c1 = "pake1_sent c0 rR sid salt it bs p1 n1" and ?e1 = "\<lparr>e_rnd = rC @ restC, e_sent = [f1]\<rparr>"
  have e1: "snd (next_counter 0 (kC @ rC @ restC)) = rC @ restC" using assms(9) by (simp add: next_counter_def)
  have c1: "cr_SessionID ?c1 = 0" "cr_ExchangeID ?c1 = 0" using c0(5,6) by (simp_all add: pake1_sent_def)
  obtain f2 n2 b2 where h2: "StartPASE (Some m) pc (?c1, ?e1)
      = (Inr (), (started ?c1 pc rC n2 b2, \<lparr>e_rnd = snd (next_counter (cr_MessageCounter ?c1) restC), e_sent = [f1] @ [f2]\<rparr>))"
    by (rule StartPASE_step [OF assms(2) c1 assms(10) l(2)])
  let ?c2 = "started ?c1 pc rC n2 b2"
  let ?e2 = "\<lparr>e_rnd = snd (next_counter (cr_MessageCounter ?c1) restC), e_sent = [f1] @ [f2]\<rparr>"
  have c2: "cr_prover ?c2 = Some p1" "cr_SessionID ?c2 = 12345" "cr_sessionManager ?c2 = sm" "cr_Passcode ?c2 = pc"
    "4 \<le> length (e_rnd ?e2)"
    using c0(7) next_counter_rest [of restC "cr_MessageCounter ?c1"] assms(11) by (simp_all add: stage_defs)
  obtain f3 n3 b3 where h3: "Commissioner_HandleMessage S (Some m) g (?c2, ?e2)
      = (Inr (), (?c2\<lparr>cr_prover := Some p2, cr_Ke := ke,
            cr_sessionManager := InstallSecureSession (cr_sessionManager ?c2) (cr_SessionID ?c2) 0 0 keys RoleInitiator,
            cr_MessageCounter := n3, cr_State := StateComplete\<rparr>,
          \<lparr>e_rnd = snd (next_counter (cr_MessageCounter ?c2) (e_rnd ?e2)), e_sent = e_sent ?e2 @ [f3]\<rparr>))"
    by (rule handlePake2_ok [OF assms(2) c2(1) assms(12,13) p(3-6) keys k(2) c2(5)])
  show ?thesis
    by (rule that [where fs = "[f2, f3]", OF h1(1) [unfolded e1 env.simps append_Nil] h2 h3, OF _ _ _ keys])
      (use c2 h1(2,3) in \<open>auto simp: carries_def\<close>)
qed

text \<open>What the verifier of somebody who knows only \<open>w0\<close> and \<open>l\<close> ends with when it gets the share \<open>pA\<close>.\<close>

definition verifier_outcome :: "'x suite_scheme \<Rightarrow> bytes \<Rightarrow> bytes \<Rightarrow> bytes \<Rightarrow> bytes \<Rightarrow> bytes \<Rightarrow> verifier \<Rightarrow> bool" where
  "verifier_outcome S w0 l ctx pA rnd v \<longleftrightarrow>
     (\<exists>v0 pB v1 rest. NewSPAKE2PVerifier S w0 l ctx = Inr v0 \<and> ComputePB S v0 pA rnd = (Inr pB, v1, rest)
        \<and> Verifier_Finalize S v1 = (Inr (), v))"

lemma controller_start_parts:
  assumes "StartPASE (Some (controller_SendMessage write dev)) pc (ct_commissioner a, ct_env a) = (r, (c, e))"
  shows "ct_commissioner (controller_start write dev pc a) = c" "ct_env (controller_start write dev pc a) = e"
  using assms by (simp_all add: controller_start_def)

lemma controller_main_two_frames:
  assumes "listen \<lparr>ua_IP = any_IP, ua_Port = ctrlPort\<rparr> = Inr conn" "NewCommissioner (Some NewSessionManager) = Inr c0"
    and "carries op1 bs1 f" "length bs1 \<le> 2012" "carries op2 bs2 g" "length bs2 \<le> 2012"
    and "Commissioner_HandleMessage S (Some (controller_SendMessage write sampleDeviceAddr)) f (c0, \<lparr>e_rnd = rnd, e_sent = []\<rparr>) = (r1, (c1, e1))"
    and "StartPASE (Some (controller_SendMessage write sampleDeviceAddr)) samplePasscode (c1, e1) = (r2, (c2, e2))"
    and "Commissioner_HandleMessage S (Some (controller_SendMessage write sampleDeviceAddr)) g (c2, e2) = (r3, (c3, e3))"
  obtains a where "controller_main S listen write rnd [datagram_of adv f] [datagram_of adv g] = Inr a" "ct_commissioner a = c3" "ct_env a = e3"
proof -
  let ?a0 = "\<lparr>ct_commissioner = c0, ct_env = \<lparr>e_rnd = rnd, e_sent = []\<rparr>, ct_out = []\<rparr>"
  let ?a1 = "controller_handler S write sampleDeviceAddr f adv ?a0"
  let ?a2 = "controller_start write sampleDeviceAddr samplePasscode ?a1"
  let ?a3 = "controller_handler S write sampleDeviceAddr g adv ?a2"
  have 1: "ct_commissioner ?a1 = c1" "ct_env ?a1 = e1" using controller_handler_parts [where a = ?a0, OF _] assms(7) by simp_all
  have 2: "ct_commissioner ?a2 = c2" "ct_env ?a2 = e2" using controller_start_parts [where a = ?a1] assms(8) 1 by simp_all
  have 3: "ct_commissioner ?a3 = c3" "ct_env ?a3 = e3" using controller_handler_parts [where a = ?a2] assms(9) 2 by simp_all
  have "controller_main S listen write rnd [datagram_of adv f] [datagram_of adv g] = Inr ?a3"
    using assms(1,2)
    by (simp add: controller_main_def NewTransportManager_def controller_loop_def deliver_frame [OF assms(3,4)] deliver_frame [OF assms(5,6)])
  then show ?thesis using that 3 by blast
qed

section \<open>Properties\<close>

text \<open>
  C12: an unsolicited response hijacks the controller. Somebody who does not know the passcode
  sends the sample controller a parameter response with an empty random number before it starts
  the handshake, and afterwards a Pake2 message that matches passcode 0. The controller starts
  PASE with its own passcode in between and still completes: its session 12345, the one it
  believes to share with the device of that passcode, has the keys that the attacker's verifier
  holds. The attacker's input is \<open>w0\<close> and \<open>l\<close> of passcode 0, the frames it sees, and a scalar
  of its own.
\<close>

theorem unsolicited_response_hijacks_the_controller:
  assumes "suite_lawful S" "crv_ByteLen (spake2pCurve S) \<le> 950" "\<forall>b a. write b a = None"
    and "listen \<lparr>ua_IP = any_IP, ua_Port = ctrlPort\<rparr> = Inr conn"
    and "Spake2pW0W1FromPasscode S 0 salt (uint it) = Inr (w0, w1)" "verifier_record S w1 l" "nondegenerate S w0 w1 x y"
    and "length salt \<le> 1700" "length rR \<le> 32" "length x = 32" "length y = 32" "length kC = 4" "length rC = 32" "8 \<le> length restC"
  shows "\<exists>f g a f1 fs pA v keys.
      controller_main S listen write (x @ kC @ rC @ restC) [datagram_of adv f] [datagram_of adv g] = Inr a
    \<and> cr_State (ct_commissioner a) = StateComplete \<and> cr_Passcode (ct_commissioner a) = samplePasscode
    \<and> decode_message response_type response_of (f_Payload f) = Inr (blank_response rR sid it salt)
    \<and> e_sent (ct_env a) = f1 # fs \<and> decode_message pake1_type pake1_of (f_Payload f1) = Inr \<lparr>pk1_PA = pA\<rparr>
    \<and> verifier_outcome S w0 l (paseContext [] (f_Payload f)) pA y v \<and> Verifier_SharedKey v = Inr (cr_Ke (ct_commissioner a))
    \<and> DeriveSessionKeysFromKe S (cr_Ke (ct_commissioner a)) = Inr keys
    \<and> cr_sessionManager (ct_commissioner a) = InstallSecureSession NewSessionManager 12345 0 0 keys RoleInitiator"
proof -
  obtain c0 where c0: "NewCommissioner (Some NewSessionManager) = Inr c0" by (simp add: NewCommissioner_def)
  note rel = reliable_messengers(2) [OF assms(3), of sampleDeviceAddr]
  have "length rR < 2 ^ 31" "length salt < 2 ^ 31" using assms(8,9) by simp_all
  then obtain bs f where f: "carries OpcodePBKDFParamResponse bs f"
    "decode_message response_type response_of bs = Inr (blank_response rR sid it salt)" "length bs \<le> 200 + length rR + length salt"
    by (rule blank_response_frame)
  obtain pA pB cA cB ke p1 p2 v2 where ex: "exchange S w0 w1 l (paseContext [] bs) (x @ kC @ rC @ restC) (y @ []) (kC @ rC @ restC) []
      pA pB cA cB ke p1 p2 v2"
    by (rule spake_run [OF assms(1,6,7,10,11)])
  have len: "length pA < 2 ^ 31" "length pB < 2 ^ 31" "length cB < 2 ^ 31" "15 + length pB + length cB \<le> 2012" "length bs \<le> 2012"
    using ex assms(2,8,9) f(3) by (simp_all add: exchange_def)
  obtain bs' g where g: "carries OpcodePASEPake2 bs' g" "decode_message pake2_type pake2_of bs' = Inr \<lparr>pk2_PB = pB, pk2_CB = cB\<rparr>"
    "length bs' \<le> 15 + length pB + length cB" by (rule pake2_message [OF len(2,3)])
  obtain c1 e1 c2 e2 c3 e3 keys f1 fs where
    h: "Commissioner_HandleMessage S (Some (controller_SendMessage write sampleDeviceAddr)) f (c0, \<lparr>e_rnd = x @ kC @ rC @ restC, e_sent = []\<rparr>) = (Inr (), (c1, e1))"
      "StartPASE (Some (controller_SendMessage write sampleDeviceAddr)) samplePasscode (c1, e1) = (Inr (), (c2, e2))"
      "Commissioner_HandleMessage S (Some (controller_SendMessage write sampleDeviceAddr)) g (c2, e2) = (Inr (), (c3, e3))"
    and c3: "cr_State c3 = StateComplete" "cr_Passcode c3 = samplePasscode" "cr_Ke c3 = ke" "DeriveSessionKeysFromKe S ke = Inr keys"
      "cr_sessionManager c3 = InstallSecureSession NewSessionManager 12345 0 0 keys RoleInitiator"
      "e_sent e3 = f1 # fs" "decode_message pake1_type pake1_of (f_Payload f1) = Inr \<lparr>pk1_PA = pA\<rparr>"
    by (rule unsolicited_steps [OF assms(1) rel c0 f(1,2) assms(5) ex len(1) assms(12,13,14) g(1,2)])
  obtain a where a: "controller_main S listen write (x @ kC @ rC @ restC) [datagram_of adv f] [datagram_of adv g] = Inr a"
    "ct_commissioner a = c3" "ct_env a = e3"
    by (rule controller_main_two_frames [where listen = listen, OF assms(4) c0 f(1) len(5) g(1) order.trans [OF g(3) len(4)] h])
  have v: "verifier_outcome S w0 l (paseContext [] (f_Payload f)) pA y v2" "Verifier_SharedKey v2 = Inr ke" "f_Payload f = bs"
    using ex f(1) by (auto simp: exchange_def verifier_outcome_def carries_def)
  show ?thesis
    by (rule exI [of _ f], rule exI [of _ g], rule exI [of _ a], rule exI [of _ f1], rule exI [of _ fs], rule exI [of _ pA],
        rule exI [of _ v2], rule exI [of _ keys]) (use a c3 v f(2) in simp)
qed

text \<open>The small suite with a derivation that does not ignore the salt, so that passcode 0 has scalars.\<close>

definition salted_suite :: suite where
  "salted_suite = small_suite\<lparr>pbkdf2_key := \<lambda>p s i n. sum_pbkdf2 (p @ s) s i n\<rparr>"

lemma salted_suite_facts:
  "suite_lawful salted_suite" "crv_ByteLen (spake2pCurve salted_suite) = 1"
  "Spake2pW0W1FromPasscode salted_suite 0 [2] 1 = Inr ([2], [2])" "verifier_record salted_suite [2] [4, 4, 5]"
  "nondegenerate salted_suite [2] [2] small_x small_y"
proof -
  show "suite_lawful salted_suite"
    using small_suite_lawful
    by (simp add: suite_lawful_def hkdf_lawful_def hash_lawful_def salted_suite_def sum_pbkdf2_def)
qed code_simp+

theorem unsolicited_response_hijacks_the_controller_witness:
  "\<exists>f g a f1 fs pA v keys.
      controller_main salted_suite (\<lambda>_. Inr ()) (\<lambda>_ _. None) (small_x @ [1, 2, 3, 4] @ small_random @ replicate 8 5)
        [datagram_of local_addr f] [datagram_of local_addr g] = Inr a
    \<and> cr_State (ct_commissioner a) = StateComplete \<and> cr_Passcode (ct_commissioner a) = samplePasscode
    \<and> decode_message response_type response_of (f_Payload f) = Inr (blank_response [7] 666 1 [2])
    \<and> e_sent (ct_env a) = f1 # fs \<and> decode_message pake1_type pake1_of (f_Payload f1) = Inr \<lparr>pk1_PA = pA\<rparr>
    \<and> verifier_outcome salted_suite [2] [4, 4, 5] (paseContext [] (f_Payload f)) pA small_y v
    \<and> Verifier_SharedKey v = Inr (cr_Ke (ct_commissioner a))
    \<and> DeriveSessionKeysFromKe salted_suite (cr_Ke (ct_commissioner a)) = Inr keys
    \<and> cr_sessionManager (ct_commissioner a) = InstallSecureSession NewSessionManager 12345 0 0 keys RoleInitiator"
  by (rule unsolicited_response_hijacks_the_controller [OF salted_suite_facts(1) _ _ _ _ salted_suite_facts(4,5)])
    (simp_all add: salted_suite_facts(2,3) small_lengths)

end
