(* ===== verification/Data_Model.thy ===== *)
theory Data_Model
  imports Session
begin

text \<open>
  \<^verbatim>\<open>datamodel/datamodel.go\<close>, \<^verbatim>\<open>model/model.go\<close> and \<^verbatim>\<open>interaction/interaction.go\<close>:
  the device's data and the interface through which requests reach it. A Go pointer in a map is
  an option, \<open>None\<close> for nil; a value of type \<^verbatim>\<open>interface{}\<close> is an optional value of an
  arbitrary type. The locale \<open>attribute_store\<close> is what the interface \<^verbatim>\<open>AttributeStore\<close>
  can promise its clients of the only implementation there is: reads and writes agree on which
  attributes exist. Values are not stored yet: a write is checked and dropped, a read gives nil.
\<close>

section \<open>Clusters, endpoints, nodes\<close>

type_synonym cluster_id = u32
type_synonym attribute_id = u32
type_synonym command_id = u32
type_synonym endpoint_id = u16
type_synonym device_type_id = u32

record 't attribute =
  at_ID :: attribute_id
  at_Type :: "'t option"
  at_Writable :: bool
  at_Readable :: bool

record command =
  cmd_ID :: command_id
  cmd_Direction :: u8

record 't cluster =
  cl_ID :: cluster_id
  cl_Attributes :: "attribute_id \<rightharpoonup> 't attribute"
  cl_Commands :: "command_id \<rightharpoonup> command"

record 't endpoint =
  ep_ID :: endpoint_id
  ep_DeviceTypes :: "device_type_id list"
  ep_Clusters :: "cluster_id \<rightharpoonup> 't cluster option"

record 't node =
  nd_Endpoints :: "endpoint_id \<rightharpoonup> 't endpoint option"

section \<open>The data store\<close>

datatype store_error = EndpointNotFound | ClusterNotFound | PanicNilEndpoint

record fabric =
  fb_ID :: u64
  fb_Label :: string

record 't data_store =
  ds_node :: "'t node"

definition NewDataStore :: "'t data_store" where
  "NewDataStore = \<lparr>ds_node = \<lparr>nd_Endpoints = Map.empty\<rparr>\<rparr>"

text \<open>
  An endpoint id that the map binds to a nil pointer makes both methods panic when they look for the
  cluster: \<open>PanicNilEndpoint\<close> is that panic, not an error they return.
\<close>

definition ReadAttribute :: "'t data_store \<Rightarrow> endpoint_id \<Rightarrow> cluster_id \<Rightarrow> attribute_id \<Rightarrow> store_error + 'v option" where
  "ReadAttribute ds endpointID clusterID attributeID =
     (case nd_Endpoints (ds_node ds) endpointID of None \<Rightarrow> Inl EndpointNotFound
      | Some None \<Rightarrow> Inl PanicNilEndpoint
      | Some (Some endpoint) \<Rightarrow>
          (case ep_Clusters endpoint clusterID of None \<Rightarrow> Inl ClusterNotFound | Some cluster \<Rightarrow> Inr None))"

definition WriteAttribute ::
  "'t data_store \<Rightarrow> endpoint_id \<Rightarrow> cluster_id \<Rightarrow> attribute_id \<Rightarrow> 'v option \<Rightarrow> (store_error + unit) \<times> 't data_store" where
  "WriteAttribute ds endpointID clusterID attributeID val =
     (case nd_Endpoints (ds_node ds) endpointID of None \<Rightarrow> (Inl EndpointNotFound, ds)
      | Some None \<Rightarrow> (Inl PanicNilEndpoint, ds)
      | Some (Some endpoint) \<Rightarrow>
          (case ep_Clusters endpoint clusterID of None \<Rightarrow> (Inl ClusterNotFound, ds) | Some cluster \<Rightarrow> (Inr (), ds)))"

section \<open>The interface to the interaction layer\<close>

text \<open>
  A store in which reading and writing agree on which attributes exist, and in which a write
  does not make attributes appear or vanish.
\<close>

locale attribute_store =
  fixes rd :: "'s \<Rightarrow> endpoint_id \<Rightarrow> cluster_id \<Rightarrow> attribute_id \<Rightarrow> 'e + 'v option"
    and wr :: "'s \<Rightarrow> endpoint_id \<Rightarrow> cluster_id \<Rightarrow> attribute_id \<Rightarrow> 'v option \<Rightarrow> ('e + unit) \<times> 's"
  assumes same_error: "rd s e c a = Inl er \<longleftrightarrow> fst (wr s e c a v) = Inl er"
    and write_keeps: "rd (snd (wr s e c a v)) e' c' a' = Inl er \<longleftrightarrow> rd s e' c' a' = Inl er"
begin

definition write_all :: "(endpoint_id \<times> cluster_id \<times> attribute_id \<times> 'v option) list \<Rightarrow> 's \<Rightarrow> 's" where
  "write_all ws s = fold (\<lambda>(e, c, a, v) s. snd (wr s e c a v)) ws s"

lemma write_all_simps [simp]:
  "write_all [] s = s" "write_all ((e, c, a, v) # ws) s = write_all ws (snd (wr s e c a v))"
  by (simp_all add: write_all_def)

lemma same_attributes: "rd (write_all ws s) e c a = Inl er \<longleftrightarrow> rd s e c a = Inl er"
proof (induction ws arbitrary: s)
  case (Cons w ws)
  obtain e' c' a' v where "w = (e', c', a', v)" by (cases w)
  then show ?case by (simp add: Cons write_keeps)
qed simp

lemma readable_is_writable:
  "(\<exists>r. rd (write_all ws s) e c a = Inr r) \<longleftrightarrow> fst (wr s e c a v) = Inr ()"
proof -
  have "(\<exists>r. rd (write_all ws s) e c a = Inr r) \<longleftrightarrow> (\<nexists>er. rd (write_all ws s) e c a = Inl er)"
    by (metis Inl_Inr_False sum.exhaust)
  also have "\<dots> \<longleftrightarrow> (\<nexists>er. fst (wr s e c a v) = Inl er)"
    by (simp add: same_attributes same_error [of s e c a _ v])
  also have "\<dots> \<longleftrightarrow> fst (wr s e c a v) = Inr ()"
    by (cases "fst (wr s e c a v)") auto
  finally show ?thesis .
qed

end

interpretation dst: attribute_store "ReadAttribute :: 't data_store \<Rightarrow> _ \<Rightarrow> _ \<Rightarrow> _ \<Rightarrow> store_error + 'v option" WriteAttribute
  by unfold_locales (auto simp: ReadAttribute_def WriteAttribute_def split: option.splits)

section \<open>Requests\<close>

text \<open>
  The handlers of the interaction model are stubs: each returns nil without looking at its
  arguments. The result is the error, if any, and the model afterwards.
\<close>

record 't interaction_model =
  im_sessionManager :: session_manager
  im_store :: "'t data_store"

definition NewInteractionModel :: "session_manager \<Rightarrow> 't data_store \<Rightarrow> 't interaction_model" where
  "NewInteractionModel sm store = \<lparr>im_sessionManager = sm, im_store = store\<rparr>"

definition SendReadRequest ::
  "'t interaction_model \<Rightarrow> u16 \<Rightarrow> endpoint_id \<Rightarrow> cluster_id \<Rightarrow> attribute_id \<Rightarrow> store_error option \<times> 't interaction_model" where
  "SendReadRequest im sessionID endpointID clusterID attributeID = (None, im)"

definition HandleReadRequest :: "'t interaction_model \<Rightarrow> u16 \<Rightarrow> bytes \<Rightarrow> store_error option \<times> 't interaction_model" where
  "HandleReadRequest im sessionID payload = (None, im)"

definition SendWriteRequest ::
  "'t interaction_model \<Rightarrow> u16 \<Rightarrow> endpoint_id \<Rightarrow> cluster_id \<Rightarrow> attribute_id \<Rightarrow> 'v option
     \<Rightarrow> store_error option \<times> 't interaction_model" where
  "SendWriteRequest im sessionID endpointID clusterID attributeID val = (None, im)"

definition HandleWriteRequest :: "'t interaction_model \<Rightarrow> u16 \<Rightarrow> bytes \<Rightarrow> store_error option \<times> 't interaction_model" where
  "HandleWriteRequest im sessionID payload = (None, im)"

end
