(* ===== verification/Discovery.thy ===== *)
theory Discovery
  imports Prelude
begin

text \<open>
  \<^verbatim>\<open>discovery/discovery.go\<close>: the service types and the stubs for announcing and finding
  devices. Neither side does anything yet; \<^verbatim>\<open>Browse\<close> returns a nil channel, \<open>None\<close> here.
\<close>

definition Commissionable :: string where "Commissionable = ''_matterc._udp''"
definition Operational :: string where "Operational = ''_matter._tcp''"

record discovered_device =
  dd_IPs :: "string list"
  dd_Port :: int
  dd_Txt :: "string \<rightharpoonup> string"

datatype advertiser = Advertiser
datatype browser = Browser

definition NewAdvertiser :: advertiser where "NewAdvertiser = Advertiser"
definition NewBrowser :: browser where "NewBrowser = Browser"

text \<open>The result is the error, if any.\<close>

definition Advertise :: "advertiser \<Rightarrow> string \<Rightarrow> int \<Rightarrow> (string \<rightharpoonup> string) \<Rightarrow> 'e option" where
  "Advertise a serviceType port txtRecords = None"

definition Advertiser_Stop :: "advertiser \<Rightarrow> 'e option" where
  "Advertiser_Stop a = None"

definition Browse :: "browser \<Rightarrow> string \<Rightarrow> discovered_device list option \<times> 'e option" where
  "Browse b serviceType = (None, None)"

end
