(* ===== verification/Spec2Isabelle.thy ===== *)
theory Spec2Isabelle
  imports Tlv_Cost Message_Frame Session Transport Pase_Agreement Pase_Programs Pase_Tamper Pase_Hijack Data_Model Discovery
begin

text \<open>
  A verification library for the Go Matter SDK. The repository holds the lower layers of a
  Matter stack: a TLV codec driven by reflection, message headers and frames, UDP transport,
  AES-CCM sessions with replay protection, the SPAKE2+ key exchange, and the PASE commissioning
  handshake that joins them; the data model, the interaction model and discovery are sketched.

  \<^bold>\<open>Parts and theories.\<close> Bytes go up and down through these layers:
  \<^item> \<open>Prelude\<close>: byte lists, little-endian numbers of each width, reading from a byte
    stream; lemmas on words and lists that the components share.
  \<^item> \<open>Tlv_Wire\<close> (\<^verbatim>\<open>src/tlv/tlv.go\<close>): elements, tags, every \<^verbatim>\<open>Reader\<close> and
    \<^verbatim>\<open>Writer\<close> method. A reader is the list of bytes left, a writer the list written so far
    with the error of the failed call, if any.
  \<^item> \<open>Go_Reflect\<close>: Go types and values as \<^verbatim>\<open>reflect\<close> shows them, struct tags, zero
    values. \<open>Tlv_Encoder\<close>, \<open>Tlv_Decoder\<close> (\<^verbatim>\<open>src/tlv/encoder.go\<close>,
    \<^verbatim>\<open>decoder.go\<close>): the recursive codec over them. \<open>Tlv_Roundtrip\<close> and
    \<open>Tlv_Properties\<close> hold what is proved of the codec, \<open>Tlv_Cost\<close> what reading and encoding
    cost.
  \<^item> \<open>Message_Header\<close> (\<^verbatim>\<open>src/message/header.go\<close>, \<^verbatim>\<open>payload_header.go\<close>,
    \<^verbatim>\<open>flags.go\<close>, \<^verbatim>\<open>opcodes.go\<close>) and \<open>Message_Frame\<close> (\<^verbatim>\<open>frame.go\<close>,
    \<^verbatim>\<open>builder.go\<close>). The locale \<open>prefix_codec\<close> is the contract of a header format,
    \<open>framing\<close> the frame format built from two of them.
  \<^item> \<open>Transport\<close> (\<^verbatim>\<open>src/transport/transport.go\<close>): sending and the receive loop.
  \<^item> \<open>Crypto\<close> (\<^verbatim>\<open>src/crypto/crypto.go\<close>, \<^verbatim>\<open>session_keys.go\<close>): the provider, nonces,
    session keys. \<open>Session\<close> (\<^verbatim>\<open>src/session/session.go\<close>): the session table, payload
    protection, the replay window.
  \<^item> \<open>Elliptic\<close>, \<open>Spake2plus\<close> (\<^verbatim>\<open>src/crypto/spake2plus.go\<close>, \<^verbatim>\<open>pbkdf.go\<close>): a
    short Weierstrass curve as the standard library offers it, password derivation, prover and
    verifier. \<open>Spake_Agreement\<close>: what an accepted confirmation proves.
  \<^item> \<open>Pase_Messages\<close> (\<^verbatim>\<open>src/commissioning/messages.go\<close>): the five payloads, with the
    locale \<open>tlv_message\<close> as the contract of a message type. \<open>Commissioning\<close>
    (\<^verbatim>\<open>commissioning.go\<close>, \<^verbatim>\<open>commissionee.go\<close>, \<^verbatim>\<open>commissioner.go\<close>): both state
    machines, one action per handler. \<open>Pase_Safety\<close>, \<open>Pase_Steps\<close>,
    \<open>Pase_Run\<close>, \<open>Pase_Invariant\<close>, \<open>Pase_Agreement\<close>: what a handler may do, what each step
    does when it succeeds, whole runs, what holds in every reachable state, what an accepted
    confirmation proves of both parties. \<open>Pase_Programs\<close>: the rounds of a run as one run of the
    two sample programs, with the locale \<open>sending_program\<close> as the contract of a program's
    handler. \<open>Pase_Tamper\<close>, \<open>Pase_Hijack\<close>: two runs under attack.
  \<^item> \<open>Samples\<close> (\<^verbatim>\<open>src/samples/commissioning\<close>): the device and the controller program.
  \<^item> \<open>Data_Model\<close> (\<^verbatim>\<open>src/datamodel\<close>, \<^verbatim>\<open>src/model\<close>, \<^verbatim>\<open>src/interaction\<close>) and
    \<open>Discovery\<close> (\<^verbatim>\<open>src/discovery\<close>): data store, request and mDNS stubs.

  \<^bold>\<open>How code becomes definitions.\<close> A struct is a record, a method a function that takes the
  record and returns it afterwards. Errors and panics are values of a sum type; where a method
  fails after it has changed its receiver, the changed record is returned with the error.
  Integers have their Go width. Handlers of the handshake are actions on the party, the bytes its
  random source will deliver and the frames given to its messenger. Slices are values: the code
  keeps no alias whose sharing shows in a result.

  \<^bold>\<open>What is shown.\<close>
  \<^item> Codec: values come back from the wire unchanged, decoding keeps types on every input, the
    reader consumes a prefix and takes linearly many steps on every input, the encoder only
    appends and its output is bounded; integers have the least width. Where the two sides disagree
    (fully qualified tags, a nil pointer as the last field, exported fields tagged with a dash,
    strings from 2 GiB to 4 GiB) the disagreement is a theorem with its exact conditions.
  \<^item> Messages: headers and frames decode exactly from their canonical encodings, with the exact
    error otherwise; every frame the builder makes survives the wire.
  \<^item> Transport: the receive loop is a fold over the frames that decode, up to the first read
    error; what is sent is received.
  \<^item> Sessions: as long as counters avoid 0 and jumps of exactly 32, the bitmap window implements
    a specification over sets of counters and no payload is delivered twice; a failed decryption changes nothing, nonces never repeat, two ends with
    mirrored keys understand each other; what the window does at the counter 0 and at a jump of 32 is a theorem.
  \<^item> Key exchange: equal passcodes give equal keys; keys are settled once, nothing panics.
  \<^item> Handshake: sessions are installed only after confirmation, and a party that is complete has
    one, in every reachable state; two programs with the same passcode complete within three rounds
    over the wire and can then talk, and the two sample programs commission each other when each is
    fed with what the other sends. An accepted
    confirmation means that both parties used the same context, shares and key, and that the
    device's scalar comes from a passcode the controller had, if the two runs at hand do not
    collide in hash and MAC. What the missing state checks allow (a replayed Pake3, a handshake without parameters) is proved too,
    and that a response forged in transit goes unnoticed, because the context has no boundary
    between request and response. The gravest: a response that arrives before \<^verbatim>\<open>StartPASE\<close> makes
    the controller run the handshake with passcode 0 and complete it with whoever sent it.

  \<^bold>\<open>Parameters and laws.\<close> AES-CCM, HKDF, SHA-256, HMAC and PBKDF2 are fields of the records
  \<open>primitives\<close> and \<open>suite\<close>. Their laws (\<open>ccm_lawful\<close>, \<open>ccm_total\<close>, \<open>hkdf_lawful\<close>,
  \<open>hash_lawful\<close>) state lengths, totality below the length limit, and that opening inverts
  sealing. \<open>curve_lawful\<close> states that the curve is cyclic with the multiples of its base point
  as its points. \<open>sum_primitives\<close> and \<open>small_suite\<close> with a curve over seven elements satisfy
  all of them and serve as concrete instances. Sockets are functions and lists of read results.

  \<^bold>\<open>Bounds and termination.\<close> There is no fuel: loops are structural recursions or functions
  with a termination proof, and the receive loop is a recursion over what the socket delivers.
  Runs are stated for three rounds, as many as the handshake has, and for payloads that fit the
  2048 byte receive buffer (salt up to 1800 bytes, points up to 1901; salt up to 700 bytes where
  a forged response rides along).

  \<^bold>\<open>Not modelled.\<close> Constants that no operation uses, the texts of error messages, tests
  and documents. The code has no locks, so calls on one object are modelled one after the other;
  real time and the scheduler are outside, and the controller's goroutine interleaves with
  \<^verbatim>\<open>StartPASE\<close> at the granularity of frames.
\<close>

end
